(* ===== verification/Prelude.thy ===== *)
theory Prelude
  imports Main "HOL-Library.Word"
begin

text \<open>
  Shared vocabulary of the development: the Python exceptions the program can raise, the
  result type of a Python call that may raise, Python's list indexing (negative indices
  count from the end, out of range raises), Python's \<open>str\<close> of a non-negative integer
  and its inverse \<open>int\<close>, and \<open>str.lower\<close> and \<open>str.endswith\<close> on the ASCII characters
  the model's strings are made of. The lemmas here are the generic facts the component
  theories use; they are collected in \<open>py_simps\<close>.
\<close>

named_theorems py_simps "facts about the Python primitives of the model"

subsection \<open>Exceptions and results\<close>

text \<open>
  The exceptions raised on the paths the model covers. \<open>ArgumentError\<close> is what an
  RDKit entry point (a Boost.Python wrapper) raises when it is handed \<open>None\<close> or a float
  where it expects a molecule or a string; \<open>ToolkitError\<close> stands for any exception a
  descriptor computation raises on a molecule it was able to parse (for instance
  sascorer's \<open>ZeroDivisionError\<close> on a molecule without atoms). \<open>AssertionError\<close> is
  what Flask raises when a setup method is called after the first request.
\<close>

datatype py_exc =
    ArgumentError
  | ToolkitError
  | ValueError
  | IndexError
  | KeyError
  | AssertionError

type_synonym 'a py_result = "py_exc + 'a"

type_synonym byte = "8 word"

text \<open>Sequencing of calls that may raise: the first exception propagates.\<close>

definition sbind :: "'a py_result \<Rightarrow> ('a \<Rightarrow> 'b py_result) \<Rightarrow> 'b py_result" where
  "sbind x f = (case x of Inl e \<Rightarrow> Inl e | Inr a \<Rightarrow> f a)"

lemma sbind_Inl [simp, py_simps]: "sbind (Inl e) f = Inl e"
  and sbind_Inr [simp, py_simps]: "sbind (Inr a) f = f a"
  by (simp_all add: sbind_def)

lemma sbind_eq_Inr [py_simps]: "sbind x f = Inr b \<longleftrightarrow> (\<exists>a. x = Inr a \<and> f a = Inr b)"
  by (cases x) simp_all

text \<open>A list comprehension whose element expression may raise.\<close>

fun py_map :: "('a \<Rightarrow> 'b py_result) \<Rightarrow> 'a list \<Rightarrow> 'b list py_result" where
  "py_map f [] = Inr []"
| "py_map f (x # xs) = sbind (f x) (\<lambda>y. sbind (py_map f xs) (\<lambda>ys. Inr (y # ys)))"

lemma py_map_Inr [py_simps]: "(\<And>x. x \<in> set xs \<Longrightarrow> f x = Inr (g x)) \<Longrightarrow> py_map f xs = Inr (map g xs)"
  by (induction xs) simp_all

subsection \<open>Python list indexing\<close>

text \<open>\<open>xs[i]\<close> and \<open>df.iloc[i]\<close> with an integer \<open>i\<close>.\<close>

definition py_getitem :: "'a list \<Rightarrow> int \<Rightarrow> 'a py_result" where
  "py_getitem xs i =
     (let j = (if i < 0 then i + int (length xs) else i)
      in if 0 \<le> j \<and> j < int (length xs) then Inr (xs ! nat j) else Inl IndexError)"

lemma py_getitem_nat [py_simps]:
  "i < length xs \<Longrightarrow> py_getitem xs (int i) = Inr (xs ! i)"
  by (simp add: py_getitem_def)

lemma py_getitem_Cons_0 [simp, py_simps]: "py_getitem (x # xs) 0 = Inr x"
  by (simp add: py_getitem_def)

lemma py_getitem_Nil [simp, py_simps]: "py_getitem [] i = Inl IndexError"
  by (simp add: py_getitem_def)

lemma py_getitem_Inr:
  assumes "py_getitem xs i = Inr x"
  shows "\<exists>k < length xs. x = xs ! k"
  using assms by (auto simp: py_getitem_def Let_def split: if_splits intro!: exI [of _ "nat _"])

lemma py_getitem_Inl:
  assumes "py_getitem xs i = Inl e"
  shows "e = IndexError \<and> (i \<ge> int (length xs) \<or> i < - int (length xs))"
  using assms by (auto simp: py_getitem_def Let_def split: if_splits)

subsection \<open>Decimal strings: \<open>str(n)\<close> and \<open>int(s)\<close>\<close>

definition decimal_digits :: string where
  "decimal_digits = ''0123456789''"

definition digit_char :: "nat \<Rightarrow> char" where
  "digit_char d = decimal_digits ! d"

definition char_digit :: "char \<Rightarrow> nat option" where
  "char_digit c = map_of (zip decimal_digits [0..<10]) c"

fun nat_str :: "nat \<Rightarrow> string" where
  "nat_str n = (if n < 10 then [digit_char n] else nat_str (n div 10) @ [digit_char (n mod 10)])"

declare nat_str.simps [simp del]

fun digits_val :: "nat \<Rightarrow> string \<Rightarrow> nat option" where
  "digits_val acc [] = Some acc"
| "digits_val acc (c # cs) =
     (case char_digit c of None \<Rightarrow> None | Some d \<Rightarrow> digits_val (10 * acc + d) cs)"

definition str_nat :: "string \<Rightarrow> nat option" where
  "str_nat s = (if s = [] then None else digits_val 0 s)"

lemma char_digit_digit_char [simp, py_simps]: "d < 10 \<Longrightarrow> char_digit (digit_char d) = Some d"
  using map_of_zip_nth [of decimal_digits "[0..<10]" d]
  by (simp add: char_digit_def digit_char_def decimal_digits_def)

lemma nat_str_nonempty [simp, py_simps]: "nat_str n \<noteq> []"
  by (subst nat_str.simps) simp

lemma digits_val_append:
  "digits_val acc (xs @ ys) = Option.bind (digits_val acc xs) (\<lambda>a. digits_val a ys)"
  by (induction acc xs rule: digits_val.induct) (auto split: option.splits)

lemma digits_val_nat_str: "digits_val acc (nat_str n) = Some (acc * 10 ^ length (nat_str n) + n)"
proof (induction n arbitrary: acc rule: nat_str.induct)
  case (1 n)
  show ?case
  proof (cases "n < 10")
    case True
    then show ?thesis by (simp add: nat_str.simps [of n])
  next
    case False
    then have IH: "digits_val acc (nat_str (n div 10)) =
                     Some (acc * 10 ^ length (nat_str (n div 10)) + n div 10)"
      using "1.IH" by simp
    have "n = 10 * (n div 10) + n mod 10" by simp
    then show ?thesis
      using False IH by (simp add: nat_str.simps [of n] digits_val_append algebra_simps)
  qed
qed

text \<open>Reading back a key written by \<open>str\<close>: the round trip \<open>int(str(n)) = n\<close>.\<close>

lemma str_nat_nat_str [simp, py_simps]: "str_nat (nat_str n) = Some n"
  by (simp add: str_nat_def digits_val_nat_str)

lemma nat_str_inj [simp]: "nat_str m = nat_str n \<longleftrightarrow> m = n"
  by (metis option.inject str_nat_nat_str)

subsection \<open>ASCII case folding and \<open>str.endswith\<close>\<close>

text \<open>\<open>str.lower\<close> on ASCII: the 26 capital letters map to their small letters.\<close>

definition lower_char :: "char \<Rightarrow> char" where
  "lower_char c =
     (case map_of (zip ''ABCDEFGHIJKLMNOPQRSTUVWXYZ'' ''abcdefghijklmnopqrstuvwxyz'') c of
        Some l \<Rightarrow> l
      | None \<Rightarrow> c)"

definition lower :: "string \<Rightarrow> string" where
  "lower s = map lower_char s"

lemma lower_Nil [simp, py_simps]: "lower [] = []"
  by (simp add: lower_def)

definition endswith :: "string \<Rightarrow> string \<Rightarrow> bool" where
  "endswith s suf \<longleftrightarrow> length suf \<le> length s \<and> drop (length s - length suf) s = suf"

lemma endswith_append [py_simps]: "endswith (xs @ suf) suf"
  by (simp add: endswith_def)

lemma endswith_iff [py_simps]: "endswith s suf \<longleftrightarrow> (\<exists>xs. s = xs @ suf)"
proof
  assume "endswith s suf"
  then have "s = take (length s - length suf) s @ suf"
    by (metis append_take_drop_id endswith_def)
  then show "\<exists>xs. s = xs @ suf" ..
qed (auto simp: endswith_def)

end
