(* ===== verification/Forms.thy ===== *)
theory Forms
  imports Prelude
begin

text \<open>
  The upload request and \<open>UploadForm\<close> (src/extras/forms.py): a \<open>FileField\<close> with the
  validators \<open>FileRequired()\<close> and \<open>FileAllowed(["txt"])\<close>, in a \<open>FlaskForm\<close> (so with
  CSRF protection, the application having a \<open>SECRET_KEY\<close>), and the server's
  \<open>MAX_CONTENT_LENGTH\<close> of 5 KB (app.py line 30). A request carries its method, the
  uploaded file if one was chosen (Flask-WTF keeps only a \<open>FileStorage\<close> with a
  non-empty file name), whether its CSRF token checks, and its declared content length.
  \<open>validate_on_submit\<close> is Flask-WTF's: the method is a submitting one and
  \<open>validate()\<close> succeeds.
\<close>

datatype http_method = GET | POST

record upload =
  filename :: string
  content :: string

record request =
  req_method :: http_method
  req_file :: "upload option"
  csrf_valid :: bool
  content_length :: nat

definition MAX_CONTENT_LENGTH :: nat where
  "MAX_CONTENT_LENGTH = 5 * 1024"

text \<open>\<open>FileRequired\<close>: \<open>isinstance(field.data, FileStorage) and field.data\<close>; a
  \<open>FileStorage\<close> is true when it has a file name.\<close>

definition file_required :: "upload option \<Rightarrow> bool" where
  "file_required f = (case f of None \<Rightarrow> False | Some u \<Rightarrow> filename u \<noteq> [])"

text \<open>\<open>FileAllowed(upload_set)\<close>: passes when there is no file; otherwise the lower-cased
  file name must end with \<open>"." + x\<close> for an \<open>x\<close> of the set.\<close>

definition file_allowed :: "string list \<Rightarrow> upload option \<Rightarrow> bool" where
  "file_allowed exts f =
     (case f of
        None \<Rightarrow> True
      | Some u \<Rightarrow> filename u = [] \<or> list_ex (\<lambda>x. endswith (lower (filename u)) (''.'' @ x)) exts)"

text \<open>\<open>form.validate()\<close>: the CSRF token, then the file field's validators in order
  (\<open>FileRequired\<close> stops the chain when it fails).\<close>

definition upload_form_validate :: "request \<Rightarrow> bool" where
  "upload_form_validate req \<longleftrightarrow>
     csrf_valid req \<and> file_required (req_file req) \<and> file_allowed [''txt''] (req_file req)"

definition validate_on_submit :: "request \<Rightarrow> bool" where
  "validate_on_submit req \<longleftrightarrow> req_method req = POST \<and> upload_form_validate req"

text \<open>\<open>form.file.data\<close> once the form has validated.\<close>

definition validated_upload :: "request \<Rightarrow> upload option" where
  "validated_upload req = (if validate_on_submit req then req_file req else None)"

text \<open>Werkzeug refuses to read a body longer than \<open>MAX_CONTENT_LENGTH\<close> (413).\<close>

definition body_too_large :: "request \<Rightarrow> bool" where
  "body_too_large req \<longleftrightarrow> req_method req = POST \<and> MAX_CONTENT_LENGTH < content_length req"

text \<open>A request is well formed when the uploaded content is part of its body.\<close>

definition well_formed :: "request \<Rightarrow> bool" where
  "well_formed req = (case req_file req of None \<Rightarrow> True | Some u \<Rightarrow> length (content u) \<le> content_length req)"

lemma lower_nonempty_iff [simp]: "lower s = [] \<longleftrightarrow> s = []"
  by (simp add: lower_def)

text \<open>C14: the form hands over a file exactly for a POST with a valid CSRF token and an
  uploaded file whose name, lower-cased, ends in \<open>.txt\<close> (so \<open>mols.TXT\<close> is accepted);
  nothing is required of the file's content.\<close>

theorem validated_upload_iff:
  "validated_upload req = Some u \<longleftrightarrow>
     req_method req = POST \<and> csrf_valid req \<and> req_file req = Some u \<and>
     (\<exists>xs. lower (filename u) = xs @ ''.txt'')"
  by (auto simp: validated_upload_def validate_on_submit_def upload_form_validate_def
           file_required_def file_allowed_def endswith_iff split: option.splits)

lemma validated_upload_iff_witness:
  "validated_upload \<lparr>req_method = POST, req_file = Some \<lparr>filename = ''a.TXT'', content = []\<rparr>,
                      csrf_valid = True, content_length = 0\<rparr> = Some \<lparr>filename = ''a.TXT'', content = []\<rparr>"
  using validated_upload_iff [of "\<lparr>req_method = POST, req_file = Some \<lparr>filename = ''a.TXT'', content = []\<rparr>,
                      csrf_valid = True, content_length = 0\<rparr>" "\<lparr>filename = ''a.TXT'', content = []\<rparr>"]
  by (simp add: lower_def lower_char_def)

end
