(* ===== verification/Toolkit.thy ===== *)
theory Toolkit
  imports Prelude
begin

text \<open>
  The chemistry toolkit the program calls (RDKit's \<open>Chem.MolFromSmiles\<close>,
  \<open>Descriptors.MolLogP\<close>, \<open>Draw.MolToImage\<close> followed by the PNG export, and the
  contributed \<open>sascorer.calculateScore\<close>) is not part of the repository: it is an
  interface, a record of functions over an abstract molecule type \<open>'m\<close> and an abstract
  float type \<open>'f\<close>. Every lemma of the development that mentions it holds for every
  toolkit. What the program itself does around each call is modelled here: the
  argument it passes (a pandas cell, which may be a float \<open>NaN\<close> instead of a string,
  or a molecule that may be \<open>None\<close>) and how the wrapper fails on it.
  \<open>example_chem\<close> is a small concrete toolkit used only by the witnesses.
\<close>

text \<open>A cell of the \<open>SMILES\<close> column: a string, or the float NaN that pandas reads for
  a field in its list of missing-value markers.\<close>

datatype cell = Str string | NaN

record ('m, 'f) chem =
  MolFromSmiles :: "string \<Rightarrow> 'm option"
  MolLogP :: "'m \<Rightarrow> 'f py_result"
  calculateScore :: "'m \<Rightarrow> 'f py_result"
  MolToImage :: "'m \<Rightarrow> byte list"

text \<open>\<open>Chem.MolFromSmiles(x)\<close>: a string is parsed (\<open>None\<close> when it is not a valid
  SMILES; RDKit logs the problem and does not raise), a float argument raises.\<close>

definition mol_from_cell :: "('m, 'f) chem \<Rightarrow> cell \<Rightarrow> 'm option py_result" where
  "mol_from_cell tk c = (case c of Str s \<Rightarrow> Inr (MolFromSmiles tk s) | NaN \<Rightarrow> Inl ArgumentError)"

text \<open>\<open>Descriptors.MolLogP(mol)\<close> and \<open>sascorer.calculateScore(mol)\<close>: both raise when the
  molecule is \<open>None\<close>.\<close>

definition mol_logp_py :: "('m, 'f) chem \<Rightarrow> 'm option \<Rightarrow> 'f py_result" where
  "mol_logp_py tk mol = (case mol of None \<Rightarrow> Inl ArgumentError | Some m \<Rightarrow> MolLogP tk m)"

definition sa_score_py :: "('m, 'f) chem \<Rightarrow> 'm option \<Rightarrow> 'f py_result" where
  "sa_score_py tk mol = (case mol of None \<Rightarrow> Inl ArgumentError | Some m \<Rightarrow> calculateScore tk m)"

text \<open>\<open>Draw.MolToImage(mol)\<close> raises \<open>ValueError\<close> ("Null molecule provided") on \<open>None\<close>;
  on a molecule, the image saved as PNG is a byte string.\<close>

definition mol_to_png_py :: "('m, 'f) chem \<Rightarrow> 'm option \<Rightarrow> byte list py_result" where
  "mol_to_png_py tk mol = (case mol of None \<Rightarrow> Inl ValueError | Some m \<Rightarrow> Inr (MolToImage tk m))"

lemmas chem_call_defs = mol_from_cell_def mol_logp_py_def sa_score_py_def mol_to_png_py_def

subsection \<open>What a row needs to be valid\<close>

text \<open>
  The descriptors one row of the upload yields, computed the way the loop body computes
  them: parse, then \<open>MolLogP\<close>, then \<open>calculateScore\<close>; the first exception wins.
\<close>

definition descriptors :: "('m, 'f) chem \<Rightarrow> cell \<Rightarrow> ('f \<times> 'f) py_result" where
  "descriptors tk c =
     (case mol_from_cell tk c of
        Inl e \<Rightarrow> Inl e
      | Inr mol \<Rightarrow>
          (case mol_logp_py tk mol of
             Inl e \<Rightarrow> Inl e
           | Inr lp \<Rightarrow> (case sa_score_py tk mol of Inl e \<Rightarrow> Inl e | Inr sa \<Rightarrow> Inr (lp, sa))))"

definition row_ok :: "('m, 'f) chem \<Rightarrow> cell \<Rightarrow> bool" where
  "row_ok tk c = (case descriptors tk c of Inl _ \<Rightarrow> False | Inr _ \<Rightarrow> True)"

lemma descriptors_Inr:
  "descriptors tk c = Inr (lp, sa) \<longleftrightarrow>
     (\<exists>s m. c = Str s \<and> MolFromSmiles tk s = Some m \<and> MolLogP tk m = Inr lp \<and>
            calculateScore tk m = Inr sa)"
  by (auto simp: descriptors_def chem_call_defs split: cell.splits option.splits sum.splits)

lemma row_ok_parses:
  assumes "row_ok tk c"
  shows "\<exists>s m. c = Str s \<and> MolFromSmiles tk s = Some m"
  using assms
  by (auto simp: row_ok_def descriptors_def chem_call_defs
           split: cell.splits option.splits sum.splits)

subsection \<open>A concrete toolkit for the witnesses\<close>

text \<open>Molecules are their SMILES, floats are integers; three SMILES parse.\<close>

definition example_chem :: "(string, int) chem" where
  "example_chem =
     \<lparr>MolFromSmiles = (\<lambda>s. if s \<in> set [''CCO'', ''c1ccccc1'', ''C(=O)O''] then Some s else None),
      MolLogP = (\<lambda>m. Inr (int (length m))),
      calculateScore = (\<lambda>m. Inr 1),
      MolToImage = (\<lambda>m. map (\<lambda>c. of_nat (of_char c)) m)\<rparr>"

end
