(* ===== verification/Csv.thy ===== *)
theory Csv
  imports Toolkit
begin

text \<open>
  The part of \<open>pd.read_csv(form.file.data, names=["SMILES"])\<close> (app.py, \<open>index\<close>) that
  the program depends on, for a one-column file with pandas' default options: the C
  tokenizer ends a line at \<open>\n\<close>, at \<open>\r\n\<close> and at a lone \<open>\r\<close>; with
  \<open>skip_blank_lines=True\<close> it drops every line that is empty or holds only spaces and
  tabs; a field equal to one of pandas' default missing-value markers becomes NaN; every
  other line becomes the string it holds, unchanged (no stripping). Because \<open>names\<close>
  is given there is no header line, and a file without data lines gives an empty frame.
  Not modelled: the field delimiter \<open>,\<close> and the quote character \<open>"\<close> (neither occurs in
  a SMILES string; a line holding one is outside the faithful domain of \<open>read_csv\<close>),
  and pandas' conversion of an all-numeric column to numbers.
\<close>

definition LF :: char where "LF = CHR 0x0A"
definition CR :: char where "CR = CHR 0x0D"

definition drop_lf :: "string \<Rightarrow> string" where
  "drop_lf cs = (case cs of [] \<Rightarrow> [] | c # r \<Rightarrow> if c = LF then r else cs)"

lemma length_drop_lf: "length (drop_lf cs) \<le> length cs"
  by (simp add: drop_lf_def split: list.splits)

text \<open>The tokenizer's line splitting; \<open>cur\<close> is the current line, reversed.\<close>

function split_lines :: "string \<Rightarrow> string \<Rightarrow> string list" where
  "split_lines cur [] = [rev cur]"
| "split_lines cur (c # cs) =
     (if c = LF then rev cur # split_lines [] cs
      else if c = CR then rev cur # split_lines [] (drop_lf cs)
      else split_lines (c # cur) cs)"
  by pat_completeness auto
termination
  by (relation "measure (\<lambda>(cur, cs). length cs)") (auto simp: le_imp_less_Suc length_drop_lf)

definition blank_line :: "string \<Rightarrow> bool" where
  "blank_line l = list_all (\<lambda>c. c = CHR '' '' \<or> c = CHR 0x09) l"

text \<open>pandas' default \<open>na_values\<close> (\<open>STR_NA_VALUES\<close>).\<close>

definition na_values :: "string list" where
  "na_values =
     [''-1.#IND'', ''1.#QNAN'', ''1.#IND'', ''-1.#QNAN'', ''#N/A N/A'', ''#N/A'', ''N/A'',
      ''n/a'', ''NA'', ''<NA>'', ''#NA'', ''NULL'', ''null'', ''NaN'', ''-NaN'', ''nan'',
      ''-nan'', ''None'', '''']"

definition to_cell :: "string \<Rightarrow> cell" where
  "to_cell l = (if l \<in> set na_values then NaN else Str l)"

text \<open>The data lines of a file, each with its 1-based line number in the file.\<close>

definition data_lines :: "string \<Rightarrow> (nat \<times> string) list" where
  "data_lines content = filter (\<lambda>(n, l). \<not> blank_line l) (enumerate 1 (split_lines [] content))"

definition read_csv :: "string \<Rightarrow> cell list" where
  "read_csv content = map (\<lambda>(n, l). to_cell l) (data_lines content)"

subsection \<open>Lines\<close>

text \<open>Python's \<open>"\n".join(ls)\<close>.\<close>

fun join_lines :: "string list \<Rightarrow> string" where
  "join_lines [] = []"
| "join_lines [l] = l"
| "join_lines (l # l' # ls) = l @ LF # join_lines (l' # ls)"

lemma split_lines_nonempty [simp]: "split_lines cur cs \<noteq> []"
  by (induction cur cs rule: split_lines.induct) (simp_all add: split_lines.simps)

lemma join_lines_Cons:
  "ls \<noteq> [] \<Longrightarrow> join_lines (l # ls) = l @ LF # join_lines ls"
  by (cases ls) simp_all

lemma join_split_lines_gen:
  "CR \<notin> set cs \<Longrightarrow> join_lines (split_lines cur cs) = rev cur @ cs"
proof (induction cur cs rule: split_lines.induct)
  case (1 cur)
  then show ?case by simp
next
  case (2 cur c cs)
  show ?case
  proof (cases "c = LF")
    case True
    with "2.prems" "2.IH"(1) show ?thesis by (simp add: join_lines_Cons)
  next
    case False
    moreover have "c \<noteq> CR" using "2.prems" by auto
    ultimately show ?thesis using "2.prems" "2.IH"(3) by simp
  qed
qed

text \<open>C18: splitting a file on line feeds loses nothing: when the file has no carriage
  return, joining its lines with line feeds gives the file back.\<close>

theorem join_split_lines: "CR \<notin> set cs \<Longrightarrow> join_lines (split_lines [] cs) = cs"
  using join_split_lines_gen [of cs "[]"] by simp

lemma length_read_csv: "length (read_csv content) = length (data_lines content)"
  by (simp add: read_csv_def)

lemma read_csv_nth:
  "k < length (data_lines content) \<Longrightarrow> read_csv content ! k = to_cell (snd (data_lines content ! k))"
  by (simp add: read_csv_def case_prod_beta)

text \<open>The \<open>k\<close>-th data line is at least line \<open>k + 1\<close> of the file; it is exactly
  that line when no line of the file is blank.\<close>

lemma filter_enumerate_fst_ge:
  "k < length (filter P (enumerate n xs)) \<Longrightarrow> n + k \<le> fst (filter P (enumerate n xs) ! k)"
proof (induction xs arbitrary: n k)
  case Nil
  then show ?case by simp
next
  case (Cons x xs)
  show ?case
  proof (cases "P (n, x)")
    case True
    show ?thesis
    proof (cases k)
      case 0
      with True show ?thesis by simp
    next
      case (Suc j)
      with True Cons.prems have "j < length (filter P (enumerate (Suc n) xs))" by simp
      then have "Suc n + j \<le> fst (filter P (enumerate (Suc n) xs) ! j)" by (rule Cons.IH)
      with True Suc show ?thesis by simp
    qed
  next
    case False
    with Cons.prems have "k < length (filter P (enumerate (Suc n) xs))" by simp
    then have "Suc n + k \<le> fst (filter P (enumerate (Suc n) xs) ! k)" by (rule Cons.IH)
    with False show ?thesis by simp
  qed
qed

text \<open>The \<open>k\<close>-th row of the frame (0-based) comes from line \<open>k + 1\<close> of the file
  or a later one: blank lines skipped before it only push it further down.\<close>

theorem row_file_line_ge:
  "k < length (data_lines content) \<Longrightarrow> Suc k \<le> fst (data_lines content ! k)"
  using filter_enumerate_fst_ge [of k _ 1] by (simp add: data_lines_def)

lemma row_file_line_ge_witness:
  "0 < length (data_lines (''A'' @ LF # LF # ''B'')) \<and> Suc 0 \<le> fst (data_lines (''A'' @ LF # LF # ''B'') ! 0)"
  using row_file_line_ge [of 0 "''A'' @ LF # LF # ''B''"]
  by (simp add: data_lines_def LF_def CR_def blank_line_def enumerate_eq_zip)

lemma data_lines_no_blank:
  assumes "\<not> list_ex blank_line (split_lines [] content)"
  shows "data_lines content = enumerate 1 (split_lines [] content)"
proof -
  have "\<forall>p \<in> set (enumerate 1 (split_lines [] content)). \<not> blank_line (snd p)"
    using assms by (auto simp: in_set_enumerate_eq list_ex_iff)
  then show ?thesis by (auto simp: data_lines_def case_prod_beta intro: filter_True)
qed

lemma join_split_lines_witness:
  "CR \<notin> set (''A'' @ LF # ''B'') \<and> join_lines (split_lines [] (''A'' @ LF # ''B'')) = ''A'' @ LF # ''B''"
proof -
  have h: "CR \<notin> set (''A'' @ LF # ''B'')"
    by (simp add: LF_def CR_def)
  show ?thesis
    using h join_split_lines [OF h] by simp
qed

subsection \<open>Windows line endings\<close>

text \<open>The same text with every line feed written as carriage return plus line feed.\<close>

definition dos_lines :: "string \<Rightarrow> string" where
  "dos_lines s = concat (map (\<lambda>c. if c = LF then [CR, LF] else [c]) s)"

lemma split_lines_dos:
  "CR \<notin> set s \<Longrightarrow> split_lines cur (dos_lines s) = split_lines cur s"
proof (induction s arbitrary: cur)
  case Nil
  then show ?case by (simp add: dos_lines_def)
next
  case (Cons c cs)
  have CR_LF: "CR \<noteq> LF" by (simp add: CR_def LF_def)
  have IH: "split_lines cur' (dos_lines cs) = split_lines cur' cs" for cur'
    using Cons by simp
  show ?case
  proof (cases "c = LF")
    case True
    then have "dos_lines (c # cs) = CR # LF # dos_lines cs"
      by (simp add: dos_lines_def)
    with True CR_LF show ?thesis
      by (simp add: drop_lf_def IH)
  next
    case False
    with Cons.prems have "dos_lines (c # cs) = c # dos_lines cs" and "c \<noteq> CR"
      by (auto simp: dos_lines_def)
    with False show ?thesis
      by (simp add: IH)
  qed
qed

text \<open>C25: a file saved with Windows line endings gives the same rows as the same file
  with Unix line endings.\<close>

theorem read_csv_crlf: "CR \<notin> set s \<Longrightarrow> read_csv (dos_lines s) = read_csv s"
  by (simp add: read_csv_def data_lines_def split_lines_dos)

lemma read_csv_crlf_witness:
  "CR \<notin> set (''CCO'' @ LF # ''XX'') \<and>
   read_csv (dos_lines (''CCO'' @ LF # ''XX'')) = read_csv (''CCO'' @ LF # ''XX'')"
proof -
  have h: "CR \<notin> set (''CCO'' @ LF # ''XX'')"
    by (simp add: CR_def LF_def)
  show ?thesis
    using h read_csv_crlf [OF h] by simp
qed

text \<open>When no line of the file is blank, the \<open>k\<close>-th row comes from line \<open>k + 1\<close>
  exactly, so the line number the upload page reports is the line of the file.\<close>

theorem row_file_line_exact:
  assumes "\<not> list_ex blank_line (split_lines [] content)" and "k < length (data_lines content)"
  shows "fst (data_lines content ! k) = Suc k"
  using assms by (simp add: data_lines_no_blank nth_enumerate_eq)

lemma row_file_line_exact_witness:
  "\<not> list_ex blank_line (split_lines [] (''A'' @ LF # ''B'')) \<and>
   1 < length (data_lines (''A'' @ LF # ''B'')) \<and> fst (data_lines (''A'' @ LF # ''B'') ! 1) = Suc 1"
proof -
  have h1: "\<not> list_ex blank_line (split_lines [] (''A'' @ LF # ''B''))"
    by (simp add: LF_def CR_def blank_line_def)
  have h2: "1 < length (data_lines (''A'' @ LF # ''B''))"
    by (simp add: data_lines_def LF_def CR_def blank_line_def enumerate_eq_zip)
  show ?thesis
    using h1 h2 row_file_line_exact [OF h1 h2] by simp
qed

end
