(* ===== verification/Ingest.thy ===== *)
theory Ingest
  imports Csv
begin

text \<open>
  The validation loop of the upload handler \<open>index\<close> (app.py lines 36 to 48). The
  DataFrame is a list of rows (its index is the \<open>RangeIndex\<close> that \<open>read_csv\<close> and
  \<open>concat\<close> give, so the label \<open>idx\<close> is the position). The frame starts with the
  \<open>SMILES\<close> column and two columns of zeros; the loop walks \<open>enumerate(df.SMILES)\<close> and,
  inside one \<open>try\<close>, parses the cell, writes \<open>clogP\<close> of row \<open>idx\<close>, then writes
  \<open>sascore\<close>. Any exception ends the loop with the line number \<open>idx + 1\<close> that the
  handler flashes; the frame, partly written or not, is then dropped.
  \<open>ingest_spec\<close> is the abstract contract (compute each row's descriptors, stop at the
  first row that fails) and \<open>ingest_refines_spec\<close> shows the loop implements it.
\<close>

record 'f row =
  SMILES :: cell
  clogP :: 'f
  sascore :: 'f

type_synonym 'f frame = "'f row list"

text \<open>\<open>pd.concat([df, pd.DataFrame(np.zeros((len(df), 2)), columns=["clogP", "sascore"])],
  axis=1)\<close>.\<close>

definition frame_init :: "cell list \<Rightarrow> 'f::zero frame" where
  "frame_init cs = map (\<lambda>c. \<lparr>SMILES = c, clogP = 0, sascore = 0\<rparr>) cs"

text \<open>\<open>df.loc[idx, ["clogP"]] = v\<close> and \<open>df.loc[idx, ["sascore"]] = v\<close>.\<close>

definition set_clogP :: "nat \<Rightarrow> 'f \<Rightarrow> 'f frame \<Rightarrow> 'f frame" where
  "set_clogP idx v df = df[idx := (df ! idx)\<lparr>clogP := v\<rparr>]"

definition set_sascore :: "nat \<Rightarrow> 'f \<Rightarrow> 'f frame \<Rightarrow> 'f frame" where
  "set_sascore idx v df = df[idx := (df ! idx)\<lparr>sascore := v\<rparr>]"

text \<open>The body of the \<open>try\<close>: an exception carries the frame as it was when it was
  raised.\<close>

definition try_row ::
  "('m, 'f) chem \<Rightarrow> nat \<Rightarrow> cell \<Rightarrow> 'f frame \<Rightarrow> (py_exc \<times> 'f frame) + 'f frame" where
  "try_row tk idx c df =
     (case mol_from_cell tk c of
        Inl e \<Rightarrow> Inl (e, df)
      | Inr mol \<Rightarrow>
          (case mol_logp_py tk mol of
             Inl e \<Rightarrow> Inl (e, df)
           | Inr lp \<Rightarrow>
               (let df1 = set_clogP idx lp df in
                case sa_score_py tk mol of
                  Inl e \<Rightarrow> Inl (e, df1)
                | Inr sa \<Rightarrow> Inr (set_sascore idx sa df1))))"

text \<open>\<open>for idx, SMILES in enumerate(df.SMILES): try ... except: flash(...); return\<close>:
  \<open>Inl n\<close> is the early return with line \<open>n\<close>, \<open>Inr df\<close> the completed frame.\<close>

fun ingest_loop :: "('m, 'f) chem \<Rightarrow> nat \<Rightarrow> cell list \<Rightarrow> 'f frame \<Rightarrow> nat + 'f frame" where
  "ingest_loop tk idx [] df = Inr df"
| "ingest_loop tk idx (c # cs) df =
     (case try_row tk idx c df of
        Inl _ \<Rightarrow> Inl (idx + 1)
      | Inr df' \<Rightarrow> ingest_loop tk (Suc idx) cs df')"

definition ingest :: "('m, 'f::zero) chem \<Rightarrow> cell list \<Rightarrow> nat + 'f frame" where
  "ingest tk cs = (let df = frame_init cs in ingest_loop tk 0 (map SMILES df) df)"

subsection \<open>The contract\<close>

definition computed_row :: "cell \<Rightarrow> 'f \<times> 'f \<Rightarrow> 'f row" where
  "computed_row c d = \<lparr>SMILES = c, clogP = fst d, sascore = snd d\<rparr>"

fun ingest_spec :: "('m, 'f) chem \<Rightarrow> nat \<Rightarrow> cell list \<Rightarrow> nat + 'f frame" where
  "ingest_spec tk i [] = Inr []"
| "ingest_spec tk i (c # cs) =
     (case descriptors tk c of
        Inl _ \<Rightarrow> Inl (Suc i)
      | Inr d \<Rightarrow> (case ingest_spec tk (Suc i) cs of Inl k \<Rightarrow> Inl k | Inr rs \<Rightarrow> Inr (computed_row c d # rs)))"

subsection \<open>One row\<close>

lemma set_clogP_at [simp]:
  "set_clogP (length pre) v (pre @ r # rest) = pre @ r\<lparr>clogP := v\<rparr> # rest"
  by (simp add: set_clogP_def)

lemma set_sascore_at [simp]:
  "set_sascore (length pre) v (pre @ r # rest) = pre @ r\<lparr>sascore := v\<rparr> # rest"
  by (simp add: set_sascore_def)

text \<open>The row the loop body completes is the row of the contract, and nothing else of
  the frame changes.\<close>

lemma try_row_fails:
  "descriptors tk c = Inl e \<Longrightarrow> \<exists>x. try_row tk idx c df = Inl x"
  by (auto simp: try_row_def descriptors_def Let_def split: sum.splits)

lemma try_row_at:
  "descriptors tk c = Inr d \<Longrightarrow>
     try_row tk (length pre) c (pre @ r # rest) = Inr (pre @ r\<lparr>clogP := fst d, sascore := snd d\<rparr> # rest)"
  by (auto simp: try_row_def descriptors_def Let_def split: sum.splits)

lemma computed_row_eq:
  "SMILES r = c \<Longrightarrow> r\<lparr>clogP := fst d, sascore := snd d\<rparr> = computed_row c d"
  by (simp add: computed_row_def)

subsection \<open>Refinement: the loop implements the contract\<close>

lemma ingest_loop_spec:
  "ingest_loop tk (length pre) (map SMILES rest) (pre @ rest) =
     (case ingest_spec tk (length pre) (map SMILES rest) of
        Inl k \<Rightarrow> Inl k
      | Inr rs \<Rightarrow> Inr (pre @ rs))"
proof (induction rest arbitrary: pre)
  case Nil
  then show ?case by simp
next
  case (Cons r rest)
  show ?case
  proof (cases "descriptors tk (SMILES r)")
    case (Inl e)
    then obtain x where "try_row tk (length pre) (SMILES r) (pre @ r # rest) = Inl x"
      using try_row_fails by blast
    with Inl show ?thesis by simp
  next
    case (Inr d)
    have IH: "ingest_loop tk (Suc (length pre)) (map SMILES rest)
                (pre @ computed_row (SMILES r) d # rest) =
              (case ingest_spec tk (Suc (length pre)) (map SMILES rest) of
                 Inl k \<Rightarrow> Inl k | Inr rs \<Rightarrow> Inr (pre @ computed_row (SMILES r) d # rs))"
      using Cons.IH [of "pre @ [computed_row (SMILES r) d]"] by (simp split: sum.split)
    from Inr show ?thesis
      by (simp add: try_row_at computed_row_eq IH split: sum.splits)
  qed
qed

lemma map_SMILES_frame_init [simp]: "map SMILES (frame_init cs) = cs"
  by (simp add: frame_init_def comp_def)

subsection \<open>The contract's outcomes\<close>

lemma ingest_spec_Inr_iff:
  "ingest_spec tk i cs = Inr df \<longleftrightarrow>
     list_all2 (\<lambda>c r. SMILES r = c \<and> descriptors tk c = Inr (clogP r, sascore r)) cs df"
proof (induction cs arbitrary: i df)
  case Nil
  then show ?case by auto
next
  case (Cons c cs)
  show ?case
    by (auto simp: list_all2_Cons1 computed_row_def Cons.IH [of "Suc i", symmetric]
             split: sum.splits)
qed

text \<open>Shifting "the first index where \<open>P\<close> fails" by one element that satisfies \<open>P\<close>.\<close>

lemma first_failure_Cons:
  assumes "P x"
  shows "(\<exists>j < length xs. Q (Suc j) \<and> \<not> P (xs ! j) \<and> (\<forall>l < j. P (xs ! l))) \<longleftrightarrow>
         (\<exists>j < length (x # xs). Q j \<and> \<not> P ((x # xs) ! j) \<and> (\<forall>l < j. P ((x # xs) ! l)))"
proof
  assume "\<exists>j < length xs. Q (Suc j) \<and> \<not> P (xs ! j) \<and> (\<forall>l < j. P (xs ! l))"
  then obtain j where "j < length xs" "Q (Suc j)" "\<not> P (xs ! j)" "\<forall>l < j. P (xs ! l)"
    by blast
  with assms show "\<exists>j < length (x # xs). Q j \<and> \<not> P ((x # xs) ! j) \<and> (\<forall>l < j. P ((x # xs) ! l))"
    by (intro exI [of _ "Suc j"]) (auto simp: less_Suc_eq_0_disj)
next
  assume "\<exists>j < length (x # xs). Q j \<and> \<not> P ((x # xs) ! j) \<and> (\<forall>l < j. P ((x # xs) ! l))"
  then obtain j where j: "j < length (x # xs)" "Q j" "\<not> P ((x # xs) ! j)" "\<forall>l < j. P ((x # xs) ! l)"
    by blast
  with assms obtain j' where j': "j = Suc j'"
    by (cases j) auto
  have "\<forall>l < j'. P (xs ! l)"
    using j(4) j' by (metis Suc_mono nth_Cons_Suc)
  with j j' show "\<exists>j < length xs. Q (Suc j) \<and> \<not> P (xs ! j) \<and> (\<forall>l < j. P (xs ! l))"
    by (intro exI [of _ j']) auto
qed

lemma ingest_spec_Inl_iff:
  "ingest_spec tk i cs = Inl k \<longleftrightarrow>
     (\<exists>j < length cs. k = i + Suc j \<and> \<not> row_ok tk (cs ! j) \<and> (\<forall>l < j. row_ok tk (cs ! l)))"
proof (induction cs arbitrary: i)
  case Nil
  then show ?case by simp
next
  case (Cons c cs)
  show ?case
  proof (cases "descriptors tk c")
    case (Inl e)
    then have "\<not> row_ok tk c" by (simp add: row_ok_def)
    with Inl show ?thesis by (force simp: nth_Cons')
  next
    case (Inr d)
    then have ok: "row_ok tk c" by (simp add: row_ok_def)
    have "ingest_spec tk i (c # cs) = Inl k \<longleftrightarrow> ingest_spec tk (Suc i) cs = Inl k"
      using Inr by (simp split: sum.splits)
    also have "\<dots> \<longleftrightarrow> (\<exists>j < length cs. k = Suc i + Suc j \<and> \<not> row_ok tk (cs ! j) \<and>
                                   (\<forall>l < j. row_ok tk (cs ! l)))"
      by (rule Cons.IH)
    also have "\<dots> \<longleftrightarrow> (\<exists>j < length (c # cs). k = i + Suc j \<and> \<not> row_ok tk ((c # cs) ! j) \<and>
                                   (\<forall>l < j. row_ok tk ((c # cs) ! l)))"
      using first_failure_Cons [where P = "row_ok tk" and Q = "\<lambda>j. k = i + Suc j", OF ok] by simp
    finally show ?thesis .
  qed
qed

lemma ingest_spec_total:
  "list_all (row_ok tk) cs \<Longrightarrow> \<exists>df. ingest_spec tk i cs = Inr df"
proof (induction cs arbitrary: i)
  case Nil
  then show ?case by simp
next
  case (Cons c cs)
  obtain d where d: "descriptors tk c = Inr d"
    using Cons.prems by (auto simp: row_ok_def split: sum.splits)
  obtain rs where "ingest_spec tk (Suc i) cs = Inr rs"
    using Cons by auto
  with d show ?case by simp
qed

lemma ingest_unfold: "ingest tk cs = ingest_spec tk 0 cs"
  using ingest_loop_spec [of tk "[]" "frame_init cs"]
  by (simp add: ingest_def split: sum.split)

subsection \<open>Properties of the upload loop\<close>

text \<open>C1: the loop of \<open>index\<close>, which fills a pre-allocated frame in place inside a
  \<open>try\<close>, computes exactly the contract: each row's descriptors in order, stopping
  at the first row that raises with its 1-based line number.\<close>

theorem ingest_refines_spec: "ingest tk cs = ingest_spec tk 0 cs"
  using ingest_loop_spec [of tk "[]" "frame_init cs"]
  by (simp add: ingest_def split: sum.split)

text \<open>C2: when every line is a valid identifier, the upload yields a table of the same
  length whose rows are the input lines in the same order.\<close>

theorem ingest_valid_table:
  assumes "list_all (row_ok tk) cs"
  shows "\<exists>df. ingest tk cs = Inr df \<and> map SMILES df = cs \<and>
              (\<forall>j < length cs. descriptors tk (cs ! j) = Inr (clogP (df ! j), sascore (df ! j)))"
proof -
  obtain df where df: "ingest_spec tk 0 cs = Inr df"
    using ingest_spec_total [OF assms] by blast
  then have rows: "list_all2 (\<lambda>c r. SMILES r = c \<and> descriptors tk c = Inr (clogP r, sascore r)) cs df"
    by (simp add: ingest_spec_Inr_iff)
  then have "map SMILES df = cs"
    by (induction rule: list_all2_induct) simp_all
  with rows df show ?thesis
    by (auto simp: ingest_unfold list_all2_conv_all_nth)
qed

lemma ingest_valid_table_witness:
  "list_all (row_ok example_chem) [Str ''CCO'', Str ''c1ccccc1'', Str ''C(=O)O''] \<and>
   (\<exists>df. ingest example_chem [Str ''CCO'', Str ''c1ccccc1'', Str ''C(=O)O''] = Inr df \<and>
         map SMILES df = [Str ''CCO'', Str ''c1ccccc1'', Str ''C(=O)O''] \<and>
         (\<forall>j < length [Str ''CCO'', Str ''c1ccccc1'', Str ''C(=O)O''].
            descriptors example_chem ([Str ''CCO'', Str ''c1ccccc1'', Str ''C(=O)O''] ! j) =
                    Inr (clogP (df ! j), sascore (df ! j))))"
proof -
  have ok: "list_all (row_ok example_chem) [Str ''CCO'', Str ''c1ccccc1'', Str ''C(=O)O'']"
    by (simp add: row_ok_def descriptors_def chem_call_defs example_chem_def)
  show ?thesis
    using ok ingest_valid_table [OF ok] by simp
qed

text \<open>C3: the upload is rejected with line \<open>k\<close> exactly when line \<open>k\<close> is the first line
  that fails to parse or whose descriptors raise; every earlier line is valid.\<close>

theorem ingest_Inl_iff:
  "ingest tk cs = Inl k \<longleftrightarrow>
     (\<exists>j < length cs. k = Suc j \<and> \<not> row_ok tk (cs ! j) \<and> (\<forall>l < j. row_ok tk (cs ! l)))"
  using ingest_spec_Inl_iff [of tk 0 cs k] by (simp add: ingest_unfold)

lemma ingest_Inl_iff_witness:
  "ingest example_chem [Str ''CCO'', NaN, Str ''XX''] = Inl 2 \<and>
   (\<exists>j < 3. 2 = Suc j \<and> \<not> row_ok example_chem ([Str ''CCO'', NaN, Str ''XX''] ! j) \<and>
       (\<forall>l < j. row_ok example_chem ([Str ''CCO'', NaN, Str ''XX''] ! l)))"
proof -
  have run: "ingest example_chem [Str ''CCO'', NaN, Str ''XX''] = Inl 2"
    by (simp add: ingest_def frame_init_def try_row_def chem_call_defs example_chem_def)
  show ?thesis
    using run ingest_Inl_iff [of example_chem "[Str ''CCO'', NaN, Str ''XX'']" 2] by simp
qed

text \<open>C4: an input with exactly one invalid line, at position \<open>j\<close> (0-based), is
  rejected with line \<open>j + 1\<close> and produces no table.\<close>

theorem ingest_one_bad_line:
  assumes "j < length cs" and "\<not> row_ok tk (cs ! j)"
    and "\<forall>l < length cs. l \<noteq> j \<longrightarrow> row_ok tk (cs ! l)"
  shows "ingest tk cs = Inl (Suc j)"
proof -
  have "\<forall>l < j. row_ok tk (cs ! l)"
    using assms(1,3) by simp
  with assms(1,2) show ?thesis
    by (auto simp: ingest_unfold ingest_spec_Inl_iff)
qed

lemma ingest_one_bad_line_witness:
  "ingest example_chem [Str ''CCO'', Str ''not_a_molecule'', Str ''C(=O)O''] = Inl 2"
proof -
  let ?cs = "[Str ''CCO'', Str ''not_a_molecule'', Str ''C(=O)O'']"
  have bad: "\<not> row_ok example_chem (?cs ! 1)"
    by (simp add: row_ok_def descriptors_def chem_call_defs example_chem_def)
  have others: "\<forall>l < length ?cs. l \<noteq> 1 \<longrightarrow> row_ok example_chem (?cs ! l)"
    by (auto simp: less_Suc_eq row_ok_def descriptors_def chem_call_defs example_chem_def)
  show ?thesis
    using ingest_one_bad_line [of 1 ?cs example_chem] bad others by simp
qed

end
