(* ===== verification/SessionJson.thy ===== *)
theory SessionJson
  imports Ingest
begin

text \<open>
  The table travels from the upload handler to the plot page through the session:
  \<open>session["data"] = df.to_json()\<close> (app.py line 49) and
  \<open>df = pd.read_json(session["data"])\<close> (line 55). This theory holds the JSON value
  of the document: \<open>to_json\<close> builds pandas' default orient \<open>"columns"\<close>, one object
  per column mapping the index label \<open>str(i)\<close> to the cell (a NaN cell becomes
  \<open>null\<close>, a float a number); \<open>read_json\<close> rebuilds the frame from such a value (rows
  in the order of the \<open>SMILES\<close> column's keys, every other column looked up by key; on
  other documents it returns an error where pandas would fill in NaN). The text of the
  document, with ujson's escaping and its ten-digit floats, is in \<open>JsonText\<close>.
\<close>

datatype 'f json =
    JNull
  | JBool bool
  | JStr string
  | JNum 'f
  | JArr "'f json list"
  | JObj "(string \<times> 'f json) list"

definition cell_json :: "cell \<Rightarrow> 'f json" where
  "cell_json c = (case c of Str s \<Rightarrow> JStr s | NaN \<Rightarrow> JNull)"

text \<open>One column: \<open>{"0": v0, "1": v1, ...}\<close>.\<close>

definition column_json :: "('f row \<Rightarrow> 'f json) \<Rightarrow> 'f frame \<Rightarrow> 'f json" where
  "column_json f df = JObj (zip (map nat_str [0..<length df]) (map f df))"

definition to_json :: "'f frame \<Rightarrow> 'f json" where
  "to_json df =
     JObj [(''SMILES'', column_json (\<lambda>r. cell_json (SMILES r)) df),
           (''clogP'', column_json (\<lambda>r. JNum (clogP r)) df),
           (''sascore'', column_json (\<lambda>r. JNum (sascore r)) df)]"

definition json_field :: "string \<Rightarrow> 'f json \<Rightarrow> 'f json py_result" where
  "json_field k j =
     (case j of
        JObj kvs \<Rightarrow> (case map_of kvs k of None \<Rightarrow> Inl KeyError | Some v \<Rightarrow> Inr v)
      | _ \<Rightarrow> Inl ValueError)"

definition json_keys :: "'f json \<Rightarrow> string list py_result" where
  "json_keys j = (case j of JObj kvs \<Rightarrow> Inr (map fst kvs) | _ \<Rightarrow> Inl ValueError)"

definition json_cell :: "'f json \<Rightarrow> cell py_result" where
  "json_cell j = (case j of JStr s \<Rightarrow> Inr (Str s) | JNull \<Rightarrow> Inr NaN | _ \<Rightarrow> Inl ValueError)"

definition json_float :: "'f json \<Rightarrow> 'f py_result" where
  "json_float j = (case j of JNum x \<Rightarrow> Inr x | _ \<Rightarrow> Inl ValueError)"

definition read_row :: "'f json \<Rightarrow> 'f json \<Rightarrow> 'f json \<Rightarrow> string \<Rightarrow> 'f row py_result" where
  "read_row cs cl ca k =
     sbind (sbind (json_field k cs) json_cell) (\<lambda>c.
     sbind (sbind (json_field k cl) json_float) (\<lambda>l.
     sbind (sbind (json_field k ca) json_float) (\<lambda>a.
     Inr \<lparr>SMILES = c, clogP = l, sascore = a\<rparr>)))"

definition read_json :: "'f json \<Rightarrow> 'f frame py_result" where
  "read_json j =
     sbind (json_field ''SMILES'' j) (\<lambda>cs.
     sbind (json_field ''clogP'' j) (\<lambda>cl.
     sbind (json_field ''sascore'' j) (\<lambda>ca.
     sbind (json_keys cs) (\<lambda>ks. py_map (read_row cs cl ca) ks))))"

text \<open>What a row looks like after the trip through the text of the document: its floats
  as written and read back (\<open>JsonText\<close>).\<close>

definition round_row :: "('f \<Rightarrow> 'f) \<Rightarrow> 'f row \<Rightarrow> 'f row" where
  "round_row dbl r = r\<lparr>clogP := dbl (clogP r), sascore := dbl (sascore r)\<rparr>"

subsection \<open>Round trip\<close>

lemma distinct_index_keys: "distinct (map nat_str [0..<n])"
  by (simp add: distinct_map inj_on_def)

lemma json_field_column:
  "k < length df \<Longrightarrow> json_field (nat_str k) (column_json f df) = Inr (f (df ! k))"
proof -
  assume k: "k < length df"
  have "map_of (zip (map nat_str [0..<length df]) (map f df)) (map nat_str [0..<length df] ! k) =
          Some (map f df ! k)"
    using k by (intro map_of_zip_nth) (simp_all add: distinct_index_keys)
  with k show ?thesis by (simp add: json_field_def column_json_def)
qed

lemma json_keys_column: "json_keys (column_json f df) = Inr (map nat_str [0..<length df])"
  by (simp add: json_keys_def column_json_def)

lemma py_map_map: "py_map f (map g xs) = py_map (f \<circ> g) xs"
  by (induction xs) simp_all

lemma read_row_at:
  "k < length df \<Longrightarrow>
     read_row (column_json (\<lambda>r. cell_json (SMILES r)) df) (column_json (\<lambda>r. JNum (clogP r)) df)
       (column_json (\<lambda>r. JNum (sascore r)) df) (nat_str k) = Inr (df ! k)"
  by (cases "SMILES (df ! k)")
     (simp_all add: read_row_def json_field_column json_cell_def json_float_def cell_json_def)

lemma read_json_to_json_eq: "read_json (to_json df) = Inr df"
proof -
  have "py_map (\<lambda>k. read_row (column_json (\<lambda>r. cell_json (SMILES r)) df)
                     (column_json (\<lambda>r. JNum (clogP r)) df)
                     (column_json (\<lambda>r. JNum (sascore r)) df) (nat_str k)) [0..<length df] =
        Inr (map (\<lambda>k. df ! k) [0..<length df])"
    by (rule py_map_Inr) (simp add: read_row_at)
  moreover have "map (\<lambda>k. df ! k) [0..<length df] = df"
    by (rule nth_equalityI) simp_all
  ultimately show ?thesis
    by (simp add: read_json_def to_json_def json_field_def json_keys_column py_map_map comp_def)
qed

text \<open>On the document level, \<open>read_json\<close> inverts \<open>to_json\<close>; the floats of the program
  go through their text in between (\<open>SessionText\<close>).\<close>

theorem read_json_to_json: "read_json (to_json df) = Inr df"
  by (rule read_json_to_json_eq)

end
