(* ===== verification/JsonText.thy ===== *)
theory JsonText
  imports SessionJson
begin

text \<open>
  The text of the session document. \<open>df.to_json()\<close> (app.py line 49) writes the JSON value
  with pandas' vendored ujson encoder and \<open>pd.read_json\<close> (line 55) reads it with the
  matching decoder (\<open>ujson_loads\<close>), before the frame is rebuilt (\<open>SessionJson\<close>).
  Modelled from the encoder: separators without spaces, string escaping as
  \<open>Buffer_EscapeStringValidated\<close> does it with \<open>ensure_ascii\<close> (quote, backslash and
  slash escaped, the five short control escapes, every other control character and every
  non-ASCII character as \<open>\u00XX\<close> with lower-case hex digits). From the decoder:
  \<open>decode_any\<close> and its callees \<open>decode_object\<close>, \<open>decode_array\<close>, \<open>decode_string\<close>,
  \<open>decode_numeric\<close> and the literals, whitespace skipping, the object depth limit
  \<open>JSON_MAX_OBJECT_DEPTH\<close>, dictionary insertion for repeated keys, and the
  "Trailing data" check; every decoder error is Python's \<open>ValueError\<close>.
  Floats stay abstract: \<open>fmt\<close> is the encoder's text for a double (ten decimals) and
  \<open>rd\<close> the decoder's reading of a number token. Characters are the model's 8-bit
  characters, so a \<open>\u\<close> escape above \<open>00FF\<close> is outside the model (an error here).
  The decoder's recursion carries fuel, and the fuel \<open>loads\<close> gives is always
  enough.
\<close>

subsection \<open>Writing\<close>

definition QUOTE :: char where "QUOTE = CHR 0x22"
definition BSLASH :: char where "BSLASH = CHR 0x5C"
definition SLASH :: char where "SLASH = CHR 0x2F"

definition hex_digits :: string where
  "hex_digits = ''0123456789abcdef''"

text \<open>One character of a string value, as \<open>Buffer_EscapeStringValidated\<close> writes it.\<close>

definition escape_char :: "char \<Rightarrow> string" where
  "escape_char c =
     (if c = QUOTE then [BSLASH, QUOTE]
      else if c = BSLASH then [BSLASH, BSLASH]
      else if c = SLASH then [BSLASH, SLASH]
      else if c = CHR 0x08 then [BSLASH, CHR ''b'']
      else if c = CHR 0x0C then [BSLASH, CHR ''f'']
      else if c = LF then [BSLASH, CHR ''n'']
      else if c = CR then [BSLASH, CHR ''r'']
      else if c = CHR 0x09 then [BSLASH, CHR ''t'']
      else if of_char c < (0x20::nat) \<or> (0x80::nat) \<le> of_char c then
        [BSLASH, CHR ''u'', CHR ''0'', CHR ''0'',
         hex_digits ! (of_char c div 16), hex_digits ! (of_char c mod 16)]
      else [c])"

definition json_string :: "string \<Rightarrow> string" where
  "json_string s = QUOTE # concat (map escape_char s) @ [QUOTE]"

text \<open>\<open>", ".join\<close> without the space: the encoder's item separator.\<close>

fun commas :: "string list \<Rightarrow> string" where
  "commas [] = []"
| "commas [x] = x"
| "commas (x # y # ys) = x @ CHR '','' # commas (y # ys)"

fun dumps :: "('f \<Rightarrow> string) \<Rightarrow> 'f json \<Rightarrow> string" where
  "dumps fmt JNull = ''null''"
| "dumps fmt (JBool b) = (if b then ''true'' else ''false'')"
| "dumps fmt (JStr s) = json_string s"
| "dumps fmt (JNum x) = fmt x"
| "dumps fmt (JArr vs) = CHR ''['' # commas (map (dumps fmt) vs) @ '']''"
| "dumps fmt (JObj kvs) =
     CHR ''{'' # commas (map (\<lambda>(k, v). json_string k @ CHR '':'' # dumps fmt v) kvs) @ ''}''"

subsection \<open>Reading\<close>

text \<open>\<open>SkipWhitespace\<close>: space, tab, carriage return and line feed.\<close>

definition json_ws :: "char \<Rightarrow> bool" where
  "json_ws c \<longleftrightarrow> c = CHR '' '' \<or> c = CHR 0x09 \<or> c = CR \<or> c = LF"

definition skip_ws :: "string \<Rightarrow> string" where
  "skip_ws s = dropWhile json_ws s"

text \<open>The short escapes \<open>decode_string\<close> accepts after a backslash.\<close>

definition unescape :: "char \<Rightarrow> char option" where
  "unescape e =
     map_of [(QUOTE, QUOTE), (BSLASH, BSLASH), (SLASH, SLASH), (CHR ''b'', CHR 0x08),
             (CHR ''f'', CHR 0x0C), (CHR ''n'', LF), (CHR ''r'', CR), (CHR ''t'', CHR 0x09)] e"

definition hex_val :: "char \<Rightarrow> nat option" where
  "hex_val c = map_of (zip ''0123456789abcdefABCDEF'' ([0..<16] @ [10..<16])) c"

fun hex_acc :: "nat \<Rightarrow> string \<Rightarrow> nat option" where
  "hex_acc acc [] = Some acc"
| "hex_acc acc (c # cs) = (case hex_val c of None \<Rightarrow> None | Some d \<Rightarrow> hex_acc (16 * acc + d) cs)"

definition str_cons :: "char \<Rightarrow> (string \<times> string) py_result \<Rightarrow> (string \<times> string) py_result" where
  "str_cons c r = (case r of Inl e \<Rightarrow> Inl e | Inr (s, rest) \<Rightarrow> Inr (c # s, rest))"

text \<open>\<open>decode_string\<close>, after the opening quote: the value and the text after the
  closing quote.\<close>

fun decode_string :: "string \<Rightarrow> (string \<times> string) py_result" where
  "decode_string [] = Inl ValueError"
| "decode_string (c # cs) =
     (if c = QUOTE then Inr ([], cs)
      else if c = BSLASH then
        (case cs of
           [] \<Rightarrow> Inl ValueError
         | e # r \<Rightarrow>
             if e = CHR ''u'' then
               (case (if 4 \<le> length r then hex_acc 0 (take 4 r) else None) of
                  None \<Rightarrow> Inl ValueError
                | Some v \<Rightarrow> if v < 256 then str_cons (char_of v) (decode_string (drop 4 r))
                          else Inl ValueError)
             else
               (case unescape e of
                  None \<Rightarrow> Inl ValueError
                | Some ch \<Rightarrow> str_cons ch (decode_string r)))
      else if c = CHR 0x00 then Inl ValueError
      else str_cons c (decode_string cs))"

text \<open>A decoder step: \<open>None\<close> when the fuel is spent, otherwise the exception or the value
  with the text after it.\<close>

type_synonym 'a parse_result = "('a \<times> string) py_result option"

abbreviation perr :: "'a parse_result" where
  "perr \<equiv> Some (Inl ValueError)"

definition pbind :: "'a parse_result \<Rightarrow> ('a \<Rightarrow> string \<Rightarrow> 'b parse_result) \<Rightarrow> 'b parse_result" where
  "pbind m f = (case m of None \<Rightarrow> None | Some (Inl e) \<Rightarrow> Some (Inl e) | Some (Inr (a, r)) \<Rightarrow> f a r)"

definition expect_char :: "char \<Rightarrow> string \<Rightarrow> unit parse_result" where
  "expect_char c s = (case skip_ws s of c' # r \<Rightarrow> if c' = c then Some (Inr ((), r)) else perr | [] \<Rightarrow> perr)"

definition decode_literal :: "string \<Rightarrow> 'f json \<Rightarrow> string \<Rightarrow> 'f json parse_result" where
  "decode_literal w v s = (if take (length w) s = w then Some (Inr (v, drop (length w) s)) else perr)"

definition num_char :: "char \<Rightarrow> bool" where
  "num_char c \<longleftrightarrow> c \<in> set ''0123456789+-.eE''"

definition decode_numeric :: "(string \<Rightarrow> 'f option) \<Rightarrow> string \<Rightarrow> 'f json parse_result" where
  "decode_numeric rd s =
     (case rd (takeWhile num_char s) of
        None \<Rightarrow> perr
      | Some x \<Rightarrow> Some (Inr (JNum x, dropWhile num_char s)))"

text \<open>\<open>PyDict_SetItem\<close> on the object being built: a repeated key keeps its place and
  takes the later value.\<close>

definition dict_set :: "('k \<times> 'v) list \<Rightarrow> 'k \<Rightarrow> 'v \<Rightarrow> ('k \<times> 'v) list" where
  "dict_set kvs k v =
     (if k \<in> set (map fst kvs) then map (\<lambda>(k', v'). if k' = k then (k', v) else (k', v')) kvs
      else kvs @ [(k, v)])"

definition MAX_DEPTH :: nat where
  "MAX_DEPTH = 1024"

fun decode_any ::
    "nat \<Rightarrow> (string \<Rightarrow> 'f option) \<Rightarrow> nat \<Rightarrow> string \<Rightarrow> 'f json parse_result"
and decode_object ::
    "nat \<Rightarrow> (string \<Rightarrow> 'f option) \<Rightarrow> nat \<Rightarrow> (string \<times> 'f json) list \<Rightarrow> string \<Rightarrow> 'f json parse_result"
and decode_array ::
    "nat \<Rightarrow> (string \<Rightarrow> 'f option) \<Rightarrow> nat \<Rightarrow> 'f json list \<Rightarrow> string \<Rightarrow> 'f json parse_result" where
  "decode_any 0 rd d s = None"
| "decode_any (Suc n) rd d s =
     (case skip_ws s of
        [] \<Rightarrow> perr
      | c # cs \<Rightarrow>
          if c = CHR ''{'' then (if MAX_DEPTH \<le> d then perr else decode_object n rd (Suc d) [] cs)
          else if c = CHR ''['' then (if MAX_DEPTH \<le> d then perr else decode_array n rd (Suc d) [] cs)
          else if c = QUOTE then Some (map_sum id (apfst JStr) (decode_string cs))
          else if c = CHR ''n'' then decode_literal ''null'' JNull (c # cs)
          else if c = CHR ''t'' then decode_literal ''true'' (JBool True) (c # cs)
          else if c = CHR ''f'' then decode_literal ''false'' (JBool False) (c # cs)
          else if c = CHR ''-'' \<or> c \<in> set decimal_digits then decode_numeric rd (c # cs)
          else perr)"
| "decode_object 0 rd d acc s = None"
| "decode_object (Suc n) rd d acc s =
     (case skip_ws s of
        [] \<Rightarrow> perr
      | c # cs \<Rightarrow>
          if c = CHR ''}'' \<and> acc = [] then Some (Inr (JObj [], cs))
          else if c \<noteq> QUOTE then perr
          else
            pbind (Some (decode_string cs)) (\<lambda>k r1.
            pbind (expect_char (CHR '':'') r1) (\<lambda>_ r2.
            pbind (decode_any n rd d r2) (\<lambda>v r3.
              (case skip_ws r3 of
                 [] \<Rightarrow> perr
               | c' # r4 \<Rightarrow>
                   if c' = CHR ''}'' then Some (Inr (JObj (dict_set acc k v), r4))
                   else if c' = CHR '','' then decode_object n rd d (dict_set acc k v) r4
                   else perr)))))"
| "decode_array 0 rd d acc s = None"
| "decode_array (Suc n) rd d acc s =
     (case skip_ws s of
        [] \<Rightarrow> perr
      | c # cs \<Rightarrow>
          if c = CHR '']'' \<and> acc = [] then Some (Inr (JArr [], cs))
          else
            pbind (decode_any n rd d (c # cs)) (\<lambda>v r3.
              (case skip_ws r3 of
                 [] \<Rightarrow> perr
               | c' # r4 \<Rightarrow>
                   if c' = CHR '']'' then Some (Inr (JArr (acc @ [v]), r4))
                   else if c' = CHR '','' then decode_array n rd d (acc @ [v]) r4
                   else perr)))"

text \<open>\<open>ujson_loads\<close>: one value, then only whitespace ("Trailing data" otherwise). The
  fuel, one more than twice the length of the text, is always enough
  (\<open>decode_any_enough_fuel\<close>).\<close>

definition loads :: "(string \<Rightarrow> 'f option) \<Rightarrow> string \<Rightarrow> 'f json py_result" where
  "loads rd s =
     (case decode_any (Suc (2 * length s)) rd 0 s of
        Some (Inr (v, r)) \<Rightarrow> if skip_ws r = [] then Inr v else Inl ValueError
      | Some (Inl e) \<Rightarrow> Inl e
      | None \<Rightarrow> Inl ValueError)"

subsection \<open>Strings\<close>

lemma str_cons_Inr [simp]: "str_cons c (Inr (s, r)) = Inr (c # s, r)"
  by (simp add: str_cons_def)

lemma str_cons_eq_Inr: "str_cons c x = Inr (t, r) \<longleftrightarrow> (\<exists>t'. x = Inr (t', r) \<and> t = c # t')"
  by (auto simp: str_cons_def split: sum.splits)

lemma pbind_eq_Some_Inr:
  "pbind m f = Some (Inr (b, r)) \<longleftrightarrow> (\<exists>a r'. m = Some (Inr (a, r')) \<and> f a r' = Some (Inr (b, r)))"
  by (auto simp: pbind_def split: option.splits sum.splits)

lemma hex_val_hex_digit: "i < 16 \<Longrightarrow> hex_val (hex_digits ! i) = Some i"
proof -
  assume i: "i < 16"
  have tbl: "''0123456789abcdefABCDEF'' = hex_digits @ ''ABCDEF''"
    by (simp add: hex_digits_def)
  have len: "length hex_digits = 16"
    by (simp add: hex_digits_def)
  have "map_of (zip ''0123456789abcdefABCDEF'' ([0..<16] @ [10..<16])) (''0123456789abcdefABCDEF'' ! i) =
          Some (([0..<16] @ [10..<16]) ! i)"
    using i by (intro map_of_zip_nth) simp_all
  then have "map_of (zip ''0123456789abcdefABCDEF'' ([0..<16] @ [10..<16])) (hex_digits ! i) = Some i"
    unfolding tbl using i len by (simp add: nth_append)
  then show ?thesis
    by (simp add: hex_val_def tbl)
qed

lemma hex_val_zero: "hex_val (CHR ''0'') = Some 0"
  using hex_val_hex_digit [of 0] by (simp add: hex_digits_def)

lemma decode_string_escape_char:
  "decode_string (escape_char c @ rest) = str_cons c (decode_string rest)"
proof -
  consider (q) "c = QUOTE" | (b) "c = BSLASH" | (sl) "c = SLASH" | (bs) "c = CHR 0x08"
    | (ff) "c = CHR 0x0C" | (lf) "c = LF" | (cr) "c = CR" | (tab) "c = CHR 0x09"
    | (u) "c \<notin> {QUOTE, BSLASH, SLASH, CHR 0x08, CHR 0x0C, LF, CR, CHR 0x09}"
          "of_char c < (0x20::nat) \<or> (0x80::nat) \<le> of_char c"
    | (plain) "c \<notin> {QUOTE, BSLASH, SLASH, CHR 0x08, CHR 0x0C, LF, CR, CHR 0x09}"
          "\<not> (of_char c < (0x20::nat) \<or> (0x80::nat) \<le> of_char c)"
    by blast
  then show ?thesis
  proof cases
    case u
    let ?h = "(of_char c :: nat) div 16" and ?l = "(of_char c :: nat) mod 16"
    have h: "?h < 16" and l: "?l < 16"
      using nat_of_char_less_256 [of c] by (simp_all add: div_less_iff_less_mult)
    have "hex_acc 0 [CHR ''0'', CHR ''0'', hex_digits ! ?h, hex_digits ! ?l] = Some (16 * ?h + ?l)"
      using hex_val_hex_digit [OF h] hex_val_hex_digit [OF l] by (simp add: hex_val_zero)
    moreover have "16 * ?h + ?l = of_char c" by simp
    ultimately show ?thesis
      using u by (simp add: escape_char_def BSLASH_def QUOTE_def)
  next
    case plain
    then have "c \<noteq> CHR 0x00" by auto
    with plain show ?thesis by (simp add: escape_char_def)
  qed (simp_all add: escape_char_def unescape_def QUOTE_def BSLASH_def SLASH_def LF_def CR_def)
qed

lemma decode_json_string:
  "decode_string (concat (map escape_char s) @ QUOTE # rest) = Inr (s, rest)"
  by (induction s) (simp_all add: decode_string_escape_char)



subsection \<open>Every decoder step consumes input\<close>

lemma length_skip_ws: "length (skip_ws s) \<le> length s"
  by (simp add: skip_ws_def length_dropWhile_le)

lemma decode_string_shorter: "decode_string s = Inr (t, r) \<Longrightarrow> length r < length s"
proof (induction s arbitrary: t rule: decode_string.induct)
  case 1
  then show ?case by simp
next
  case (2 c cs)
  then show ?case
    by (auto simp: str_cons_eq_Inr split: if_splits list.splits option.splits) fastforce+
qed

definition shorter :: "'a parse_result \<Rightarrow> string \<Rightarrow> bool" where
  "shorter res s \<longleftrightarrow> (\<forall>v r. res = Some (Inr (v, r)) \<longrightarrow> length r < length s)"

lemma shorter_perr [simp]: "shorter perr s" and shorter_None [simp]: "shorter None s"
  by (simp_all add: shorter_def)

lemma shorter_Some_Inr [simp]: "shorter (Some (Inr (v, r))) s \<longleftrightarrow> length r < length s"
  by (simp add: shorter_def)

lemma shorter_Cons: "shorter res cs \<Longrightarrow> shorter res (c # cs)"
  by (auto simp: shorter_def)

lemma shorter_mono: "shorter res t \<Longrightarrow> length t \<le> length s \<Longrightarrow> shorter res s"
  by (fastforce simp: shorter_def)

lemma shorter_pbind:
  "shorter m s \<Longrightarrow> (\<And>a r. shorter (f a r) r) \<Longrightarrow> shorter (pbind m f) s"
  by (fastforce simp: shorter_def pbind_eq_Some_Inr)

lemma shorter_decode_string: "shorter (Some (decode_string cs)) cs"
  by (auto simp: shorter_def dest: decode_string_shorter)

lemma shorter_decode_string_JStr: "shorter (Some (map_sum id (apfst JStr) (decode_string cs))) cs"
  by (auto simp: shorter_def map_sum_def dest: decode_string_shorter split: sum.splits)

lemma decode_literal_shorter: "w \<noteq> [] \<Longrightarrow> shorter (decode_literal w v s) s"
  by (cases w) (auto simp: shorter_def decode_literal_def dest!: arg_cong [where f = length])

lemma decode_numeric_shorter: "num_char c \<Longrightarrow> shorter (decode_numeric rd (c # cs)) (c # cs)"
  by (auto simp: shorter_def decode_numeric_def length_dropWhile_le le_imp_less_Suc split: option.splits)

lemma expect_char_shorter: "shorter (expect_char c s) s"
  using length_skip_ws [of s]
  by (auto simp: shorter_def expect_char_def split: list.splits if_splits)

text \<open>What follows a value inside an object or an array: the closing bracket, or a comma
  and the next item.\<close>

lemma shorter_after_value:
  assumes "\<And>r4. shorter (f r4) r4"
  shows "shorter (case skip_ws r3 of [] \<Rightarrow> perr
                  | c' # r4 \<Rightarrow> if c' = e then Some (Inr (x, r4))
                               else if c' = CHR '','' then f r4 else perr) r3"
proof (cases "skip_ws r3")
  case (Cons c' r4)
  then have "length r4 < length r3"
    using length_skip_ws [of r3] by simp
  with Cons assms show ?thesis
    by (auto simp: shorter_def) (metis less_trans)
qed simp

lemma decode_shorter:
  "shorter (decode_any n rd d s) s \<and> shorter (decode_object n rd d acc s) s \<and>
   shorter (decode_array n rd d vs s) s"
proof (induction n arbitrary: d s acc vs)
  case 0
  then show ?case by simp
next
  case (Suc n)
  have ws: "length (skip_ws s) \<le> length s" by (rule length_skip_ws)
  show ?case
  proof (cases "skip_ws s")
    case Nil
    then show ?thesis by simp
  next
    case (Cons c cs)
    have any: "shorter (decode_any (Suc n) rd d s) (c # cs)"
    proof -
      have "shorter (decode_object n rd (Suc d) [] cs) (c # cs)"
        and "shorter (decode_array n rd (Suc d) [] cs) (c # cs)"
        using Suc.IH by (blast intro: shorter_Cons)+
      moreover have "c = CHR ''-'' \<or> c \<in> set decimal_digits \<Longrightarrow>
                       shorter (decode_numeric rd (c # cs)) (c # cs)"
        by (rule decode_numeric_shorter) (auto simp: num_char_def decimal_digits_def)
      ultimately show ?thesis
        using Cons shorter_Cons [OF shorter_decode_string_JStr]
        by (auto simp: decode_literal_shorter QUOTE_def)
    qed
    have obj: "shorter (decode_object (Suc n) rd d acc s) (c # cs)"
    proof (cases "c = CHR ''}'' \<and> acc = [] \<or> c \<noteq> QUOTE")
      case True
      with Cons show ?thesis by auto
    next
      case False
      with Cons show ?thesis
        apply simp
        apply (rule shorter_Cons)
        apply (intro shorter_pbind shorter_decode_string expect_char_shorter shorter_after_value
                     Suc.IH [THEN conjunct1] Suc.IH [THEN conjunct2, THEN conjunct1])
        done
    qed
    have arr: "shorter (decode_array (Suc n) rd d vs s) (c # cs)"
    proof (cases "c = CHR '']'' \<and> vs = []")
      case True
      with Cons show ?thesis by simp
    next
      case False
      with Cons show ?thesis
        apply simp
        apply (intro shorter_pbind shorter_after_value Suc.IH [THEN conjunct1]
                     Suc.IH [THEN conjunct2, THEN conjunct2])
        done
    qed
    have "length (c # cs) \<le> length s"
      using ws Cons by simp
    with any obj arr show ?thesis
      by (blast intro: shorter_mono)
  qed
qed

lemma shorter_D: "shorter res s \<Longrightarrow> res = Some (Inr (v, r)) \<Longrightarrow> length r < length s"
  by (simp add: shorter_def)

lemma pbind_not_None:
  "m \<noteq> None \<Longrightarrow> (\<And>a r. m = Some (Inr (a, r)) \<Longrightarrow> f a r \<noteq> None) \<Longrightarrow> pbind m f \<noteq> None"
  by (auto simp: pbind_def split: option.splits sum.splits)

lemma after_value_not_None:
  assumes "\<And>r4. length r4 < length r3 \<Longrightarrow> f r4 \<noteq> None"
  shows "(case skip_ws r3 of [] \<Rightarrow> perr
          | c' # r4 \<Rightarrow> if c' = e then Some (Inr (x, r4))
                       else if c' = CHR '','' then f r4 else perr) \<noteq> None"
proof (cases "skip_ws r3")
  case (Cons c' r4)
  then have "length r4 < length r3"
    using length_skip_ws [of r3] by simp
  with Cons assms show ?thesis by simp
qed simp

lemma expect_char_not_None [simp]: "expect_char c s \<noteq> None"
  by (simp add: expect_char_def split: list.splits)

lemma decode_any_shorter:
  "decode_any n rd d s = Some (Inr (v, r)) \<Longrightarrow> length r < length s"
  using decode_shorter [THEN conjunct1] by (rule shorter_D)

lemma expect_char_shorter_D:
  "expect_char c s = Some (Inr (u, r)) \<Longrightarrow> length r < length s"
  using expect_char_shorter by (rule shorter_D)

lemma object_member_not_None:
  assumes any: "\<And>t. length t < length cs \<Longrightarrow> decode_any n rd d t \<noteq> None"
    and rest: "\<And>t acc'. Suc (length t) < length cs \<Longrightarrow> decode_object n rd d acc' t \<noteq> None"
  shows "pbind (Some (decode_string cs)) (\<lambda>k r1.
           pbind (expect_char (CHR '':'') r1) (\<lambda>_ r2.
           pbind (decode_any n rd d r2) (\<lambda>v r3.
             (case skip_ws r3 of
                [] \<Rightarrow> perr
              | c' # r4 \<Rightarrow>
                  if c' = CHR ''}'' then Some (Inr (JObj (dict_set acc k v), r4))
                  else if c' = CHR '','' then decode_object n rd d (dict_set acc k v) r4
                  else perr)))) \<noteq> None"
  apply (rule pbind_not_None)
   apply simp
  subgoal premises p1 for k r1
  proof -
    have r1: "length r1 < length cs"
      using p1 decode_string_shorter by simp
    show ?thesis
      apply (rule pbind_not_None)
       apply (rule expect_char_not_None)
      subgoal premises p2 for u r2
      proof -
        have r2: "length r2 < length cs"
          using p2 r1 expect_char_shorter_D by fastforce
        show ?thesis
          apply (rule pbind_not_None)
           apply (rule any [OF r2])
          subgoal premises p3 for v r3
          proof -
            have r3: "length r3 < length r2"
              using p3 decode_any_shorter by blast
            show ?thesis
              by (rule after_value_not_None) (use r2 r3 rest in auto)
          qed
          done
      qed
      done
  qed
  done

lemma array_item_not_None:
  assumes any: "decode_any n rd d (c # cs) \<noteq> None"
    and rest: "\<And>t vs'. length t < length cs \<Longrightarrow> decode_array n rd d vs' t \<noteq> None"
  shows "pbind (decode_any n rd d (c # cs)) (\<lambda>v r3.
           (case skip_ws r3 of
              [] \<Rightarrow> perr
            | c' # r4 \<Rightarrow>
                if c' = CHR '']'' then Some (Inr (JArr (vs @ [v]), r4))
                else if c' = CHR '','' then decode_array n rd d (vs @ [v]) r4
                else perr)) \<noteq> None"
  apply (rule pbind_not_None [OF any])
  subgoal premises p for v r3
  proof -
    have r3: "length r3 < Suc (length cs)"
      using p decode_any_shorter by fastforce
    show ?thesis
      by (rule after_value_not_None) (use r3 rest in auto)
  qed
  done

lemma decode_enough_fuel:
  "2 * length s < n \<Longrightarrow>
     decode_any n rd d s \<noteq> None \<and> decode_object (Suc n) rd d acc s \<noteq> None \<and>
     decode_array (Suc n) rd d vs s \<noteq> None"
proof (induction n arbitrary: d s acc vs rule: less_induct)
  case (less n)
  have any: "decode_any n rd d' t \<noteq> None" if t: "2 * length t < n" for t d'
  proof -
    obtain m where n: "n = Suc m"
      using t by (cases n) auto
    show ?thesis
    proof (cases "skip_ws t")
      case (Cons c cs)
      have "2 * Suc (length cs) < n"
        using t length_skip_ws [of t] Cons by simp
      then obtain k where m: "m = Suc k" and k: "2 * length cs < k"
        using n by (cases m) auto
      then have "decode_object (Suc k) rd (Suc d') [] cs \<noteq> None"
        and "decode_array (Suc k) rd (Suc d') [] cs \<noteq> None"
        using less.IH [of k] n by auto
      with Cons show ?thesis
        by (simp add: n m decode_literal_def decode_numeric_def split: option.splits)
    qed (simp add: n)
  qed
  have short: "2 * Suc (length cs) < n" if "skip_ws s = c # cs" for c cs
    using less.prems length_skip_ws [of s] that by simp
  have obj: "decode_object (Suc n) rd d acc s \<noteq> None"
  proof (cases "skip_ws s")
    case (Cons c cs)
    note cs = short [OF Cons]
    then obtain k where n: "n = Suc k" and k: "2 * length cs < k"
      by (cases n) auto
    have rest: "decode_object n rd d acc' t \<noteq> None" if "Suc (length t) < length cs" for t acc'
      using less.IH [of k] that n k by auto
    have "pbind (Some (decode_string cs)) (\<lambda>k r1.
           pbind (expect_char (CHR '':'') r1) (\<lambda>_ r2.
           pbind (decode_any n rd d r2) (\<lambda>v r3.
             (case skip_ws r3 of
                [] \<Rightarrow> perr
              | c' # r4 \<Rightarrow>
                  if c' = CHR ''}'' then Some (Inr (JObj (dict_set acc k v), r4))
                  else if c' = CHR '','' then decode_object n rd d (dict_set acc k v) r4
                  else perr)))) \<noteq> None"
      by (rule object_member_not_None) (use cs any rest in auto)
    with Cons show ?thesis by simp
  qed simp
  have arr: "decode_array (Suc n) rd d vs s \<noteq> None"
  proof (cases "skip_ws s")
    case (Cons c cs)
    note cs = short [OF Cons]
    then obtain k where n: "n = Suc k" and k: "2 * length cs < k"
      by (cases n) auto
    have "decode_any n rd d (c # cs) \<noteq> None"
      using cs by (intro any) simp
    moreover have "decode_array n rd d vs' t \<noteq> None" if "length t < length cs" for t vs'
      using less.IH [of k] that n k by auto
    ultimately have "pbind (decode_any n rd d (c # cs)) (\<lambda>v r3.
           (case skip_ws r3 of
              [] \<Rightarrow> perr
            | c' # r4 \<Rightarrow>
                if c' = CHR '']'' then Some (Inr (JArr (vs @ [v]), r4))
                else if c' = CHR '','' then decode_array n rd d (vs @ [v]) r4
                else perr)) \<noteq> None"
      by (rule array_item_not_None)
    with Cons show ?thesis by simp
  qed simp
  from any [OF less.prems] obj arr show ?case by blast
qed

subsection \<open>Reading back what the encoder writes\<close>

fun json_depth :: "'f json \<Rightarrow> nat" where
  "json_depth (JArr vs) = Suc (foldr max (map json_depth vs) 0)"
| "json_depth (JObj kvs) = Suc (foldr max (map (\<lambda>(k, v). json_depth v) kvs) 0)"
| "json_depth _ = 0"

fun json_wf :: "'f json \<Rightarrow> bool" where
  "json_wf (JArr vs) = list_all json_wf vs"
| "json_wf (JObj kvs) = (distinct (map fst kvs) \<and> list_all (\<lambda>(k, v). json_wf v) kvs)"
| "json_wf _ = True"

fun json_nums :: "'f json \<Rightarrow> 'f list" where
  "json_nums (JNum x) = [x]"
| "json_nums (JArr vs) = concat (map json_nums vs)"
| "json_nums (JObj kvs) = concat (map (\<lambda>(k, v). json_nums v) kvs)"
| "json_nums _ = []"

definition num_token :: "string \<Rightarrow> bool" where
  "num_token t \<longleftrightarrow> t \<noteq> [] \<and> (hd t = CHR ''-'' \<or> hd t \<in> set decimal_digits) \<and> list_all num_char t"

lemma foldr_max_ge: "x \<in> set xs \<Longrightarrow> x \<le> foldr max xs (0::nat)"
  by (induction xs) auto

definition nums_ok :: "('f \<Rightarrow> string) \<Rightarrow> (string \<Rightarrow> 'f option) \<Rightarrow> ('f \<Rightarrow> 'f) \<Rightarrow> 'f json \<Rightarrow> bool" where
  "nums_ok fmt rd g v \<longleftrightarrow> list_all (\<lambda>x. num_token (fmt x) \<and> rd (fmt x) = Some (g x)) (json_nums v)"

definition value_end :: "string \<Rightarrow> bool" where
  "value_end rest \<longleftrightarrow> (case rest of [] \<Rightarrow> True | c # _ \<Rightarrow> \<not> num_char c)"

lemma dict_set_fresh: "k \<notin> set (map fst kvs) \<Longrightarrow> dict_set kvs k v = kvs @ [(k, v)]"
  by (simp add: dict_set_def)

lemma skip_ws_Cons [simp]: "\<not> json_ws c \<Longrightarrow> skip_ws (c # cs) = c # cs"
  by (simp add: skip_ws_def)

lemma json_ws_simps [simp]:
  "\<not> json_ws CHR ''{''" "\<not> json_ws CHR ''}''" "\<not> json_ws CHR ''[''" "\<not> json_ws CHR '']''"
  "\<not> json_ws CHR '',''" "\<not> json_ws CHR '':''" "\<not> json_ws QUOTE" "\<not> json_ws CHR ''n''"
  "\<not> json_ws CHR ''t''" "\<not> json_ws CHR ''f''"
  by (simp_all add: json_ws_def QUOTE_def CR_def LF_def)

lemma num_token_start:
  assumes "num_token t"
  obtains c cs where "t = c # cs" "\<not> json_ws c" "c = CHR ''-'' \<or> c \<in> set decimal_digits"
    "c \<noteq> CHR ''{''" "c \<noteq> CHR ''[''" "c \<noteq> QUOTE" "c \<noteq> CHR ''n''" "c \<noteq> CHR ''t''"
    "c \<noteq> CHR ''f''" "c \<noteq> CHR '']''" "c \<noteq> CHR ''}''"
  using assms
  by (cases t) (auto simp: num_token_def json_ws_def decimal_digits_def QUOTE_def CR_def LF_def)

lemma decode_numeric_token:
  assumes "list_all num_char t" and "value_end rest"
  shows "decode_numeric rd (t @ rest) =
           (case rd t of None \<Rightarrow> perr | Some x \<Rightarrow> Some (Inr (JNum x, rest)))"
proof -
  have "takeWhile num_char (t @ rest) = t" and "dropWhile num_char (t @ rest) = rest"
    using assms by (auto simp: value_end_def list_all_iff takeWhile_append2 dropWhile_append2
                         split: list.splits)
  then show ?thesis by (simp only: decode_numeric_def)
qed

lemma nums_ok_simps [simp]:
  "nums_ok fmt rd g (JArr vs) \<longleftrightarrow> (\<forall>v \<in> set vs. nums_ok fmt rd g v)"
  "nums_ok fmt rd g (JObj kvs) \<longleftrightarrow> (\<forall>(k, v) \<in> set kvs. nums_ok fmt rd g v)"
  by (auto simp: nums_ok_def list_all_iff)

lemma json_depth_child:
  "(k, v) \<in> set kvs \<Longrightarrow> json_depth v < json_depth (JObj kvs)"
  "v \<in> set vs \<Longrightarrow> json_depth v < json_depth (JArr vs)"
proof -
  assume "(k, v) \<in> set kvs"
  then have "json_depth v \<in> set (map (\<lambda>(k, v). json_depth v) kvs)"
    by force
  then show "json_depth v < json_depth (JObj kvs)"
    by (simp add: foldr_max_ge le_imp_less_Suc)
next
  assume "v \<in> set vs"
  then show "json_depth v < json_depth (JArr vs)"
    by (simp add: foldr_max_ge le_imp_less_Suc)
qed

lemma QUOTE_neq [simp]: "QUOTE \<noteq> CHR '']''" "QUOTE \<noteq> CHR ''}''" "QUOTE \<noteq> CHR ''{''"
  "QUOTE \<noteq> CHR ''[''" "QUOTE \<noteq> CHR ''n''" "QUOTE \<noteq> CHR ''t''" "QUOTE \<noteq> CHR ''f''"
  by (simp_all add: QUOTE_def)

lemma dumps_start:
  assumes "nums_ok fmt rd g v"
  obtains c cs where "dumps fmt v = c # cs" "\<not> json_ws c" "c \<noteq> CHR '']''" "c \<noteq> CHR ''}''"
proof (cases v)
  case (JNum x)
  with assms have "num_token (fmt x)"
    by (simp add: nums_ok_def)
  then obtain c cs where "fmt x = c # cs" "\<not> json_ws c" "c \<noteq> CHR '']''" "c \<noteq> CHR ''}''"
    by (rule num_token_start)
  with JNum that show ?thesis
    by simp
next
  case (JStr s)
  with that show ?thesis
    by (simp add: json_string_def)
next
  case (JBool b)
  with that show ?thesis
    by (cases b) simp_all
qed (use that in simp_all)

lemma value_end_simps [simp]:
  "value_end []" "value_end (CHR '','' # r)" "value_end (CHR ''}'' # r)" "value_end (CHR '']'' # r)"
  by (simp_all add: value_end_def num_char_def)

abbreviation member_text :: "('f \<Rightarrow> string) \<Rightarrow> string \<times> 'f json \<Rightarrow> string" where
  "member_text fmt \<equiv> \<lambda>(k, v). json_string k @ CHR '':'' # dumps fmt v"

lemma commas_Cons_append:
  "commas (x # xs) @ ys = x @ (if xs = [] then ys else CHR '','' # commas xs @ ys)"
  by (cases xs) simp_all

lemma length_commas_Cons: "length x \<le> length (commas (x # xs))"
  by (cases xs) simp_all

lemma length_commas_Cons_ne:
  "xs \<noteq> [] \<Longrightarrow> length (commas (x # xs)) = length x + Suc (length (commas xs))"
  by (cases xs) simp_all

lemma decode_object_members:
  assumes IH: "\<And>k v n d rest. (k, v) \<in> set kvs \<Longrightarrow> json_wf v \<Longrightarrow> d + json_depth v \<le> MAX_DEPTH \<Longrightarrow>
                 nums_ok fmt rd g v \<Longrightarrow> 2 * length (dumps fmt v) < n \<Longrightarrow> value_end rest \<Longrightarrow>
                 decode_any n rd d (dumps fmt v @ rest) = Some (Inr (map_json g v, rest))"
    and "kvs \<noteq> []" and "distinct (map fst (acc @ kvs))"
    and "\<forall>(k, v) \<in> set kvs. json_wf v \<and> d + json_depth v \<le> MAX_DEPTH \<and> nums_ok fmt rd g v"
    and "2 * length (commas (map (member_text fmt) kvs)) < m"
  shows "decode_object (Suc m) rd d acc (commas (map (member_text fmt) kvs) @ CHR ''}'' # rest) =
           Some (Inr (JObj (acc @ map (\<lambda>(k, v). (k, map_json g v)) kvs), rest))"
  using assms
proof (induction kvs arbitrary: acc m)
  case Nil
  then show ?case by simp
next
  case (Cons kv kvs)
  obtain k v where kv: "kv = (k, v)" by fastforce
  let ?tail = "(if kvs = [] then [] else CHR '','' # commas (map (member_text fmt) kvs)) @ CHR ''}'' # rest"
  have enc: "commas (map (member_text fmt) (kv # kvs)) @ CHR ''}'' # rest =
                QUOTE # concat (map escape_char k) @ QUOTE # CHR '':'' # dumps fmt v @ ?tail"
    by (simp add: kv commas_Cons_append json_string_def)
  have len: "length (dumps fmt v) < length (commas (map (member_text fmt) (kv # kvs)))"
    using length_commas_Cons [of "member_text fmt kv" "map (member_text fmt) kvs"]
    by (simp add: kv json_string_def)
  have vk: "json_wf v" "d + json_depth v \<le> MAX_DEPTH" "nums_ok fmt rd g v"
    using Cons.prems(4) kv by auto
  have val: "decode_any m rd d (dumps fmt v @ ?tail) = Some (Inr (map_json g v, ?tail))"
    by (rule Cons.prems(1)) (use vk len Cons.prems(5) kv in auto)
  have fresh: "k \<notin> set (map fst acc)"
    using Cons.prems(3) kv by auto
  show ?case
  proof (cases "kvs = []")
    case True
    with val fresh show ?thesis
      unfolding enc by (simp add: kv decode_json_string expect_char_def pbind_def dict_set_fresh)
  next
    case False
    have "length (commas (map (member_text fmt) (kv # kvs))) =
            length (member_text fmt kv) + Suc (length (commas (map (member_text fmt) kvs)))"
      using False by (simp add: length_commas_Cons_ne)
    then obtain m' where m: "m = Suc m'" and m': "2 * length (commas (map (member_text fmt) kvs)) < m'"
      using Cons.prems(5) by (cases m) (auto simp: kv json_string_def)
    have rest: "decode_object m rd d (acc @ [(k, map_json g v)]) (commas (map (member_text fmt) kvs) @ CHR ''}'' # rest) =
                  Some (Inr (JObj ((acc @ [(k, map_json g v)]) @ map (\<lambda>(k, v). (k, map_json g v)) kvs), rest))"
      unfolding m
      by (rule Cons.IH) (use False Cons.prems kv m' in \<open>auto intro: Cons.prems(1)\<close>)
    from val fresh False rest show ?thesis
      unfolding enc by (simp add: kv m decode_json_string expect_char_def pbind_def dict_set_fresh)
  qed
qed

lemma decode_array_items:
  assumes IH: "\<And>v n d rest. v \<in> set vs \<Longrightarrow> json_wf v \<Longrightarrow> d + json_depth v \<le> MAX_DEPTH \<Longrightarrow>
                 nums_ok fmt rd g v \<Longrightarrow> 2 * length (dumps fmt v) < n \<Longrightarrow> value_end rest \<Longrightarrow>
                 decode_any n rd d (dumps fmt v @ rest) = Some (Inr (map_json g v, rest))"
    and "vs \<noteq> []"
    and "\<forall>v \<in> set vs. json_wf v \<and> d + json_depth v \<le> MAX_DEPTH \<and> nums_ok fmt rd g v"
    and "2 * length (commas (map (dumps fmt) vs)) < m"
  shows "decode_array (Suc m) rd d acc (commas (map (dumps fmt) vs) @ CHR '']'' # rest) =
           Some (Inr (JArr (acc @ map (map_json g) vs), rest))"
  using assms
proof (induction vs arbitrary: acc m)
  case Nil
  then show ?case by simp
next
  case (Cons v vs)
  let ?tail = "(if vs = [] then [] else CHR '','' # commas (map (dumps fmt) vs)) @ CHR '']'' # rest"
  have enc: "commas (map (dumps fmt) (v # vs)) @ CHR '']'' # rest = dumps fmt v @ ?tail"
    by (simp add: commas_Cons_append)
  have len: "length (dumps fmt v) \<le> length (commas (map (dumps fmt) (v # vs)))"
    using length_commas_Cons [of "dumps fmt v" "map (dumps fmt) vs"] by simp
  have vk: "json_wf v" "d + json_depth v \<le> MAX_DEPTH" "nums_ok fmt rd g v"
    using Cons.prems(3) by auto
  obtain c cs where start: "dumps fmt v = c # cs" "\<not> json_ws c" "c \<noteq> CHR '']''"
    using dumps_start [OF vk(3)] by metis
  have val: "decode_any m rd d (dumps fmt v @ ?tail) = Some (Inr (map_json g v, ?tail))"
    by (rule Cons.prems(1)) (use vk len Cons.prems(4) in auto)
  show ?case
  proof (cases "vs = []")
    case True
    with val start show ?thesis
      unfolding enc by (simp add: pbind_def)
  next
    case False
    then have "length (commas (map (dumps fmt) (v # vs))) =
                 length (dumps fmt v) + Suc (length (commas (map (dumps fmt) vs)))"
      by (simp add: length_commas_Cons_ne)
    then obtain m' where m: "m = Suc m'" and m': "2 * length (commas (map (dumps fmt) vs)) < m'"
      using Cons.prems(4) by (cases m) auto
    have rest: "decode_array m rd d (acc @ [map_json g v]) (commas (map (dumps fmt) vs) @ CHR '']'' # rest) =
                  Some (Inr (JArr ((acc @ [map_json g v]) @ map (map_json g) vs), rest))"
      unfolding m
      by (rule Cons.IH) (use False Cons.prems m' in \<open>auto intro: Cons.prems(1)\<close>)
    from val start False rest show ?thesis
      unfolding enc by (simp add: m pbind_def)
  qed
qed

lemma decode_any_dumps:
  "json_wf v \<Longrightarrow> d + json_depth v \<le> MAX_DEPTH \<Longrightarrow> nums_ok fmt rd g v \<Longrightarrow>
     2 * length (dumps fmt v) < n \<Longrightarrow> value_end rest \<Longrightarrow>
     decode_any n rd d (dumps fmt v @ rest) = Some (Inr (map_json g v, rest))"
proof (induction v arbitrary: n d rest)
  case JNull
  then obtain m where "n = Suc m" by (cases n) auto
  then show ?case by (simp add: decode_literal_def QUOTE_def)
next
  case (JBool b)
  then obtain m where "n = Suc m" by (cases n) auto
  then show ?case by (cases b) (simp_all add: decode_literal_def QUOTE_def)
next
  case (JStr s)
  then obtain m where "n = Suc m" by (cases n) auto
  then show ?case by (simp add: json_string_def decode_json_string)
next
  case (JNum x)
  then obtain m where n: "n = Suc m" by (cases n) auto
  from JNum.prems(3) have tok: "num_token (fmt x)" and rd: "rd (fmt x) = Some (g x)"
    by (simp_all add: nums_ok_def)
  from tok obtain c cs where c: "fmt x = c # cs" "\<not> json_ws c" "c = CHR ''-'' \<or> c \<in> set decimal_digits"
    "c \<noteq> CHR ''{''" "c \<noteq> CHR ''[''" "c \<noteq> QUOTE" "c \<noteq> CHR ''n''" "c \<noteq> CHR ''t''"
    "c \<noteq> CHR ''f''" "c \<noteq> CHR '']''" "c \<noteq> CHR ''}''"
    by (rule num_token_start)
  have "decode_numeric rd (fmt x @ rest) = Some (Inr (JNum (g x), rest))"
    using decode_numeric_token [of "fmt x" rest rd] tok JNum.prems(5) rd by (simp add: num_token_def)
  with c n show ?case
    by simp
next
  case (JArr vs)
  then obtain m where n: "n = Suc m" by (cases n) auto
  from JArr.prems(2) have d: "\<not> MAX_DEPTH \<le> d" by simp
  show ?case
  proof (cases "vs = []")
    case True
    from JArr.prems(4) True n d show ?thesis
      by (cases m) simp_all
  next
    case False
    from JArr.prems(4) n obtain m' where m: "m = Suc m'" and m': "2 * length (commas (map (dumps fmt) vs)) < m'"
      by (cases m) auto
    have "decode_array (Suc m') rd (Suc d) [] (commas (map (dumps fmt) vs) @ CHR '']'' # rest) =
            Some (Inr (JArr ([] @ map (map_json g) vs), rest))"
    proof (rule decode_array_items)
      show "\<forall>v \<in> set vs. json_wf v \<and> Suc d + json_depth v \<le> MAX_DEPTH \<and> nums_ok fmt rd g v"
        using JArr.prems(1-3) json_depth_child(2) by (fastforce simp: list_all_iff)
    qed (use JArr.IH False m' in auto)
    with n m d show ?thesis
      by simp
  qed
next
  case (JObj kvs)
  then obtain m where n: "n = Suc m" by (cases n) auto
  from JObj.prems(2) have d: "\<not> MAX_DEPTH \<le> d" by simp
  show ?case
  proof (cases "kvs = []")
    case True
    from JObj.prems(4) True n d show ?thesis
      by (cases m) simp_all
  next
    case False
    from JObj.prems(4) n obtain m' where m: "m = Suc m'" and m': "2 * length (commas (map (member_text fmt) kvs)) < m'"
      by (cases m) auto
    have "decode_object (Suc m') rd (Suc d) [] (commas (map (member_text fmt) kvs) @ CHR ''}'' # rest) =
            Some (Inr (JObj ([] @ map (\<lambda>(k, v). (k, map_json g v)) kvs), rest))"
    proof (rule decode_object_members)
      show "\<forall>(k, v) \<in> set kvs. json_wf v \<and> Suc d + json_depth v \<le> MAX_DEPTH \<and> nums_ok fmt rd g v"
        using JObj.prems(1-3) json_depth_child(1) by (fastforce simp: list_all_iff)
    qed (use JObj.IH JObj.prems(1) False m' in \<open>auto intro: JObj.IH\<close>)
    with n m d show ?thesis
      by (simp add: case_prod_unfold map_prod_def)
  qed
qed

subsection \<open>Numbers\<close>

text \<open>A float whose text reads back as \<open>g x\<close>.\<close>

definition float_ok :: "('f \<Rightarrow> string) \<Rightarrow> (string \<Rightarrow> 'f option) \<Rightarrow> ('f \<Rightarrow> 'f) \<Rightarrow> 'f \<Rightarrow> bool" where
  "float_ok fmt rd g x \<longleftrightarrow> num_token (fmt x) \<and> rd (fmt x) = Some (g x)"

lemma nums_ok_JNum [simp]: "nums_ok fmt rd g (JNum x) \<longleftrightarrow> float_ok fmt rd g x"
  by (simp add: nums_ok_def float_ok_def)

lemma loads_dumps_eq:
  assumes "json_wf v" and "json_depth v \<le> MAX_DEPTH" and "nums_ok fmt rd g v"
  shows "loads rd (dumps fmt v) = Inr (map_json g v)"
proof -
  have "decode_any (Suc (2 * length (dumps fmt v))) rd 0 (dumps fmt v @ []) = Some (Inr (map_json g v, []))"
    by (rule decode_any_dumps) (use assms in simp_all)
  then show ?thesis
    by (simp add: loads_def skip_ws_def)
qed

subsection \<open>What the decoder returns\<close>

lemma after_value_Inr:
  "(case skip_ws r3 of [] \<Rightarrow> perr
    | c' # r4 \<Rightarrow> if c' = e then Some (Inr (x, r4))
                 else if c' = CHR '','' then f r4 else perr) = Some (Inr (v, r)) \<Longrightarrow>
     v = x \<or> (\<exists>r4. f r4 = Some (Inr (v, r)))"
  by (auto split: list.splits if_splits)

lemma dict_set_keys: "map fst (dict_set kvs k v) = (if k \<in> set (map fst kvs) then map fst kvs else map fst kvs @ [k])"
  by (induction kvs) (auto simp: dict_set_def)

lemma dict_set_vals: "set (map snd (dict_set kvs k v)) \<subseteq> insert v (set (map snd kvs))"
  by (induction kvs) (auto simp: dict_set_def split: if_splits)

lemma dict_set_wf:
  assumes "distinct (map fst kvs)" and "list_all (\<lambda>(k, v). json_wf v) kvs" and "json_wf v"
  shows "distinct (map fst (dict_set kvs k v)) \<and> list_all (\<lambda>(k, v). json_wf v) (dict_set kvs k v)"
proof
  show "distinct (map fst (dict_set kvs k v))"
    using assms(1) by (simp add: dict_set_keys)
  have "\<forall>x \<in> set (map snd (dict_set kvs k v)). json_wf x"
    using dict_set_vals [of kvs k v] assms(2,3) by (fastforce simp: list_all_iff)
  then show "list_all (\<lambda>(k, v). json_wf v) (dict_set kvs k v)"
    by (auto simp: list_all_iff)
qed

lemma decode_wf:
  "(\<forall>d s v r. decode_any n rd d s = Some (Inr (v, r)) \<longrightarrow> json_wf v) \<and>
   (\<forall>d acc s v r. decode_object n rd d acc s = Some (Inr (v, r)) \<longrightarrow> distinct (map fst acc) \<longrightarrow>
      list_all (\<lambda>(k, v). json_wf v) acc \<longrightarrow> json_wf v) \<and>
   (\<forall>d vs s v r. decode_array n rd d vs s = Some (Inr (v, r)) \<longrightarrow> list_all json_wf vs \<longrightarrow> json_wf v)"
proof (induction n)
  case 0
  then show ?case by simp
next
  case (Suc n)
  note IH_any = Suc.IH [THEN conjunct1, rule_format]
  note IH_obj = Suc.IH [THEN conjunct2, THEN conjunct1, rule_format]
  note IH_arr = Suc.IH [THEN conjunct2, THEN conjunct2, rule_format]
  have any: "json_wf v" if eq: "decode_any (Suc n) rd d s = Some (Inr (v, r))" for d s v r
  proof (cases "skip_ws s")
    case (Cons c cs)
    have o: "decode_object n rd (Suc d) [] cs = Some (Inr (v, r)) \<Longrightarrow> json_wf v"
      and a: "decode_array n rd (Suc d) [] cs = Some (Inr (v, r)) \<Longrightarrow> json_wf v"
      using IH_obj [of "Suc d" "[]" cs v r] IH_arr [of "Suc d" "[]" cs v r] by simp_all
    have st: "Some (map_sum id (apfst JStr) x) = Some (Inr (v, r)) \<Longrightarrow> json_wf v" for x :: "(string \<times> string) py_result"
      by (cases x) auto
    have lit: "decode_literal w u t = Some (Inr (v, r)) \<Longrightarrow> json_wf u \<Longrightarrow> json_wf v" for w u t
      by (simp add: decode_literal_def split: if_splits)
    have num: "decode_numeric rd t = Some (Inr (v, r)) \<Longrightarrow> json_wf v" for t
      by (auto simp: decode_numeric_def split: option.splits)
    from eq Cons o a st lit num show ?thesis
      by (simp split: if_splits)
  qed (use eq in simp)
  have obj: "json_wf v"
    if eq: "decode_object (Suc n) rd d acc s = Some (Inr (v, r))"
      and acc: "distinct (map fst acc)" "list_all (\<lambda>(k, v). json_wf v) acc" for d acc s v r
  proof (cases "skip_ws s")
    case (Cons c cs)
    show ?thesis
    proof (cases "c = CHR ''}'' \<and> acc = [] \<or> c \<noteq> QUOTE")
      case True
      with eq Cons show ?thesis by (auto split: if_splits)
    next
      case False
      with eq Cons obtain k :: string and r2 v' r3 where
        v': "decode_any n rd d r2 = Some (Inr (v', r3))"
        and tl: "v = JObj (dict_set acc k v') \<or>
                 (\<exists>r4. decode_object n rd d (dict_set acc k v') r4 = Some (Inr (v, r)))"
        by (auto simp: pbind_eq_Some_Inr dest!: after_value_Inr) blast+
      have "json_wf v'" using v' by (rule IH_any)
      then have d: "distinct (map fst (dict_set acc k v'))" "list_all (\<lambda>(k, v). json_wf v) (dict_set acc k v')"
        using dict_set_wf [OF acc(1) acc(2)] by simp_all
      from tl show ?thesis
      proof
        assume "\<exists>r4. decode_object n rd d (dict_set acc k v') r4 = Some (Inr (v, r))"
        then obtain r4 where "decode_object n rd d (dict_set acc k v') r4 = Some (Inr (v, r))" ..
        from IH_obj [OF this d] show ?thesis .
      qed (use d in simp)
    qed
  qed (use eq in simp)
  have arr: "json_wf v"
    if eq: "decode_array (Suc n) rd d vs s = Some (Inr (v, r))" and vs: "list_all json_wf vs" for d vs s v r
  proof (cases "skip_ws s")
    case (Cons c cs)
    show ?thesis
    proof (cases "c = CHR '']'' \<and> vs = []")
      case True
      with eq Cons show ?thesis by auto
    next
      case False
      with eq Cons obtain v' r3 where
        v': "decode_any n rd d (c # cs) = Some (Inr (v', r3))"
        and tl: "v = JArr (vs @ [v']) \<or> (\<exists>r4. decode_array n rd d (vs @ [v']) r4 = Some (Inr (v, r)))"
        by (auto simp: pbind_eq_Some_Inr dest!: after_value_Inr)
      have "json_wf v'" using v' by (rule IH_any)
      with vs have d: "list_all json_wf (vs @ [v'])" by simp
      from tl show ?thesis
      proof
        assume "\<exists>r4. decode_array n rd d (vs @ [v']) r4 = Some (Inr (v, r))"
        then obtain r4 where "decode_array n rd d (vs @ [v']) r4 = Some (Inr (v, r))" ..
        from IH_arr [OF this d] show ?thesis .
      qed (use d in simp)
    qed
  qed (use eq in simp)
  from any obj arr show ?case by blast
qed

subsection \<open>Printable output\<close>

definition printable :: "char \<Rightarrow> bool" where
  "printable c \<longleftrightarrow> (0x20::nat) \<le> of_char c \<and> of_char c < (0x80::nat)"

lemma printable_hex_digit: "i < 16 \<Longrightarrow> printable (hex_digits ! i)"
proof -
  assume "i < 16"
  moreover have "list_all printable hex_digits"
    by (simp add: hex_digits_def printable_def)
  ultimately show ?thesis
    by (simp add: list_all_length hex_digits_def)
qed

lemma escape_char_printable: "list_all printable (escape_char c)"
proof -
  have h: "(of_char c :: nat) div 16 < 16" and l: "(of_char c :: nat) mod 16 < 16"
    using nat_of_char_less_256 [of c] by (simp_all add: div_less_iff_less_mult)
  show ?thesis
    using printable_hex_digit [OF h] printable_hex_digit [OF l]
    by (simp add: escape_char_def printable_def QUOTE_def BSLASH_def SLASH_def LF_def CR_def)
qed

subsection \<open>Nesting\<close>

fun nested_arrays :: "nat \<Rightarrow> 'f json" where
  "nested_arrays 0 = JArr []"
| "nested_arrays (Suc k) = JArr [nested_arrays k]"

lemma dumps_nested_arrays:
  "dumps fmt (nested_arrays k) = replicate (Suc k) (CHR ''['') @ replicate (Suc k) (CHR '']'')"
  by (induction k) (simp_all add: replicate_append_same)

lemma nested_arrays_props:
  "json_wf (nested_arrays k)" "json_depth (nested_arrays k) = Suc k" "nums_ok fmt rd g (nested_arrays k)"
  "map_json g (nested_arrays k) = nested_arrays k"
  by (induction k) (simp_all add: nums_ok_def)

lemma decode_too_deep:
  "MAX_DEPTH < d + Suc k \<Longrightarrow>
     decode_any n rd d (replicate (Suc k) (CHR ''['') @ s) \<in> {None, perr}"
proof (induction k arbitrary: n d)
  case 0
  then show ?case by (cases n) simp_all
next
  case (Suc k)
  show ?case
  proof (cases n)
    case (Suc n')
    show ?thesis
    proof (cases "MAX_DEPTH \<le> d")
      case False
      with Suc.prems have IH: "decode_any n'' rd (Suc d) (replicate (Suc k) (CHR ''['') @ s) \<in> {None, perr}" for n''
        by (intro Suc.IH) simp
      show ?thesis
      proof (cases n')
        case (Suc n'')
        from IH [of n''] False show ?thesis
          by (auto simp: \<open>n = Suc n'\<close> Suc pbind_def)
      qed (simp add: \<open>n = Suc n'\<close>)
    qed (simp add: Suc)
  qed simp
qed

subsection \<open>A float text for the witnesses\<close>

text \<open>Integers written in decimal: a concrete \<open>fmt\<close> and \<open>rd\<close>.\<close>

definition int_fmt :: "int \<Rightarrow> string" where
  "int_fmt i = (if i < 0 then CHR ''-'' # nat_str (nat (- i)) else nat_str (nat i))"

definition int_rd :: "string \<Rightarrow> int option" where
  "int_rd s =
     (case s of
        [] \<Rightarrow> None
      | c # r \<Rightarrow> if c = CHR ''-'' then map_option (\<lambda>n. - int n) (str_nat r) else map_option int (str_nat s))"

lemma set_nat_str: "set (nat_str n) \<subseteq> set decimal_digits"
proof (induction n rule: nat_str.induct)
  case (1 n)
  have "d < 10 \<Longrightarrow> digit_char d \<in> set decimal_digits" for d
    unfolding digit_char_def by (rule nth_mem) (simp add: decimal_digits_def)
  with 1 show ?case
    by (subst nat_str.simps) auto
qed

lemma decimal_digits_facts: "CHR ''-'' \<notin> set decimal_digits" "list_all num_char decimal_digits"
  by (simp_all add: decimal_digits_def num_char_def)

lemma int_float_ok: "float_ok int_fmt int_rd id i"
proof -
  obtain c cs where ns: "nat_str (nat \<bar>i\<bar>) = c # cs"
    by (cases "nat_str (nat \<bar>i\<bar>)") simp_all
  have digits: "set (nat_str (nat \<bar>i\<bar>)) \<subseteq> set decimal_digits"
    by (rule set_nat_str)
  then have c: "c \<in> set decimal_digits" and c': "c \<noteq> CHR ''-''"
    using ns decimal_digits_facts(1) by auto
  have nc: "list_all num_char (nat_str (nat \<bar>i\<bar>))"
    using digits decimal_digits_facts(2) by (auto simp: list_all_iff)
  show ?thesis
  proof (cases "i < 0")
    case True
    then have "nat \<bar>i\<bar> = nat (- i)" by simp
    with nc have "list_all num_char (nat_str (nat (- i)))" by simp
    with True show ?thesis
      by (simp add: float_ok_def num_token_def int_fmt_def int_rd_def num_char_def)
  next
    case False
    then have eq: "nat \<bar>i\<bar> = nat i" by simp
    have "str_nat (nat_str (nat i)) = Some (nat i)" by simp
    with False eq nc ns c c' show ?thesis
      by (simp add: float_ok_def num_token_def int_fmt_def int_rd_def del: str_nat_nat_str)
  qed
qed


subsection \<open>Properties of the encoder and decoder\<close>

text \<open>C27: the decoder reads back what the encoder writes: for a document whose objects
  have distinct keys, which nests at most \<open>JSON_MAX_OBJECT_DEPTH\<close> deep, and whose
  numbers are written as number tokens that read back as \<open>g x\<close>, \<open>loads\<close> of
  \<open>dumps\<close> is the document with every number replaced by \<open>g x\<close>; strings, including
  quotes, backslashes, slashes and control characters, come back unchanged.\<close>

theorem loads_dumps:
  assumes "json_wf v" and "json_depth v \<le> MAX_DEPTH" and "nums_ok fmt rd g v"
  shows "loads rd (dumps fmt v) = Inr (map_json g v)"
  using assms by (rule loads_dumps_eq)

lemma loads_dumps_witness:
  "json_wf (JObj [(''a/b'', JArr [JNum 12, JNull, JBool True]), (''s'', JStr [QUOTE, BSLASH, LF])]) \<and>
   json_depth (JObj [(''a/b'', JArr [JNum 12, JNull, JBool True]), (''s'', JStr [QUOTE, BSLASH, LF])])
     \<le> MAX_DEPTH \<and>
   nums_ok int_fmt int_rd id
     (JObj [(''a/b'', JArr [JNum 12, JNull, JBool True]), (''s'', JStr [QUOTE, BSLASH, LF])]) \<and>
   loads int_rd (dumps int_fmt
     (JObj [(''a/b'', JArr [JNum 12, JNull, JBool True]), (''s'', JStr [QUOTE, BSLASH, LF])])) =
   Inr (JObj [(''a/b'', JArr [JNum 12, JNull, JBool True]), (''s'', JStr [QUOTE, BSLASH, LF])])"
proof -
  let ?v = "JObj [(''a/b'', JArr [JNum (12::int), JNull, JBool True]), (''s'', JStr [QUOTE, BSLASH, LF])]"
  have h: "json_wf ?v" "json_depth ?v \<le> MAX_DEPTH" "nums_ok int_fmt int_rd id ?v"
    using int_float_ok [of 12] by (simp_all add: MAX_DEPTH_def nums_ok_def float_ok_def)
  show ?thesis
    using h loads_dumps [OF h] by (simp add: json.map_id)
qed

text \<open>C28: the decoder never runs out of fuel: with the fuel \<open>loads\<close> gives it (one more
  than twice the length of the text), \<open>decode_any\<close> returns a value or an exception on
  every text, so \<open>loads\<close> terminates with the decoder's own answer.\<close>

theorem decode_any_enough_fuel: "decode_any (Suc (2 * length s)) rd d s \<noteq> None"
proof -
  have "2 * length s < Suc (2 * length s)" by simp
  from decode_enough_fuel [OF this] show ?thesis by (rule conjunct1)
qed

text \<open>C30: the text the encoder writes for a string is 7-bit ASCII without control
  characters: every character lies between space (0x20) and DEL (0x7F). Quotes,
  backslashes, slashes, control characters and everything above 0x7F are escaped; DEL
  itself is written as it is, as ujson does.\<close>

theorem json_string_printable: "list_all printable (json_string s)"
proof -
  have "list_all printable (concat (map escape_char s))"
    by (induction s) (simp_all add: escape_char_printable)
  moreover have "printable QUOTE"
    by (simp add: printable_def QUOTE_def)
  ultimately show ?thesis
    by (simp add: json_string_def)
qed

text \<open>What the decoder returns is a well-formed document: every object it builds has
  distinct keys. The example below shows a repeated key keeping its first place and its
  last value, as in a Python dict.\<close>

theorem loads_wf: "loads rd s = Inr v \<Longrightarrow> json_wf v"
proof -
  assume "loads rd s = Inr v"
  then obtain r where "decode_any (Suc (2 * length s)) rd 0 s = Some (Inr (v, r))"
    by (auto simp: loads_def simp del: decode_any.simps split: option.splits sum.splits if_splits)
  then show ?thesis
    using decode_wf [THEN conjunct1] by blast
qed

lemma loads_wf_witness:
  "loads int_rd (CHR ''{'' # QUOTE # ''a'' @ QUOTE # '':1,'' @ QUOTE # ''a'' @ QUOTE # '':2}'') =
     Inr (JObj [(''a'', JNum 2)]) \<and> json_wf (JObj [(''a'', JNum (2::int))])"
proof -
  have h: "loads int_rd (CHR ''{'' # QUOTE # ''a'' @ QUOTE # '':1,'' @ QUOTE # ''a'' @ QUOTE # '':2}'') =
             Inr (JObj [(''a'', JNum 2)])"
    by (simp add: loads_def skip_ws_def json_ws_def QUOTE_def BSLASH_def LF_def CR_def MAX_DEPTH_def
                  decode_numeric_def num_char_def int_rd_def str_nat_def char_digit_def
                  decimal_digits_def pbind_def expect_char_def dict_set_def str_cons_def numeral_eq_Suc)
  show ?thesis
    using h loads_wf [OF h] by simp
qed

text \<open>C32: the decoder's depth limit: \<open>k + 1\<close> nested arrays are read back exactly
  when \<open>k + 1\<close> is at most \<open>JSON_MAX_OBJECT_DEPTH\<close> (1024); one level deeper and
  \<open>pd.read_json\<close> raises \<open>ValueError\<close>.\<close>

theorem loads_nesting_limit:
  "loads rd (replicate (Suc k) (CHR ''['') @ replicate (Suc k) (CHR '']'')) =
     (if Suc k \<le> MAX_DEPTH then Inr (nested_arrays k) else Inl ValueError)"
proof (cases "Suc k \<le> MAX_DEPTH")
  case True
  then show ?thesis
    using loads_dumps_eq [where v = "nested_arrays k" and g = id and fmt = fmt and rd = rd]
    by (simp add: dumps_nested_arrays nested_arrays_props)
next
  case False
  let ?s = "replicate (Suc k) (CHR ''['') @ replicate (Suc k) (CHR '']'')"
  have "decode_any (Suc (2 * length ?s)) rd 0 ?s \<in> {None, perr}"
    using False by (intro decode_too_deep) simp
  moreover have "decode_any (Suc (2 * length ?s)) rd 0 ?s \<noteq> None"
  proof -
    have "2 * length ?s < Suc (2 * length ?s)" by (simp only: lessI)
    from decode_enough_fuel [OF this] show ?thesis by (rule conjunct1)
  qed
  ultimately show ?thesis
    using False by (auto simp: loads_def simp del: decode_any.simps)
qed

end
