(* ===== verification/SessionText.thy ===== *)
theory SessionText
  imports JsonText
begin

text \<open>
  The session document as the program handles it: \<open>session["data"] = df.to_json()\<close>
  (app.py line 49) is the text \<open>to_json_text\<close>, and \<open>pd.read_json(session["data"])\<close>
  (line 55) is \<open>read_json_text\<close>: the decoder followed by the rebuilding of the frame.
  The float text of the encoder and decoder is an interface (\<open>float_text\<close>); what the
  model assumes of it is \<open>text_ok\<close>: every double is written as a number token that
  reads back as a double. The round trip of a whole table through the session is here.
\<close>

subsection \<open>The session document as text\<close>

text \<open>\<open>df.to_json()\<close> and \<open>pd.read_json(s)\<close> on the text.\<close>

definition to_json_text :: "('f \<Rightarrow> string) \<Rightarrow> 'f frame \<Rightarrow> string" where
  "to_json_text fmt df = dumps fmt (to_json df)"

definition read_json_text :: "(string \<Rightarrow> 'f option) \<Rightarrow> string \<Rightarrow> 'f frame py_result" where
  "read_json_text rd s = sbind (loads rd s) read_json"

definition frame_floats_ok :: "('f \<Rightarrow> string) \<Rightarrow> (string \<Rightarrow> 'f option) \<Rightarrow> ('f \<Rightarrow> 'f) \<Rightarrow> 'f frame \<Rightarrow> bool" where
  "frame_floats_ok fmt rd g df \<longleftrightarrow> list_all (\<lambda>r. float_ok fmt rd g (clogP r) \<and> float_ok fmt rd g (sascore r)) df"

lemma foldr_max_zero: "(\<forall>x \<in> set xs. x = 0) \<Longrightarrow> foldr max xs (0::nat) = 0"
  by (induction xs) simp_all

lemma ball_zip_snd:
  "length ks = length vs \<Longrightarrow> (\<forall>(k, v) \<in> set (zip ks vs). P v) \<longleftrightarrow> (\<forall>v \<in> set vs. P v)"
  by (induction ks vs rule: list_induct2) auto

lemma column_json_props:
  assumes "\<forall>r \<in> set df. json_depth (f r) = 0 \<and> json_wf (f r)"
  shows "json_wf (column_json f df)" and "json_depth (column_json f df) = 1"
proof -
  have keys: "distinct (map fst (zip (map nat_str [0..<length df]) (map f df)))"
    by (simp add: distinct_index_keys)
  have vals: "\<forall>(k, v) \<in> set (zip (map nat_str [0..<length df]) (map f df)). json_depth v = 0 \<and> json_wf v"
    using assms by (subst ball_zip_snd) simp_all
  from keys vals show "json_wf (column_json f df)"
    by (auto simp: column_json_def list_all_iff)
  have "\<forall>x \<in> set (map (\<lambda>(k, v). json_depth v) (zip (map nat_str [0..<length df]) (map f df))). x = 0"
    using vals by auto
  then show "json_depth (column_json f df) = 1"
    by (simp add: column_json_def foldr_max_zero)
qed

lemma map_prod_zip: "map (map_prod id h) (zip xs ys) = zip xs (map h ys)"
proof (induction xs arbitrary: ys)
  case (Cons x xs)
  then show ?case by (cases ys) simp_all
qed simp

lemma map_json_column:
  "map_json g (column_json f df) = column_json (map_json g \<circ> f) df"
  by (simp add: column_json_def map_prod_zip)

lemma nums_ok_column:
  "nums_ok fmt rd g (column_json f df) \<longleftrightarrow> (\<forall>r \<in> set df. nums_ok fmt rd g (f r))"
  by (simp add: column_json_def ball_zip_snd)

lemma cell_json_props [simp]:
  "json_wf (cell_json c)" "json_depth (cell_json c) = 0" "json_nums (cell_json c) = []"
  "map_json g (cell_json c) = cell_json c" "nums_ok fmt rd g (cell_json c)"
  by (cases c; simp add: cell_json_def nums_ok_def)+

lemma to_json_shape: "json_wf (to_json df) \<and> json_depth (to_json df) \<le> MAX_DEPTH"
  by (simp add: to_json_def column_json_props MAX_DEPTH_def)

lemma nums_ok_to_json: "nums_ok fmt rd g (to_json df) \<longleftrightarrow> frame_floats_ok fmt rd g df"
  by (auto simp: to_json_def nums_ok_column frame_floats_ok_def list_all_iff)

lemma column_json_map: "column_json f (map h df) = column_json (f \<circ> h) df"
  by (simp add: column_json_def)

lemma map_json_to_json: "map_json g (to_json df) = to_json (map (round_row g) df)"
  by (simp add: to_json_def map_json_column column_json_map comp_def round_row_def)

lemma read_json_text_eq:
  "frame_floats_ok fmt rd g df \<Longrightarrow> read_json_text rd (to_json_text fmt df) = Inr (map (round_row g) df)"
  using to_json_shape [of df] loads_dumps_eq [of "to_json df" fmt rd g]
  by (simp add: read_json_text_def to_json_text_def nums_ok_to_json map_json_to_json
                read_json_to_json_eq)

subsection \<open>The float text of the encoder and decoder\<close>

text \<open>The encoder's text for a double and the decoder's reading of a number token, as
  one interface. \<open>text_ok\<close> is what the model assumes of them: every double is written
  as a number token that reads back as some double, \<open>read_back\<close>.\<close>

record 'f float_text =
  dtoa :: "'f \<Rightarrow> string"
  strtod :: "string \<Rightarrow> 'f option"

definition read_back :: "'f float_text \<Rightarrow> 'f \<Rightarrow> 'f" where
  "read_back ft x = (case strtod ft (dtoa ft x) of Some y \<Rightarrow> y | None \<Rightarrow> x)"

definition text_ok :: "'f float_text \<Rightarrow> bool" where
  "text_ok ft \<longleftrightarrow> (\<forall>x. num_token (dtoa ft x) \<and> strtod ft (dtoa ft x) \<noteq> None)"

lemma text_ok_frame_floats_ok:
  "text_ok ft \<Longrightarrow> frame_floats_ok (dtoa ft) (strtod ft) (read_back ft) df"
  by (auto simp: text_ok_def frame_floats_ok_def float_ok_def read_back_def list_all_iff
           split: option.splits)

definition int_text :: "int float_text" where
  "int_text = \<lparr>dtoa = int_fmt, strtod = int_rd\<rparr>"

lemma int_text_sel [simp]: "dtoa int_text = int_fmt" "strtod int_text = int_rd"
  by (simp_all add: int_text_def)

lemma int_text_ok: "text_ok int_text" and read_back_int_text [simp]: "read_back int_text = id"
  using int_float_ok by (auto simp: text_ok_def int_text_def float_ok_def read_back_def)

subsection \<open>The round trip through the session\<close>

text \<open>C29: the session round trip on the text: the table \<open>index\<close> stores with
  \<open>df.to_json()\<close> and \<open>next\<close> reads with \<open>pd.read_json\<close> comes back with the same
  rows in the same order and the same SMILES cells (stereo bonds \<open>/\<close> and \<open>\\\<close>
  included), each float being the one its ten-digit text reads back as.\<close>

theorem session_text_roundtrip:
  "frame_floats_ok fmt rd g df \<Longrightarrow> read_json_text rd (to_json_text fmt df) = Inr (map (round_row g) df)"
  by (rule read_json_text_eq)

lemma session_text_roundtrip_witness:
  "frame_floats_ok int_fmt int_rd id
     [\<lparr>SMILES = Str (''F/C=C'' @ BSLASH # ''F''), clogP = 3, sascore = -2\<rparr>,
      \<lparr>SMILES = NaN, clogP = 0, sascore = 1\<rparr>] \<and>
   read_json_text int_rd (to_json_text int_fmt
     [\<lparr>SMILES = Str (''F/C=C'' @ BSLASH # ''F''), clogP = 3, sascore = -2\<rparr>,
      \<lparr>SMILES = NaN, clogP = 0, sascore = 1\<rparr>]) =
   Inr [\<lparr>SMILES = Str (''F/C=C'' @ BSLASH # ''F''), clogP = 3, sascore = -2\<rparr>,
        \<lparr>SMILES = NaN, clogP = 0, sascore = 1\<rparr>]"
proof -
  let ?df = "[\<lparr>SMILES = Str (''F/C=C'' @ BSLASH # ''F''), clogP = 3, sascore = -2\<rparr>,
              \<lparr>SMILES = NaN, clogP = 0, sascore = (1::int)\<rparr>]"
  have h: "frame_floats_ok int_fmt int_rd id ?df"
    by (simp add: frame_floats_ok_def int_float_ok)
  show ?thesis
    using h session_text_roundtrip [OF h] by (simp add: round_row_def)
qed


end
