(* ===== verification/Base64.thy ===== *)
theory Base64
  imports Prelude
begin

unbundle bit_operations_syntax

text \<open>
  \<open>base64.b64encode\<close>, as \<open>smiles_to_base64_img\<close> (app.py line 23) applies it to the PNG
  bytes of the rendered molecule. The encoder (binascii's) shifts each input byte into an
  accumulator and emits six bits at a time through the standard alphabet, masking with
  \<open>0x3f\<close>; the last group of one or two bytes is padded with zero bits and \<open>=\<close>. The
  model works on three bytes at a time with the same shifts and masks on \<open>8 word\<close>s.
  \<open>b64decode\<close> is the inverse (strict, padded input); it is the reference against which
  the encoder is proved, and, after whitespace is removed, the decoding a browser applies
  to the body of a \<open>data:\<close> URL (\<open>data_url_body\<close>, a reduced WHATWG data URL
  processor for the base64 case).
\<close>

definition b64_alphabet :: string where
  "b64_alphabet = ''ABCDEFGHIJKLMNOPQRSTUVWXYZabcdefghijklmnopqrstuvwxyz0123456789+/''"

definition b64_sym :: "byte \<Rightarrow> char" where
  "b64_sym x = b64_alphabet ! unat (x AND 0x3F)"

fun b64encode :: "byte list \<Rightarrow> string" where
  "b64encode [] = []"
| "b64encode [a] = [b64_sym (drop_bit 2 a), b64_sym (push_bit 4 a), CHR ''='', CHR ''='']"
| "b64encode [a, b] =
     [b64_sym (drop_bit 2 a), b64_sym (push_bit 4 a OR drop_bit 4 b), b64_sym (push_bit 2 b),
      CHR ''='']"
| "b64encode (a # b # c # rest) =
     b64_sym (drop_bit 2 a) # b64_sym (push_bit 4 a OR drop_bit 4 b) #
     b64_sym (push_bit 2 b OR drop_bit 6 c) # b64_sym c # b64encode rest"

subsection \<open>Decoding\<close>

fun index_of :: "'a \<Rightarrow> 'a list \<Rightarrow> nat option" where
  "index_of x [] = None"
| "index_of x (y # ys) = (if x = y then Some 0 else map_option Suc (index_of x ys))"

definition b64_val :: "char \<Rightarrow> byte option" where
  "b64_val c = map_option of_nat (index_of c b64_alphabet)"

definition join1 :: "byte \<Rightarrow> byte \<Rightarrow> byte" where
  "join1 s0 s1 = push_bit 2 s0 OR drop_bit 4 s1"

definition join2 :: "byte \<Rightarrow> byte \<Rightarrow> byte" where
  "join2 s1 s2 = push_bit 4 s1 OR drop_bit 2 s2"

definition join3 :: "byte \<Rightarrow> byte \<Rightarrow> byte" where
  "join3 s2 s3 = push_bit 6 s2 OR s3"

fun b64decode :: "string \<Rightarrow> byte list option" where
  "b64decode [] = Some []"
| "b64decode (w # x # y # z # rest) =
     (case (b64_val w, b64_val x) of
        (Some s0, Some s1) \<Rightarrow>
          if y = CHR ''='' \<and> z = CHR ''='' \<and> rest = [] then Some [join1 s0 s1]
          else (case b64_val y of
                  None \<Rightarrow> None
                | Some s2 \<Rightarrow>
                    if z = CHR ''='' \<and> rest = [] then Some [join1 s0 s1, join2 s1 s2]
                    else (case b64_val z of
                            None \<Rightarrow> None
                          | Some s3 \<Rightarrow>
                              map_option (\<lambda>r. join1 s0 s1 # join2 s1 s2 # join3 s2 s3 # r)
                                (b64decode rest)))
      | _ \<Rightarrow> None)"
| "b64decode _ = None"

definition ascii_whitespace :: "char \<Rightarrow> bool" where
  "ascii_whitespace c \<longleftrightarrow> c \<in> set [CHR 0x09, CHR 0x0A, CHR 0x0C, CHR 0x0D, CHR 0x20]"

text \<open>The body of a \<open>data:<type>;base64,<body>\<close> URL as a browser decodes it:
  forgiving base64 removes ASCII whitespace before decoding.\<close>

definition data_url_body :: "string \<Rightarrow> byte list option" where
  "data_url_body url =
     (if take 5 url = ''data:'' then
        (let rest = drop 5 url; header = takeWhile (\<lambda>c. c \<noteq> CHR '','') rest;
             body = drop (Suc (length header)) rest
         in if length header < length rest \<and> endswith (lower header) '';base64''
            then b64decode (filter (\<lambda>c. \<not> ascii_whitespace c) body) else None)
      else None)"

subsection \<open>Bits\<close>

lemma byte_bits_cases:
  "n < 8 \<Longrightarrow> n = 0 \<or> n = 1 \<or> n = 2 \<or> n = 3 \<or> n = 4 \<or> n = 5 \<or> n = 6 \<or> n = (7::nat)"
  by arith

text \<open>Two bytes are equal when their eight bits are: the rule that reduces each
  regrouping identity below to bit arithmetic on fixed positions.\<close>

lemma byte_eq_bits:
  "(x::byte) = y \<longleftrightarrow>
     (bit x 0 = bit y 0 \<and> bit x 1 = bit y 1 \<and> bit x 2 = bit y 2 \<and> bit x 3 = bit y 3 \<and>
      bit x 4 = bit y 4 \<and> bit x 5 = bit y 5 \<and> bit x 6 = bit y 6 \<and> bit x 7 = bit y 7)"
proof
  assume bits: "bit x 0 = bit y 0 \<and> bit x 1 = bit y 1 \<and> bit x 2 = bit y 2 \<and> bit x 3 = bit y 3 \<and>
      bit x 4 = bit y 4 \<and> bit x 5 = bit y 5 \<and> bit x 6 = bit y 6 \<and> bit x 7 = bit y 7"
  show "x = y"
  proof (rule bit_word_eqI)
    fix n assume "n < LENGTH(8)"
    then have "n < 8" by simp
    with bits show "bit x n = bit y n"
      by (auto dest!: byte_bits_cases)
  qed
qed simp

lemma join1_split: "join1 (drop_bit 2 a AND 0x3F) ((push_bit 4 a OR drop_bit 4 b) AND 0x3F) = a"
  by (simp add: join1_def byte_eq_bits bit_simps)

lemma join1_split_last: "join1 (drop_bit 2 a AND 0x3F) (push_bit 4 a AND 0x3F) = a"
  by (simp add: join1_def byte_eq_bits bit_simps)

lemma join2_split:
  "join2 ((push_bit 4 a OR drop_bit 4 b) AND 0x3F) ((push_bit 2 b OR drop_bit 6 c) AND 0x3F) = b"
  by (simp add: join2_def byte_eq_bits bit_simps)

lemma join2_split_last: "join2 ((push_bit 4 a OR drop_bit 4 b) AND 0x3F) (push_bit 2 b AND 0x3F) = b"
  by (simp add: join2_def byte_eq_bits bit_simps)

lemma join3_split: "join3 ((push_bit 2 b OR drop_bit 6 c) AND 0x3F) (c AND 0x3F) = c"
  by (simp add: join3_def byte_eq_bits bit_simps)

lemmas join_split = join1_split join1_split_last join2_split join2_split_last join3_split

subsection \<open>The alphabet\<close>

lemma length_b64_alphabet [simp]: "length b64_alphabet = 64"
  by (simp add: b64_alphabet_def)

lemma distinct_b64_alphabet: "distinct b64_alphabet"
  by (simp add: b64_alphabet_def)

lemma index_of_nth: "distinct xs \<Longrightarrow> n < length xs \<Longrightarrow> index_of (xs ! n) xs = Some n"
proof (induction xs arbitrary: n)
  case Nil
  then show ?case by simp
next
  case (Cons y ys)
  then show ?case
    by (cases n) (auto simp: nth_mem)
qed

lemma unat_and_3F: "unat ((x::byte) AND 0x3F) < 64"
proof -
  have "unat (x AND 0x3F) \<le> unat (0x3F :: byte)"
    by (rule word_and_le1 [THEN word_le_nat_alt [THEN iffD1]])
  then show ?thesis by simp
qed

lemma b64_val_sym [simp]: "b64_val (b64_sym x) = Some (x AND 0x3F)"
  using index_of_nth [OF distinct_b64_alphabet, of "unat (x AND 0x3F)"] unat_and_3F [of x]
  by (simp add: b64_val_def b64_sym_def)

lemma b64_sym_in_alphabet: "b64_sym x \<in> set b64_alphabet"
  using unat_and_3F [of x] by (simp add: b64_sym_def)

lemma pad_not_in_alphabet: "CHR ''='' \<notin> set b64_alphabet"
  by (simp add: b64_alphabet_def)

lemma b64_sym_not_pad [simp]: "b64_sym x \<noteq> CHR ''=''"
  using b64_sym_in_alphabet pad_not_in_alphabet by metis

subsection \<open>Encoder properties\<close>

lemma b64decode_b64encode_eq: "b64decode (b64encode bs) = Some bs"
  by (induction bs rule: b64encode.induct) (simp_all add: join_split)

text \<open>C17: the encoding of \<open>n\<close> bytes has exactly \<open>4 * ceil(n / 3)\<close> characters.\<close>

theorem length_b64encode: "length (b64encode bs) = 4 * ((length bs + 2) div 3)"
proof (induction bs rule: b64encode.induct)
  case (4 a b c rest)
  have "(5 + length rest) div 3 = Suc ((length rest + 2) div 3)"
    by presburger
  with "4.IH" show ?case by simp
qed simp_all

lemma set_b64encode: "set (b64encode bs) \<subseteq> insert (CHR ''='') (set b64_alphabet)"
  by (induction bs rule: b64encode.induct) (simp_all add: b64_sym_in_alphabet)

lemma no_whitespace_b64encode: "filter (\<lambda>c. \<not> ascii_whitespace c) (b64encode bs) = b64encode bs"
proof -
  have "\<forall>c \<in> insert (CHR ''='') (set b64_alphabet). \<not> ascii_whitespace c"
    by (simp add: b64_alphabet_def ascii_whitespace_def)
  with set_b64encode [of bs] show ?thesis
    by (auto intro: filter_True)
qed

lemma b64_val_space [simp]: "b64_val (CHR '' '') = None"
  by (simp add: b64_val_def b64_alphabet_def)

end
