(* ===== verification/Plot.thy ===== *)
theory Plot
  imports Ingest Base64
begin

text \<open>
  The presentation side: the scatter figure built in \<open>next\<close> (app.py lines 59 to 63),
  \<open>smiles_to_base64_img\<close> (lines 18 to 24) and the Dash callback \<open>display_hover\<close>
  (lines 81 to 97). Styling arguments (marker mode, hover settings, CSS) carry no data and
  are left out. \<open>hoverData\<close> is \<open>None\<close> or the list \<open>hoverData["points"]\<close> of hovered
  points, each with its bounding box (kept abstract as \<open>'b\<close>) and its
  \<open>pointNumber\<close>. Dash's \<open>no_update\<close> is the constructor \<open>NoUpdate\<close> of \<open>upd\<close>.
\<close>

record 'f figure =
  fig_x :: "'f list"
  fig_y :: "'f list"
  xaxis_title :: string
  yaxis_title :: string

definition make_figure :: "'f frame \<Rightarrow> 'f figure" where
  "make_figure df =
     \<lparr>fig_x = map clogP df, fig_y = map sascore df,
      xaxis_title = ''clogP'', yaxis_title = ''Synthetic accessibility score''\<rparr>"

text \<open>The points a scatter trace draws: point \<open>i\<close> at \<open>(x[i], y[i])\<close>.\<close>

definition plotted_points :: "'f figure \<Rightarrow> ('f \<times> 'f) list" where
  "plotted_points fig = zip (fig_x fig) (fig_y fig)"

definition img_src :: "byte list \<Rightarrow> string" where
  "img_src png = ''data:image/png;base64, '' @ b64encode png"

definition smiles_to_base64_img :: "('m, 'f) chem \<Rightarrow> cell \<Rightarrow> string py_result" where
  "smiles_to_base64_img tk SMILES_arg =
     sbind (mol_from_cell tk SMILES_arg) (\<lambda>mol.
     sbind (mol_to_png_py tk mol) (\<lambda>png.
     Inr (img_src png)))"

record 'b hover_point =
  bbox :: 'b
  pointNumber :: int

datatype 'a upd = NoUpdate | Upd 'a

datatype html = Img string | Div "html list"

type_synonym 'b tooltip = "bool \<times> 'b upd \<times> html list upd"

text \<open>The callback, with the closure's table \<open>df\<close> as an argument.\<close>

definition display_hover ::
  "('m, 'f) chem \<Rightarrow> 'f frame \<Rightarrow> 'b hover_point list option \<Rightarrow> 'b tooltip py_result" where
  "display_hover tk df hoverData =
     (case hoverData of
        None \<Rightarrow> Inr (False, NoUpdate, NoUpdate)
      | Some points \<Rightarrow>
          sbind (py_getitem points 0) (\<lambda>pt.
          sbind (py_getitem df (pointNumber pt)) (\<lambda>df_row.
          sbind (smiles_to_base64_img tk (SMILES df_row)) (\<lambda>src.
          Inr (True, Upd (bbox pt), Upd [Div [Img src]])))))"

subsection \<open>Lemmas\<close>

lemma smiles_to_base64_img_Str:
  "MolFromSmiles tk s = Some m \<Longrightarrow> smiles_to_base64_img tk (Str s) = Inr (img_src (MolToImage tk m))"
  by (simp add: smiles_to_base64_img_def chem_call_defs)

lemma length_plotted_points [simp]: "length (plotted_points (make_figure df)) = length df"
  by (simp add: plotted_points_def make_figure_def)

lemma display_hover_at:
  assumes "i < length df" and "pointNumber pt = int i"
    and "SMILES (df ! i) = Str s" and "MolFromSmiles tk s = Some m"
  shows "display_hover tk df (Some (pt # pts)) =
           Inr (True, Upd (bbox pt), Upd [Div [Img (img_src (MolToImage tk m))]])"
  using assms by (simp add: display_hover_def smiles_to_base64_img_Str py_simps)

lemma zip_map_same: "zip (map f xs) (map g xs) = map (\<lambda>x. (f x, g x)) xs"
  by (induction xs) simp_all

subsection \<open>Properties of the figure and the callback\<close>

text \<open>C13: the figure has one point per table row, in table order, at
  \<open>(clogP, sascore)\<close> of that row.\<close>

theorem make_figure_points:
  "plotted_points (make_figure df) = map (\<lambda>r. (clogP r, sascore r)) df"
  by (simp add: plotted_points_def make_figure_def zip_map_same)

text \<open>C11: hovering over point number \<open>i\<close> (within the table) looks up row \<open>i\<close> of the
  table and shows, at the point's bounding box, the image computed from that row's
  SMILES; whatever that computation raises, the callback raises.\<close>

theorem display_hover_index:
  assumes "i < length df" and "pointNumber pt = int i"
  shows "display_hover tk df (Some (pt # pts)) =
           sbind (smiles_to_base64_img tk (SMILES (df ! i)))
             (\<lambda>src. Inr (True, Upd (bbox pt), Upd [Div [Img src]]))"
  using assms by (simp add: display_hover_def py_simps)

lemma display_hover_index_witness:
  "display_hover example_chem [\<lparr>SMILES = Str ''CCO'', clogP = 3 :: int, sascore = 1\<rparr>]
      (Some [\<lparr>bbox = (), pointNumber = 0\<rparr>]) =
     Inr (True, Upd (), Upd [Div [Img (img_src (MolToImage example_chem ''CCO''))]])"
proof -
  have "display_hover example_chem [\<lparr>SMILES = Str ''CCO'', clogP = 3 :: int, sascore = 1\<rparr>]
          (Some [\<lparr>bbox = (), pointNumber = 0\<rparr>]) =
        sbind (smiles_to_base64_img example_chem (Str ''CCO''))
          (\<lambda>src. Inr (True, Upd (), Upd [Div [Img src]]))"
    using display_hover_index [of 0 "[\<lparr>SMILES = Str ''CCO'', clogP = 3 :: int, sascore = 1\<rparr>]"
                                 "\<lparr>bbox = (), pointNumber = 0\<rparr>" example_chem "[]"]
    by simp
  then show ?thesis
    by (simp add: smiles_to_base64_img_def chem_call_defs example_chem_def)
qed

text \<open>C12: a point number outside the table (Python indexing: from \<open>-len\<close> to
  \<open>len - 1\<close> is inside) makes the callback raise \<open>IndexError\<close>.\<close>

theorem display_hover_out_of_range:
  assumes "int (length df) \<le> pointNumber pt \<or> pointNumber pt < - int (length df)"
  shows "display_hover tk df (Some (pt # pts)) = Inl IndexError"
  using assms by (auto simp: display_hover_def py_getitem_def Let_def)

lemma display_hover_out_of_range_witness:
  "int (length [\<lparr>SMILES = Str ''CCO'', clogP = 3 :: int, sascore = 1\<rparr>]) \<le> 1 \<and>
   display_hover example_chem [\<lparr>SMILES = Str ''CCO'', clogP = 3 :: int, sascore = 1\<rparr>]
      (Some [\<lparr>bbox = (), pointNumber = 1\<rparr>]) = Inl IndexError"
  using display_hover_out_of_range [of "[\<lparr>SMILES = Str ''CCO'', clogP = 3 :: int, sascore = 1\<rparr>]"
          "\<lparr>bbox = (), pointNumber = 1\<rparr>" example_chem "[]"]
  by simp

text \<open>C16: a browser that loads the tooltip's \<open>src\<close> as a data URL gets back exactly
  the PNG bytes the toolkit rendered: the base64 body decodes to them, the space after
  the comma being removed by forgiving base64.\<close>

theorem img_src_roundtrip: "data_url_body (img_src png) = Some png"
proof -
  have "ascii_whitespace (CHR '' '')"
    by (simp add: ascii_whitespace_def)
  then show ?thesis
    by (simp add: data_url_body_def img_src_def lower_def lower_char_def endswith_def
                  no_whitespace_b64encode b64decode_b64encode_eq)
qed

text \<open>The text after the comma of that \<open>src\<close> is not base64 as such: it starts
  with a space, and a strict decoder rejects it.\<close>

theorem img_src_not_strict_base64:
  "b64decode (drop (length ''data:image/png;base64,'') (img_src png)) = None"
  by (cases png rule: b64encode.cases) (simp_all add: img_src_def)

end
