(* ===== verification/Server.thy ===== *)
theory Server
  imports Forms SessionText Plot
begin

text \<open>
  The server as a state machine. Its state is the browser session (the stored table
  \<open>session["data"]\<close> and the flashed messages) and the Dash applications that \<open>next\<close>
  has registered so far: every request to \<open>/next\<close> creates a new \<open>Dash\<close> app under a
  fresh \<open>uuid4\<close> path (modelled as its position in \<open>apps\<close>), whose layout holds the
  figure and whose hover callback closes over the table read at that moment. Events are
  the two routes of app.py and a hover callback of one of the apps; \<open>server_step\<close>
  runs one event. The session holds the text of the table, as \<open>df.to_json()\<close> writes
  it; the float text of the JSON encoder and decoder is the parameter \<open>ft\<close>. Rendering \<open>main.html\<close> (not in the repository's sources) is modelled
  from the spec: the page shows the flashed messages and consumes them.
\<close>

record 'f session =
  sess_data :: "string option"
  flashes :: "string list"

datatype page =
    MainPage "string list"
  | Redirect string
  | RequestTooLarge
  | InternalError py_exc
  | DashIndex nat

datatype 'b response =
    HttpPage page
  | CallbackResponse "'b tooltip py_result"
  | NotFound

definition flash :: "string \<Rightarrow> 'f session \<Rightarrow> 'f session" where
  "flash m s = s\<lparr>flashes := flashes s @ [m]\<rparr>"

definition render_main :: "'f session \<Rightarrow> 'f session \<times> page" where
  "render_main s = (s\<lparr>flashes := []\<rparr>, MainPage (flashes s))"

definition error_message :: "nat \<Rightarrow> string" where
  "error_message n = ''Error. Please check line '' @ nat_str n @ '' of your file.''"

text \<open>The route \<open>/\<close> (\<open>index\<close>, app.py lines 32 to 51).\<close>

definition index ::
  "('m, 'f::zero) chem \<Rightarrow> 'f float_text \<Rightarrow> request \<Rightarrow> 'f session \<Rightarrow> 'f session \<times> page" where
  "index tk ft req s =
     (if body_too_large req then (s, RequestTooLarge)
      else
        (case validated_upload req of
           None \<Rightarrow> render_main s
         | Some u \<Rightarrow>
             (case ingest tk (read_csv (content u)) of
                Inl n \<Rightarrow> render_main (flash (error_message n) s)
              | Inr df \<Rightarrow> (s\<lparr>sess_data := Some (to_json_text (dtoa ft) df)\<rparr>, Redirect ''/next''))))"

record 'f dash_app =
  app_df :: "'f frame"
  app_figure :: "'f figure"

record 'f server =
  session :: "'f session"
  apps :: "'f dash_app list"

text \<open>The route \<open>/next\<close> (app.py lines 53 to 98): \<open>session["data"]\<close> raises
  \<open>KeyError\<close> when no table is stored; otherwise a new app is registered and its index
  page returned.\<close>

definition next_page :: "'f float_text \<Rightarrow> 'f server \<Rightarrow> 'f server \<times> page" where
  "next_page ft st =
     (case sess_data (session st) of
        None \<Rightarrow> (st, InternalError KeyError)
      | Some txt \<Rightarrow>
          (case read_json_text (strtod ft) txt of
             Inl e \<Rightarrow> (st, InternalError e)
           | Inr df \<Rightarrow>
               (st\<lparr>apps := apps st @ [\<lparr>app_df = df, app_figure = make_figure df\<rparr>]\<rparr>,
                DashIndex (length (apps st)))))"

text \<open>A hover event delivered to the callback of app \<open>k\<close>.\<close>

definition hover_callback ::
  "('m, 'f) chem \<Rightarrow> nat \<Rightarrow> 'b hover_point list option \<Rightarrow> 'f server \<Rightarrow> 'b response" where
  "hover_callback tk k hov st =
     (if k < length (apps st) then CallbackResponse (display_hover tk (app_df (apps st ! k)) hov)
      else NotFound)"

datatype 'b event =
    IndexRequest request
  | NextRequest
  | HoverEvent nat "'b hover_point list option"

fun server_step ::
  "('m, 'f::zero) chem \<Rightarrow> 'f float_text \<Rightarrow> 'f server \<Rightarrow> 'b event \<Rightarrow> 'f server \<times> 'b response" where
  "server_step tk ft st (IndexRequest req) =
     (let (s', p) = index tk ft req (session st) in (st\<lparr>session := s'\<rparr>, HttpPage p))"
| "server_step tk ft st NextRequest = (let (st', p) = next_page ft st in (st', HttpPage p))"
| "server_step tk ft st (HoverEvent k hov) = (st, hover_callback tk k hov st)"

definition server_init :: "'f server" where
  "server_init = \<lparr>session = \<lparr>sess_data = None, flashes = []\<rparr>, apps = []\<rparr>"

text \<open>Reachable states: the start state, closed under the two routes (a hover callback
  leaves the state as it is, \<open>server_step_hover\<close>).\<close>

inductive reachable :: "('m, 'f::zero) chem \<Rightarrow> 'f float_text \<Rightarrow> 'f server \<Rightarrow> bool"
  for tk ft where
  init: "reachable tk ft server_init"
| index_step: "reachable tk ft st \<Longrightarrow> reachable tk ft (st\<lparr>session := fst (index tk ft req (session st))\<rparr>)"
| next_step: "reachable tk ft st \<Longrightarrow> reachable tk ft (fst (next_page ft st))"

subsection \<open>The invariant\<close>

text \<open>Every row of a table the server holds was computed by the toolkit from its SMILES.\<close>

definition computed_frame :: "('m, 'f) chem \<Rightarrow> 'f frame \<Rightarrow> bool" where
  "computed_frame tk df \<longleftrightarrow> list_all (\<lambda>r. descriptors tk (SMILES r) = Inr (clogP r, sascore r)) df"

definition session_inv :: "('m, 'f) chem \<Rightarrow> 'f float_text \<Rightarrow> 'f session \<Rightarrow> bool" where
  "session_inv tk ft s \<longleftrightarrow>
     (case sess_data s of
        None \<Rightarrow> True
      | Some txt \<Rightarrow> \<exists>df. computed_frame tk df \<and> txt = to_json_text (dtoa ft) df)"

definition app_inv :: "('m, 'f) chem \<Rightarrow> 'f float_text \<Rightarrow> 'f dash_app \<Rightarrow> bool" where
  "app_inv tk ft a \<longleftrightarrow>
     (\<exists>df. computed_frame tk df \<and> read_json_text (strtod ft) (to_json_text (dtoa ft) df) = Inr (app_df a)) \<and>
     app_figure a = make_figure (app_df a)"

definition server_inv :: "('m, 'f) chem \<Rightarrow> 'f float_text \<Rightarrow> 'f server \<Rightarrow> bool" where
  "server_inv tk ft st \<longleftrightarrow> session_inv tk ft (session st) \<and> list_all (app_inv tk ft) (apps st)"

lemma ingest_computed_frame:
  assumes "ingest tk cs = Inr df"
  shows "computed_frame tk df \<and> map SMILES df = cs"
proof -
  have "list_all2 (\<lambda>c r. SMILES r = c \<and> descriptors tk c = Inr (clogP r, sascore r)) cs df"
    using assms by (simp add: ingest_unfold ingest_spec_Inr_iff)
  then show ?thesis
    by (induction rule: list_all2_induct) (simp_all add: computed_frame_def)
qed

lemma index_session_inv:
  "session_inv tk ft s \<Longrightarrow> session_inv tk ft (fst (index tk ft req s))"
  by (auto simp: index_def render_main_def flash_def session_inv_def
           dest: ingest_computed_frame split: option.splits sum.splits)

lemma next_page_inv:
  assumes "server_inv tk ft st"
  shows "server_inv tk ft (fst (next_page ft st))"
proof (cases "sess_data (session st)")
  case None
  with assms show ?thesis by (simp add: next_page_def)
next
  case (Some j)
  with assms obtain df where df: "computed_frame tk df" and j: "j = to_json_text (dtoa ft) df"
    by (auto simp: server_inv_def session_inv_def)
  with Some assms show ?thesis
    by (auto simp: next_page_def server_inv_def app_inv_def split: sum.splits)
qed

text \<open>With a float text that reads back every double it writes, an app's table is the
  computed table with its floats as read back.\<close>

lemma app_inv_rows:
  assumes "text_ok ft" and "app_inv tk ft a"
  shows "\<exists>df. computed_frame tk df \<and> app_df a = map (round_row (read_back ft)) df \<and>
           app_figure a = make_figure (app_df a)"
  using assms read_json_text_eq [OF text_ok_frame_floats_ok [OF assms(1)]]
  by (auto simp: app_inv_def)

lemma server_inv_init: "server_inv tk ft server_init"
  by (simp add: server_inv_def server_init_def session_inv_def)

lemma reachable_inv: "reachable tk ft st \<Longrightarrow> server_inv tk ft st"
proof (induction rule: reachable.induct)
  case init
  show ?case by (rule server_inv_init)
next
  case (index_step st req)
  then show ?case by (simp add: server_inv_def index_session_inv)
next
  case (next_step st)
  from next_step.IH show ?case by (rule next_page_inv)
qed

lemma server_step_hover: "fst (server_step tk ft st (HoverEvent k hov)) = st"
  by simp

lemma reachable_server_step:
  assumes "reachable tk ft st"
  shows "reachable tk ft (fst (server_step tk ft st e))"
proof (cases e)
  case (IndexRequest req)
  with assms show ?thesis
    by (simp add: case_prod_beta reachable.index_step)
next
  case NextRequest
  with assms show ?thesis
    by (simp add: case_prod_beta reachable.next_step)
next
  case (HoverEvent k hov)
  with assms show ?thesis by simp
qed

text \<open>What every registered app of a reachable state holds: its figure is that of its
  table, and (with a float text that reads back) every row's SMILES parses.\<close>

lemma reachable_app_inv: "reachable tk ft st \<Longrightarrow> k < length (apps st) \<Longrightarrow> app_inv tk ft (apps st ! k)"
  by (drule reachable_inv) (simp add: server_inv_def list_all_length)

lemma reachable_app_figure:
  "reachable tk ft st \<Longrightarrow> k < length (apps st) \<Longrightarrow> app_figure (apps st ! k) = make_figure (app_df (apps st ! k))"
  using reachable_app_inv by (fastforce simp: app_inv_def)

lemma reachable_app_row:
  assumes "reachable tk ft st" and "text_ok ft" and "k < length (apps st)"
    and "i < length (app_df (apps st ! k))"
  shows "\<exists>s m. SMILES (app_df (apps st ! k) ! i) = Str s \<and> MolFromSmiles tk s = Some m"
proof -
  obtain df where df: "computed_frame tk df" and a: "app_df (apps st ! k) = map (round_row (read_back ft)) df"
    using app_inv_rows [OF assms(2) reachable_app_inv [OF assms(1,3)]] by blast
  have i: "i < length df"
    using assms(4) a by simp
  with df have "descriptors tk (SMILES (df ! i)) = Inr (clogP (df ! i), sascore (df ! i))"
    by (simp add: computed_frame_def list_all_length)
  then obtain s m where s: "SMILES (df ! i) = Str s" and m: "MolFromSmiles tk s = Some m"
    by (auto simp: descriptors_Inr)
  then show ?thesis
    using a i by (simp add: round_row_def)
qed

subsection \<open>An example run\<close>

text \<open>A valid upload of the spec's three molecules (file name in capitals, which
  \<open>FileAllowed\<close> accepts after lower-casing), a rejected one, and the states they lead
  to with \<open>example_chem\<close>; used by the witnesses.\<close>

definition demo_content :: string where
  "demo_content = ''CCO'' @ LF # ''c1ccccc1'' @ LF # ''C(=O)O'' @ [LF]"

definition demo_upload :: request where
  "demo_upload =
     \<lparr>req_method = POST, req_file = Some \<lparr>filename = ''mols.TXT'', content = demo_content\<rparr>,
      csrf_valid = True, content_length = 200\<rparr>"

definition demo_bad_upload :: request where
  "demo_bad_upload =
     \<lparr>req_method = POST,
      req_file = Some \<lparr>filename = ''bad.txt'', content = ''CCO'' @ LF # ''not_a_molecule'' @ LF # ''C(=O)O''\<rparr>,
      csrf_valid = True, content_length = 200\<rparr>"

definition demo_frame :: "int frame" where
  "demo_frame =
     [\<lparr>SMILES = Str ''CCO'', clogP = 3, sascore = 1\<rparr>,
      \<lparr>SMILES = Str ''c1ccccc1'', clogP = 8, sascore = 1\<rparr>,
      \<lparr>SMILES = Str ''C(=O)O'', clogP = 6, sascore = 1\<rparr>]"

definition demo_state :: "int server" where
  "demo_state =
     fst (next_page int_text ((server_init :: int server)\<lparr>session :=
            fst (index example_chem int_text demo_upload (session (server_init :: int server)))\<rparr>))"

lemmas demo_eval_defs = read_csv_def data_lines_def LF_def CR_def blank_line_def to_cell_def
  na_values_def enumerate_eq_zip validated_upload_def validate_on_submit_def upload_form_validate_def
  file_required_def file_allowed_def lower_def lower_char_def endswith_def body_too_large_def
  MAX_CONTENT_LENGTH_def ingest_def frame_init_def try_row_def chem_call_defs example_chem_def
  set_clogP_def set_sascore_def

lemma demo_upload_eval:
  "\<not> body_too_large demo_upload"
  "validated_upload demo_upload = Some \<lparr>filename = ''mols.TXT'', content = demo_content\<rparr>"
  "ingest example_chem (read_csv demo_content) = Inr demo_frame"
  by (simp_all add: demo_upload_def demo_content_def demo_frame_def demo_eval_defs)

lemma demo_bad_upload_eval:
  "\<not> body_too_large demo_bad_upload"
  "validated_upload demo_bad_upload =
     Some \<lparr>filename = ''bad.txt'', content = ''CCO'' @ LF # ''not_a_molecule'' @ LF # ''C(=O)O''\<rparr>"
  "ingest example_chem (read_csv (''CCO'' @ LF # ''not_a_molecule'' @ LF # ''C(=O)O'')) = Inl 2"
  by (simp_all add: demo_bad_upload_def demo_eval_defs)

lemma demo_state_eval:
  "apps demo_state = [\<lparr>app_df = demo_frame, app_figure = make_figure demo_frame\<rparr>]"
proof -
  have "map (round_row id) demo_frame = demo_frame"
    by (simp add: demo_frame_def round_row_def)
  then show ?thesis
    using demo_upload_eval
      read_json_text_eq [OF text_ok_frame_floats_ok [OF int_text_ok], of demo_frame]
    by (simp add: demo_state_def index_def next_page_def server_init_def)
qed

lemma demo_state_reachable: "reachable example_chem int_text demo_state"
  unfolding demo_state_def by (intro reachable.next_step reachable.index_step reachable.init)

subsection \<open>Properties of the server\<close>

text \<open>C5: in every reachable state, hovering over any plotted point \<open>i\<close> of any registered
  Dash app never raises: the callback shows a tooltip at the point's box whose image is
  the rendering of the molecule stored in row \<open>i\<close> of the table that app was built
  from (index preservation from plot to table, and every stored row re-parses).\<close>

theorem hover_renders_row:
  assumes "reachable tk ft st" and "k < length (apps st)"
    and "i < length (plotted_points (app_figure (apps st ! k)))" and "pointNumber pt = int i"
    and "text_ok ft"
  shows "\<exists>s m. SMILES (app_df (apps st ! k) ! i) = Str s \<and> MolFromSmiles tk s = Some m \<and>
           hover_callback tk k (Some (pt # pts)) st =
             CallbackResponse (Inr (True, Upd (bbox pt), Upd [Div [Img (img_src (MolToImage tk m))]]))"
proof -
  have i: "i < length (app_df (apps st ! k))"
    using assms(3) reachable_app_figure [OF assms(1,2)] by simp
  obtain s m where row: "SMILES (app_df (apps st ! k) ! i) = Str s" and m: "MolFromSmiles tk s = Some m"
    using reachable_app_row [OF assms(1,5,2) i] by blast
  have "display_hover tk (app_df (apps st ! k)) (Some (pt # pts)) =
          Inr (True, Upd (bbox pt), Upd [Div [Img (img_src (MolToImage tk m))]])"
    using i assms(4) row m by (rule display_hover_at)
  with row m assms(2) show ?thesis
    by (simp add: hover_callback_def)
qed

lemma hover_renders_row_witness:
  "\<exists>s m. SMILES (app_df (apps demo_state ! 0) ! 1) = Str s \<and> MolFromSmiles example_chem s = Some m \<and>
     hover_callback example_chem 0 (Some [\<lparr>bbox = (), pointNumber = 1\<rparr>]) demo_state =
       CallbackResponse (Inr (True, Upd (), Upd [Div [Img (img_src (MolToImage example_chem m))]]))"
proof -
  have k: "0 < length (apps demo_state)"
    by (simp add: demo_state_eval)
  have i: "1 < length (plotted_points (app_figure (apps demo_state ! 0)))"
    by (simp add: demo_state_eval demo_frame_def)
  show ?thesis
    using hover_renders_row [OF demo_state_reachable k i _ int_text_ok,
                             of "\<lparr>bbox = (), pointNumber = 1\<rparr>" "[]"]
    by simp
qed

text \<open>C6: every event (an upload, a request to \<open>/next\<close>, a hover callback) keeps the
  invariant: the session's text is the \<open>to_json\<close> text of a table computed row by row
  by the toolkit from its SMILES, every registered app holds what \<open>pd.read_json\<close> gives
  on such a text, and each app's figure is the figure of its table. No assumption on the
  float text is needed.\<close>

theorem server_step_preserves_inv:
  assumes "server_inv tk ft st"
  shows "server_inv tk ft (fst (server_step tk ft st e))"
proof (cases e)
  case (IndexRequest req)
  with assms show ?thesis
    by (simp add: case_prod_beta server_inv_def index_session_inv)
next
  case NextRequest
  with assms show ?thesis
    by (simp add: case_prod_beta next_page_inv)
next
  case (HoverEvent k hov)
  with assms show ?thesis by simp
qed

lemma server_step_preserves_inv_witness:
  "server_inv example_chem int_text (server_init :: int server) \<and>
   server_inv example_chem int_text (fst (server_step example_chem int_text (server_init :: int server)
                                     (IndexRequest demo_upload :: unit event)))"
  using server_step_preserves_inv [OF server_inv_init, of example_chem int_text "IndexRequest demo_upload :: unit event"]
  by (simp add: server_inv_init)

text \<open>C7: an upload that passes the form but has a failing line renders the upload page
  with the message naming that line; the session's stored table is left as it was, so a
  table stored by an earlier upload survives a rejected one.\<close>

theorem index_rejected_keeps_data:
  assumes "\<not> body_too_large req" and "validated_upload req = Some u"
    and "ingest tk (read_csv (content u)) = Inl n"
  shows "index tk ft req s = (s\<lparr>flashes := []\<rparr>, MainPage (flashes s @ [error_message n]))"
  using assms by (simp add: index_def render_main_def flash_def)

lemma index_rejected_keeps_data_witness:
  "index example_chem int_text demo_bad_upload
      \<lparr>sess_data = Some (to_json_text int_fmt demo_frame), flashes = []\<rparr> =
     (\<lparr>sess_data = Some (to_json_text int_fmt demo_frame), flashes = []\<rparr>,
      MainPage [''Error. Please check line 2 of your file.''])"
  using index_rejected_keeps_data [where req = demo_bad_upload and tk = example_chem and ft = int_text
          and u = "\<lparr>filename = ''bad.txt'', content = ''CCO'' @ LF # ''not_a_molecule'' @ LF # ''C(=O)O''\<rparr>"
          and n = 2 and s = "\<lparr>sess_data = Some (to_json_text int_fmt demo_frame), flashes = []\<rparr>"]
        demo_bad_upload_eval
  by (simp add: error_message_def nat_str.simps digit_char_def decimal_digits_def)

text \<open>C8: an upload whose lines are all valid stores the JSON of the computed table in the
  session (replacing any earlier one) and redirects to \<open>/next\<close>.\<close>

theorem index_accepted_stores:
  assumes "\<not> body_too_large req" and "validated_upload req = Some u"
    and "ingest tk (read_csv (content u)) = Inr df"
  shows "index tk ft req s = (s\<lparr>sess_data := Some (to_json_text (dtoa ft) df)\<rparr>, Redirect ''/next'')"
  using assms by (simp add: index_def)

lemma index_accepted_stores_witness:
  "index example_chem int_text demo_upload \<lparr>sess_data = None, flashes = []\<rparr> =
     (\<lparr>sess_data = Some (to_json_text int_fmt demo_frame), flashes = []\<rparr>, Redirect ''/next'')"
  using index_accepted_stores [where req = demo_upload and tk = example_chem and ft = int_text
          and u = "\<lparr>filename = ''mols.TXT'', content = demo_content\<rparr>" and df = demo_frame
          and s = "\<lparr>sess_data = None, flashes = []\<rparr>"]
        demo_upload_eval
  by simp

text \<open>C15: an upload is stored only if its file passed the form and its content is
  within the 5 KB request limit (for a request whose declared length covers the file).\<close>

theorem index_redirect_bounded:
  assumes "well_formed req" and "index tk ft req s = (s', Redirect url)"
  shows "\<exists>u. validated_upload req = Some u \<and> length (content u) \<le> MAX_CONTENT_LENGTH"
proof -
  from assms(2) obtain u where small: "\<not> body_too_large req" and vu: "validated_upload req = Some u"
    by (auto simp: index_def render_main_def split: if_splits option.splits sum.splits)
  from vu have "req_method req = POST" and "req_file req = Some u"
    by (auto simp: validated_upload_def validate_on_submit_def split: if_splits)
  with small assms(1) vu show ?thesis
    by (auto simp: body_too_large_def well_formed_def)
qed

lemma index_redirect_bounded_witness:
  "well_formed demo_upload \<and>
   index example_chem int_text demo_upload \<lparr>sess_data = None, flashes = []\<rparr> =
     (\<lparr>sess_data = Some (to_json_text int_fmt demo_frame), flashes = []\<rparr>, Redirect ''/next'') \<and>
   (\<exists>u. validated_upload demo_upload = Some u \<and> length (content u) \<le> MAX_CONTENT_LENGTH)"
proof -
  have wf: "well_formed demo_upload"
    by (simp add: well_formed_def demo_upload_def demo_content_def)
  have run: "index example_chem int_text demo_upload \<lparr>sess_data = None, flashes = []\<rparr> =
     (\<lparr>sess_data = Some (to_json_text int_fmt demo_frame), flashes = []\<rparr>, Redirect ''/next'')"
    using demo_upload_eval by (simp add: index_def)
  show ?thesis
    using wf run index_redirect_bounded [OF wf run] by simp
qed

text \<open>C22: the plot page raises \<open>KeyError\<close> (HTTP 500) in a session that holds no table,
  for instance before any upload has succeeded.\<close>

theorem next_page_no_data:
  "sess_data (session st) = None \<Longrightarrow> next_page ft st = (st, InternalError KeyError)"
  by (simp add: next_page_def)

lemma next_page_no_data_witness:
  "sess_data (session (server_init :: int server)) = None \<and>
   next_page int_text (server_init :: int server) = (server_init, InternalError KeyError)"
  using next_page_no_data [of "server_init :: int server"] by (simp add: server_init_def)

text \<open>C24: no event changes or removes a registered Dash app: an upload or a hover leaves
  the list as it is, a request to \<open>/next\<close> appends at most one app. A browser tab open
  on an earlier plot keeps hovering over that plot's own table after later uploads.\<close>

theorem server_step_apps_prefix:
  "\<exists>new. apps (fst (server_step tk ft st e)) = apps st @ new \<and> length new \<le> 1"
proof (cases e)
  case (IndexRequest req)
  then show ?thesis by (simp add: case_prod_beta)
next
  case NextRequest
  then show ?thesis
    by (auto simp: case_prod_beta next_page_def split: option.splits sum.splits)
next
  case (HoverEvent k hov)
  then show ?thesis by simp
qed

end
