(* ===== verification/DashPage.thy ===== *)
theory DashPage
  imports Plot
begin

text \<open>
  The page each Dash app serves (app.py lines 65 to 80) and what the browser does with it.
  The layout is a tree of components (\<open>component\<close>): the headings, the link back to the
  upload page (\<open>url_for("index")\<close>, with Flask's URL map \<open>url_map\<close> of the two routes),
  the graph \<open>my-graph\<close> with \<open>clear_on_unhover=True\<close> and the tooltip \<open>graph-tooltip\<close>.
  The callback's declaration (\<open>display_hover_decl\<close>) names three outputs of the tooltip
  and one input of the graph; \<open>callback_ok\<close> is the check Dash's renderer makes of it
  against the layout (ids present and unique, properties of the right component).

  The browser side is a state machine on \<open>page_state\<close>: the graph's \<open>hoverData\<close> and the
  tooltip's properties. \<open>dcc.Graph\<close> sets \<open>hoverData\<close> to the hovered points on a hover
  and, when \<open>clear_on_unhover\<close> is set, to \<open>None\<close> on an unhover; every such change fires
  the callback, whose outputs are written into the tooltip, except \<open>no_update\<close> ones;
  a callback that raises writes nothing. On page load the callback fires once with
  \<open>hoverData = None\<close> (Dash's initial call), so the tooltip, shown by default, is hidden.
\<close>

subsection \<open>The layout and the callback declaration\<close>

datatype 'f component =
    HDiv "'f component list"
  | H1 string
  | H4 string
  | A string string
  | Graph string "'f figure" bool "(string \<times> string) list"
  | Tooltip string

text \<open>Flask's URL map of \<open>create_app\<close>: endpoint and rule of each \<open>@server.route\<close>;
  \<open>url_for\<close> raises \<open>BuildError\<close> (\<open>None\<close>) for an endpoint it does not know.\<close>

definition url_map :: "(string \<times> string) list" where
  "url_map = [(''index'', ''/''), (''next'', ''/next'')]"

definition url_for :: "string \<Rightarrow> string option" where
  "url_for endpoint = map_of url_map endpoint"

definition graph_style :: "(string \<times> string) list" where
  "graph_style = [(''width'', ''180vh''), (''height'', ''80vh''), (''display'', ''block''),
                  (''margin-left'', ''auto''), (''margin-right'', ''auto'')]"

definition app_layout :: "'f figure \<Rightarrow> 'f component option" where
  "app_layout fig =
     map_option (\<lambda>href.
       HDiv [H1 ''Interactive Visualization'',
             H4 ''This is created by Dash running inside Flask.'',
             A ''Go back to last page'' href,
             Graph ''my-graph'' fig True graph_style,
             Tooltip ''graph-tooltip''])
       (url_for ''index'')"

record callback_decl =
  cb_outputs :: "(string \<times> string) list"
  cb_inputs :: "(string \<times> string) list"

definition display_hover_decl :: callback_decl where
  "display_hover_decl =
     \<lparr>cb_outputs = [(''graph-tooltip'', ''show''), (''graph-tooltip'', ''bbox''),
                    (''graph-tooltip'', ''children'')],
      cb_inputs = [(''my-graph'', ''hoverData'')]\<rparr>"

fun components :: "'f component \<Rightarrow> 'f component list" where
  "components (HDiv cs) = HDiv cs # concat (map components cs)"
| "components c = [c]"

fun comp_id :: "'f component \<Rightarrow> string option" where
  "comp_id (Graph i _ _ _) = Some i"
| "comp_id (Tooltip i) = Some i"
| "comp_id _ = None"

text \<open>The properties of \<open>dcc.Graph\<close> and \<open>dcc.Tooltip\<close> a callback may name.\<close>

fun comp_props :: "'f component \<Rightarrow> string list" where
  "comp_props (Graph _ _ _ _) =
     [''id'', ''figure'', ''hoverData'', ''clickData'', ''selectedData'', ''relayoutData'',
      ''clear_on_unhover'', ''style'']"
| "comp_props (Tooltip _) = [''id'', ''show'', ''bbox'', ''children'', ''direction'']"
| "comp_props _ = []"

definition layout_ids :: "'f component \<Rightarrow> string list" where
  "layout_ids lay = List.map_filter comp_id (components lay)"

definition find_comp :: "string \<Rightarrow> 'f component \<Rightarrow> 'f component option" where
  "find_comp i lay = find (\<lambda>c. comp_id c = Some i) (components lay)"

definition dep_ok :: "'f component \<Rightarrow> string \<times> string \<Rightarrow> bool" where
  "dep_ok lay dep = (case find_comp (fst dep) lay of None \<Rightarrow> False | Some c \<Rightarrow> snd dep \<in> set (comp_props c))"

definition callback_ok :: "'f component \<Rightarrow> callback_decl \<Rightarrow> bool" where
  "callback_ok lay cb \<longleftrightarrow>
     distinct (layout_ids lay) \<and> distinct (cb_outputs cb) \<and>
     list_all (dep_ok lay) (cb_outputs cb @ cb_inputs cb)"

text \<open>\<open>clear_on_unhover\<close> of the graph the callback listens to.\<close>

definition graph_clear :: "'f component \<Rightarrow> bool" where
  "graph_clear lay = (case find_comp ''my-graph'' lay of Some (Graph _ _ c _) \<Rightarrow> c | _ \<Rightarrow> False)"

subsection \<open>The page in the browser\<close>

record 'b tooltip_props =
  tt_show :: bool
  tt_bbox :: "'b option"
  tt_children :: "html list"

record 'b page_state =
  hover_data :: "'b hover_point list option"
  tip :: "'b tooltip_props"

text \<open>\<open>dcc.Tooltip\<close>'s defaults: shown, no box, no children.\<close>

definition tooltip_init :: "'b tooltip_props" where
  "tooltip_init = \<lparr>tt_show = True, tt_bbox = None, tt_children = []\<rparr>"

fun apply_upd :: "'a upd \<Rightarrow> 'a \<Rightarrow> 'a" where
  "apply_upd NoUpdate x = x"
| "apply_upd (Upd y) x = y"

definition set_outputs :: "'b tooltip py_result \<Rightarrow> 'b tooltip_props \<Rightarrow> 'b tooltip_props" where
  "set_outputs r p =
     (case r of
        Inl _ \<Rightarrow> p
      | Inr (sh, bb, ch) \<Rightarrow>
          \<lparr>tt_show = sh, tt_bbox = apply_upd (map_upd Some bb) (tt_bbox p),
           tt_children = apply_upd ch (tt_children p)\<rparr>)"

definition fire ::
  "('m, 'f) chem \<Rightarrow> 'f frame \<Rightarrow> 'b hover_point list option \<Rightarrow> 'b page_state \<Rightarrow> 'b page_state" where
  "fire tk df hov st = \<lparr>hover_data = hov, tip = set_outputs (display_hover tk df hov) (tip st)\<rparr>"

datatype 'b mouse = Hover "'b hover_point list" | Unhover

text \<open>The value \<open>dcc.Graph\<close> sets \<open>hoverData\<close> to, if it sets it.\<close>

fun graph_event :: "bool \<Rightarrow> 'b mouse \<Rightarrow> 'b hover_point list option option" where
  "graph_event clear (Hover pts) = Some (Some pts)"
| "graph_event clear Unhover = (if clear then Some None else None)"

definition page_step ::
  "('m, 'f) chem \<Rightarrow> 'f frame \<Rightarrow> bool \<Rightarrow> 'b page_state \<Rightarrow> 'b mouse \<Rightarrow> 'b page_state" where
  "page_step tk df clear st ev = (case graph_event clear ev of None \<Rightarrow> st | Some hov \<Rightarrow> fire tk df hov st)"

definition page_load :: "('m, 'f) chem \<Rightarrow> 'f frame \<Rightarrow> 'b page_state" where
  "page_load tk df = fire tk df None \<lparr>hover_data = None, tip = tooltip_init\<rparr>"

definition dash_page_run ::
  "('m, 'f) chem \<Rightarrow> 'f frame \<Rightarrow> 'f component \<Rightarrow> 'b mouse list \<Rightarrow> 'b page_state" where
  "dash_page_run tk df lay evs = fold (\<lambda>ev st. page_step tk df (graph_clear lay) st ev) evs (page_load tk df)"

subsection \<open>What the tooltip shows\<close>

text \<open>Every row's SMILES can be drawn (\<open>smiles_to_base64_img\<close> does not raise); the
  hover events a scatter trace of \<open>n\<close> points sends (at least one point, each a point
  of the trace).\<close>

definition drawable :: "('m, 'f) chem \<Rightarrow> 'f frame \<Rightarrow> bool" where
  "drawable tk df = list_all (\<lambda>r. case smiles_to_base64_img tk (SMILES r) of Inl _ \<Rightarrow> False | Inr _ \<Rightarrow> True) df"

fun valid_mouse :: "nat \<Rightarrow> 'b mouse \<Rightarrow> bool" where
  "valid_mouse n (Hover pts) = (pts \<noteq> [] \<and> list_all (\<lambda>p. 0 \<le> pointNumber p \<and> pointNumber p < int n) pts)"
| "valid_mouse n Unhover = True"

definition row_image :: "('m, 'f) chem \<Rightarrow> 'f frame \<Rightarrow> 'b hover_point \<Rightarrow> string py_result" where
  "row_image tk df pt = smiles_to_base64_img tk (SMILES (df ! nat (pointNumber pt)))"

text \<open>A shown tooltip sits at the box of the first hovered point and holds the image of
  that point's row.\<close>

definition tip_consistent :: "('m, 'f) chem \<Rightarrow> 'f frame \<Rightarrow> 'b page_state \<Rightarrow> bool" where
  "tip_consistent tk df st \<longleftrightarrow>
     (tt_show (tip st) \<longrightarrow>
       (case hover_data st of
          Some (pt # _) \<Rightarrow>
            tt_bbox (tip st) = Some (bbox pt) \<and>
            map_sum id (\<lambda>src. [Div [Img src]]) (row_image tk df pt) = Inr (tt_children (tip st))
        | _ \<Rightarrow> False))"

lemma fire_None_hidden [simp]: "tt_show (tip (fire tk df None st)) = False"
  by (simp add: fire_def display_hover_def set_outputs_def)

lemma drawable_nth:
  assumes "drawable tk df" and "i < length df"
  obtains src where "smiles_to_base64_img tk (SMILES (df ! i)) = Inr src"
proof -
  have "case smiles_to_base64_img tk (SMILES (df ! i)) of Inl _ \<Rightarrow> False | Inr _ \<Rightarrow> True"
    using assms by (simp add: drawable_def list_all_length)
  then show ?thesis
    using that by (cases "smiles_to_base64_img tk (SMILES (df ! i))") simp_all
qed

lemma fire_hover_consistent:
  assumes "drawable tk df" and "valid_mouse (length df) (Hover pts)"
  shows "tip_consistent tk df (fire tk df (Some pts) st)"
proof -
  obtain pt pts' where pts: "pts = pt # pts'"
    using assms(2) by (cases pts) auto
  define i where "i = nat (pointNumber pt)"
  have pn: "pointNumber pt = int i" and i: "i < length df"
    using assms(2) pts by (auto simp: i_def)
  obtain src where src: "smiles_to_base64_img tk (SMILES (df ! i)) = Inr src"
    using drawable_nth [OF assms(1) i] by blast
  have "display_hover tk df (Some pts) = Inr (True, Upd (bbox pt), Upd [Div [Img src]])"
    using display_hover_index [OF i pn, of tk pts'] src pts by simp
  then show ?thesis
    using src pts by (simp add: tip_consistent_def fire_def set_outputs_def row_image_def i_def)
qed

lemma page_step_consistent:
  assumes "drawable tk df" and "valid_mouse (length df) ev" and "tip_consistent tk df st"
  shows "tip_consistent tk df (page_step tk df clear st ev)"
proof (cases ev)
  case (Hover pts)
  then show ?thesis
    using fire_hover_consistent [OF assms(1)] assms(2) by (simp add: page_step_def)
next
  case Unhover
  then show ?thesis
  proof (cases clear)
    case True
    then show ?thesis
      using Unhover by (simp add: page_step_def tip_consistent_def)
  next
    case False
    then show ?thesis
      using Unhover assms(3) by (simp add: page_step_def)
  qed
qed

lemma fold_page_step_consistent:
  assumes "drawable tk df" and "list_all (valid_mouse (length df)) evs" and "tip_consistent tk df st"
  shows "tip_consistent tk df (fold (\<lambda>ev st. page_step tk df clear st ev) evs st)"
  using assms(2,3) by (induction evs arbitrary: st) (simp_all add: page_step_consistent [OF assms(1)])

lemma page_load_hidden: "\<not> tt_show (tip (page_load tk df))"
  by (simp add: page_load_def)

lemma page_step_unhover_cleared [simp]: "tt_show (tip (page_step tk df True st Unhover)) = False"
  by (simp add: page_step_def)

lemma app_layout_Some:
  "app_layout fig =
     Some (HDiv [H1 ''Interactive Visualization'', H4 ''This is created by Dash running inside Flask.'',
                 A ''Go back to last page'' ''/'', Graph ''my-graph'' fig True graph_style,
                 Tooltip ''graph-tooltip''])"
  by (simp add: app_layout_def url_for_def url_map_def)

subsection \<open>Properties of the page\<close>

text \<open>The callback is wired to the layout as Dash's renderer requires: the layout's
  ids are unique, and the three outputs (\<open>show\<close>, \<open>bbox\<close>, \<open>children\<close>) and the input
  (\<open>hoverData\<close>) name a component of the layout that has that property; the link back
  points to the upload page.\<close>

theorem app_layout_callback_ok:
  "\<exists>lay. app_layout fig = Some lay \<and> callback_ok lay display_hover_decl \<and>
         A ''Go back to last page'' ''/'' \<in> set (components lay)"
  by (simp add: app_layout_Some callback_ok_def layout_ids_def List.map_filter_def dep_ok_def
                find_comp_def display_hover_decl_def)

text \<open>C34: the tooltip is hidden when the page has loaded and after every unhover,
  whatever hovering came before: the graph has \<open>clear_on_unhover\<close> set, so leaving a
  point sets \<open>hoverData\<close> to \<open>None\<close> and the callback answers \<open>show = False\<close>.\<close>

theorem unhover_hides_tooltip:
  "\<exists>lay. app_layout (make_figure df) = Some lay \<and>
         \<not> tt_show (tip (dash_page_run tk df lay [])) \<and>
         (\<forall>evs. \<not> tt_show (tip (dash_page_run tk df lay (evs @ [Unhover]))))"
proof -
  have "graph_clear (the (app_layout (make_figure df)))"
    by (simp add: app_layout_Some graph_clear_def find_comp_def)
  then show ?thesis
    by (simp add: app_layout_Some dash_page_run_def page_load_hidden)
qed

text \<open>C35: on a table whose molecules can all be drawn, along any run of hover and unhover
  events of the plotted points, a shown tooltip is at the box of the first hovered point
  and holds the image of that point's row.\<close>

theorem dash_page_consistent:
  assumes "drawable tk df" and "list_all (valid_mouse (length df)) evs"
  shows "tip_consistent tk df (dash_page_run tk df lay evs)"
  unfolding dash_page_run_def
  by (rule fold_page_step_consistent [OF assms]) (simp add: tip_consistent_def page_load_hidden)

lemma dash_page_consistent_witness:
  "drawable example_chem [\<lparr>SMILES = Str ''CCO'', clogP = 3 :: int, sascore = 1\<rparr>] \<and>
   list_all (valid_mouse 1) [Hover [\<lparr>bbox = (), pointNumber = 0\<rparr>], Unhover, Hover [\<lparr>bbox = (), pointNumber = 0\<rparr>]] \<and>
   tip_consistent example_chem [\<lparr>SMILES = Str ''CCO'', clogP = 3 :: int, sascore = 1\<rparr>]
     (dash_page_run example_chem [\<lparr>SMILES = Str ''CCO'', clogP = 3 :: int, sascore = 1\<rparr>]
        (the (app_layout (make_figure [\<lparr>SMILES = Str ''CCO'', clogP = 3 :: int, sascore = 1\<rparr>])))
        [Hover [\<lparr>bbox = (), pointNumber = 0\<rparr>], Unhover, Hover [\<lparr>bbox = (), pointNumber = 0\<rparr>]])"
proof -
  have d: "drawable example_chem [\<lparr>SMILES = Str ''CCO'', clogP = 3 :: int, sascore = 1\<rparr>]"
    by (simp add: drawable_def smiles_to_base64_img_Str example_chem_def)
  show ?thesis
    using d dash_page_consistent [OF d, of "[Hover [\<lparr>bbox = (), pointNumber = 0\<rparr>], Unhover, Hover [\<lparr>bbox = (), pointNumber = 0\<rparr>]]"]
    by simp
qed

end
