(* ===== verification/Uuid.thy ===== *)
theory Uuid
  imports JsonText "HOL-Library.Code_Target_Nat"
begin

text \<open>
  \<open>uuid.uuid4()\<close> and \<open>str(UUID)\<close> from Python's standard library, which \<open>next\<close> (app.py
  lines 57 and 58) calls twice, for the Dash app's name and for its URL prefix. A UUID is
  a 128-bit word: \<open>uuid4_int\<close> reads the 16 random bytes big-endian and sets the version
  (bits 76 to 79 to 4) and the variant (bits 62, 63 to 10) with the masks of
  \<open>UUID.__init__\<close>; \<open>uuid_str\<close> is \<open>'%032x'\<close> cut 8-4-4-4-12 by hyphens. Python's
  integers are unbounded, but the value read from 16 bytes is below \<open>2^128\<close>, so the
  word operations compute exactly what Python does.
\<close>

unbundle bit_operations_syntax

text \<open>\<open>int.from_bytes(bytes, 'big')\<close>.\<close>

definition int_from_bytes :: "byte list \<Rightarrow> nat" where
  "int_from_bytes bs = foldl (\<lambda>a b. 256 * a + unat b) 0 bs"

definition uuid4_int :: "byte list \<Rightarrow> 128 word" where
  "uuid4_int bs =
     (let i = (word_of_nat (int_from_bytes bs) :: 128 word);
          i = i AND NOT (push_bit 48 0xc000);
          i = i OR push_bit 48 0x8000;
          i = i AND NOT (push_bit 64 0xf000)
      in i OR push_bit 76 4)"

text \<open>The \<open>n\<close> lowest hexadecimal digits of \<open>x\<close>, most significant first.\<close>

fun hex_nibbles :: "nat \<Rightarrow> nat \<Rightarrow> nat list" where
  "hex_nibbles 0 x = []"
| "hex_nibbles (Suc n) x = hex_nibbles n (x div 16) @ [x mod 16]"

definition uuid_hex :: "128 word \<Rightarrow> string" where
  "uuid_hex w = map (\<lambda>d. hex_digits ! d) (hex_nibbles 32 (unat w))"

definition uuid_str :: "128 word \<Rightarrow> string" where
  "uuid_str w =
     (let h = uuid_hex w
      in take 8 h @ ''-'' @ take 4 (drop 8 h) @ ''-'' @ take 4 (drop 12 h) @ ''-'' @
         take 4 (drop 16 h) @ ''-'' @ drop 20 h)"

subsection \<open>Hexadecimal digits\<close>

lemma length_hex_nibbles [simp]: "length (hex_nibbles n x) = n"
  by (induction n arbitrary: x) simp_all

lemma nth_hex_nibbles: "k < n \<Longrightarrow> hex_nibbles n x ! k = x div 16 ^ (n - Suc k) mod 16"
proof (induction n arbitrary: x k)
  case 0
  then show ?case by simp
next
  case (Suc n)
  show ?case
  proof (cases "k < n")
    case True
    then have "(16::nat) ^ (n - k) = 16 * 16 ^ (n - Suc k)"
      by (simp add: Suc_diff_Suc [symmetric])
    then have "x div 16 div 16 ^ (n - Suc k) = x div 16 ^ (Suc n - Suc k)"
      by (simp add: div_mult2_eq)
    with True Suc.IH [of k "x div 16"] show ?thesis
      by (simp add: nth_append)
  next
    case False
    with Suc.prems have "k = n" by simp
    then show ?thesis by (simp add: nth_append)
  qed
qed

lemma hex_nibbles_lt: "d \<in> set (hex_nibbles n x) \<Longrightarrow> d < 16"
  by (induction n arbitrary: x) auto

lemma hex_acc_append:
  "hex_acc a (xs @ ys) = (case hex_acc a xs of None \<Rightarrow> None | Some b \<Rightarrow> hex_acc b ys)"
  by (induction a xs rule: hex_acc.induct) (simp_all split: option.splits)

lemma hex_acc_nibbles:
  "hex_acc a (map (\<lambda>d. hex_digits ! d) (hex_nibbles n x)) = Some (a * 16 ^ n + x mod 16 ^ n)"
proof (induction n arbitrary: x)
  case 0
  then show ?case by simp
next
  case (Suc n)
  have "x mod (16 * 16 ^ n) = 16 * (x div 16 mod 16 ^ n) + x mod 16"
    by (rule mod_mult2_eq)
  then show ?case
    using Suc.IH [of "x div 16"] by (simp add: hex_acc_append hex_val_hex_digit algebra_simps)
qed

lemma length_uuid_hex [simp]: "length (uuid_hex w) = 32"
  by (simp add: uuid_hex_def)

lemma hex_digits_no_hyphen: "d < 16 \<Longrightarrow> hex_digits ! d \<noteq> CHR ''-''"
proof -
  assume "d < 16"
  then have "hex_digits ! d \<in> set hex_digits"
    by (intro nth_mem) (simp add: hex_digits_def)
  moreover have "CHR ''-'' \<notin> set hex_digits"
    by (simp add: hex_digits_def)
  ultimately show ?thesis
    by metis
qed

subsection \<open>Reading the digits back\<close>

lemma take_drop_8_4_4_4:
  "take 8 h @ take 4 (drop 8 h) @ take 4 (drop 12 h) @ take 4 (drop 16 h) @ drop 20 h = h"
proof -
  have "take 4 (drop 16 h) @ drop 20 h = drop 16 h"
    using append_take_drop_id [of 4 "drop 16 h"] by simp
  moreover have "take 4 (drop 12 h) @ drop 16 h = drop 12 h"
    using append_take_drop_id [of 4 "drop 12 h"] by simp
  moreover have "take 4 (drop 8 h) @ drop 12 h = drop 8 h"
    using append_take_drop_id [of 4 "drop 8 h"] by simp
  ultimately show ?thesis
    by simp
qed

lemma filter_uuid_str: "filter (\<lambda>c. c \<noteq> CHR ''-'') (uuid_str w) = uuid_hex w"
proof -
  let ?h = "uuid_hex w" and ?P = "\<lambda>c. c \<noteq> CHR ''-''"
  have "filter ?P (uuid_str w) =
          filter ?P (take 8 ?h @ take 4 (drop 8 ?h) @ take 4 (drop 12 ?h) @ take 4 (drop 16 ?h) @ drop 20 ?h)"
    by (simp add: uuid_str_def Let_def)
  also have "\<dots> = filter ?P ?h"
    by (simp only: take_drop_8_4_4_4)
  also have "\<dots> = ?h"
    using hex_digits_no_hyphen hex_nibbles_lt by (auto simp: uuid_hex_def filter_True)
  finally show ?thesis .
qed

lemma uuid_hex_value: "hex_acc 0 (uuid_hex w) = Some (unat w)"
proof -
  have "unat w < 16 ^ 32"
    using unsigned_less [of w] by simp
  then show ?thesis
    by (simp add: uuid_hex_def hex_acc_nibbles)
qed

text \<open>C37: \<open>str\<close> of a UUID determines it: two UUIDs print the same exactly when they
  are equal, so the URL prefixes of two Dash apps differ whenever their UUIDs do.\<close>

theorem uuid_str_inj: "uuid_str v = uuid_str w \<longleftrightarrow> v = w"
proof
  assume "uuid_str v = uuid_str w"
  then have "hex_acc 0 (uuid_hex v) = hex_acc 0 (uuid_hex w)"
    by (metis filter_uuid_str)
  then show "v = w"
    by (simp add: uuid_hex_value word_unat_eq_iff)
qed simp

lemma uuid_str_nth_hex:
  "uuid_str w ! 14 = uuid_hex w ! 12" "uuid_str w ! 19 = uuid_hex w ! 16"
  "length (uuid_str w) = 36"
  by (simp_all add: uuid_str_def Let_def nth_append)

lemma uuid_hex_nth: "k < 32 \<Longrightarrow> uuid_hex w ! k = hex_digits ! (unat w div 16 ^ (31 - k) mod 16)"
  by (simp add: uuid_hex_def nth_hex_nibbles)

subsection \<open>The version and variant bits\<close>

lemma nibble_unat:
  "unat w div 2 ^ k mod 16 = unat (take_bit 4 (drop_bit k w))"
proof -
  have "unat (take_bit 4 (drop_bit k w)) = take_bit 4 (drop_bit k (unat w))"
    by (simp only: unsigned_take_bit_eq unat_drop_bit_eq)
  then show ?thesis
    by (simp add: take_bit_eq_mod drop_bit_eq_div)
qed

lemma uuid4_version: "unat (uuid4_int bs) div 16 ^ 19 mod 16 = 4"
proof -
  have "take_bit 4 (drop_bit 76 (uuid4_int bs)) = 4"
    unfolding uuid4_int_def Let_def by (rule bit_word_eqI) (auto simp add: bit_simps)
  then show ?thesis
    using nibble_unat [of "uuid4_int bs" 76] by simp
qed

lemma uuid4_variant: "unat (uuid4_int bs) div 16 ^ 15 mod 16 \<in> {8, 9, 10, 11}"
proof -
  let ?w = "uuid4_int bs"
  have "drop_bit 2 (take_bit 4 (drop_bit 60 ?w)) = 2"
    unfolding uuid4_int_def Let_def by (rule bit_word_eqI) (auto simp add: bit_simps)
  then have "unat (take_bit 4 (drop_bit 60 ?w)) div 4 = 2"
    using unat_drop_bit_eq [of 2 "take_bit 4 (drop_bit 60 ?w)"] by (simp add: drop_bit_eq_div)
  then have hi: "unat ?w div 2 ^ 60 mod 16 div 4 = 2"
    using nibble_unat [of ?w 60] by simp
  have "(y::nat) div 4 = 2 \<Longrightarrow> y = 8 \<or> y = 9 \<or> y = 10 \<or> y = 11" for y
    by presburger
  with hi have "unat ?w div 2 ^ 60 mod 16 \<in> {8, 9, 10, 11}"
    by auto
  then show ?thesis
    by simp
qed

text \<open>C36: the text of a \<open>uuid4()\<close>, whatever the random bytes: 36 characters, hyphens
  at positions 8, 13, 18 and 23, the version digit \<open>4\<close> at position 14 and a variant digit
  \<open>8\<close>, \<open>9\<close>, \<open>a\<close> or \<open>b\<close> at position 19.\<close>

theorem uuid4_str_shape:
  "length (uuid_str (uuid4_int bs)) = 36 \<and>
   map (\<lambda>i. uuid_str (uuid4_int bs) ! i) [8, 13, 18, 23] = ''----'' \<and>
   uuid_str (uuid4_int bs) ! 14 = CHR ''4'' \<and> uuid_str (uuid4_int bs) ! 19 \<in> set ''89ab''"
proof -
  let ?w = "uuid4_int bs"
  have v: "uuid_str ?w ! 14 = CHR ''4''"
    using uuid4_version [of bs] by (simp add: uuid_str_nth_hex uuid_hex_nth hex_digits_def)
  have "uuid_str ?w ! 19 \<in> set ''89ab''"
    using uuid4_variant [of bs] by (auto simp: uuid_str_nth_hex uuid_hex_nth hex_digits_def)
  with v show ?thesis
    by (simp add: uuid_str_nth_hex uuid_str_def Let_def nth_append)
qed
end
