(* ===== verification/Routes.thy ===== *)
theory Routes
  imports Server DashPage Uuid
begin

text \<open>
  The server as a browser reaches it: \<open>create_app\<close> (app.py lines 27 to 31 and 98 to 99)
  with its configuration, werkzeug's URL matching over the rules of the two Flask routes
  and of every registered Dash app, 404 for a path no rule matches and 405 for a method
  the rule does not allow, and the state Flask keeps across requests: the server of
  \<open>Server\<close>, the URL prefix of each Dash app and \<open>_got_first_request\<close>.

  \<open>/next\<close> calls \<open>uuid.uuid4()\<close> twice (line 57): the first gives the app's name, which
  nothing reads, the second its URL prefix \<open>"/" + str(uuid4()) + "/"\<close>; the random bytes
  of the second call are part of the request event. A Dash app serves its page at its
  prefix (GET) and its callback at \<open>prefix + "_dash-update-component"\<close> (POST).

  \<open>Dash(server=server)\<close> adds URL rules and request hooks to the Flask application; Flask
  releases whose setup methods check \<open>_got_first_request\<close> unconditionally (2.3 and later)
  raise \<open>AssertionError\<close> when this happens inside a request, since the flag is set when
  a request starts. The model takes that check as the parameter \<open>chk\<close>.
\<close>

subsection \<open>Configuration\<close>

record flask_config =
  secret_key :: string
  max_content_length :: nat

definition create_app_config :: flask_config where
  "create_app_config = \<lparr>secret_key = ''1234'', max_content_length = 5 * 1024\<rparr>"

subsection \<open>URL matching\<close>

datatype endpoint = EIndex | ENext | EDashIndex nat | EDashUpdate nat

definition flask_endpoint :: "string \<Rightarrow> endpoint option" where
  "flask_endpoint e = (if e = ''index'' then Some EIndex else if e = ''next'' then Some ENext else None)"

definition DASH_UPDATE :: string where
  "DASH_UPDATE = ''_dash-update-component''"

definition rule_methods :: "endpoint \<Rightarrow> http_method list" where
  "rule_methods e =
     (case e of EIndex \<Rightarrow> [GET, POST] | ENext \<Rightarrow> [GET, POST] | EDashIndex _ \<Rightarrow> [GET] | EDashUpdate _ \<Rightarrow> [POST])"

text \<open>The Flask rules first, then each app's page, then each app's callback; among apps
  with the same prefix the first registered one answers.\<close>

definition match_path :: "string list \<Rightarrow> string \<Rightarrow> endpoint option" where
  "match_path pfx p =
     (case find (\<lambda>(e, r). r = p) url_map of
        Some (e, _) \<Rightarrow> flask_endpoint e
      | None \<Rightarrow>
          (case find (\<lambda>k. pfx ! k = p) [0..<length pfx] of
             Some k \<Rightarrow> Some (EDashIndex k)
           | None \<Rightarrow> map_option EDashUpdate (find (\<lambda>k. pfx ! k @ DASH_UPDATE = p) [0..<length pfx])))"

subsection \<open>Requests\<close>

record 'f flask_state =
  fl_server :: "'f server"
  prefixes :: "string list"
  got_first_request :: bool

definition flask_init :: "'f flask_state" where
  "flask_init = \<lparr>fl_server = server_init, prefixes = [], got_first_request = False\<rparr>"

datatype 'b wire_response = WPage page | WCallback "'b tooltip py_result" | WStatus nat

fun wire_of :: "'b response \<Rightarrow> 'b wire_response" where
  "wire_of (HttpPage p) = WPage p"
| "wire_of (CallbackResponse r) = WCallback r"
| "wire_of NotFound = WStatus 404"

definition app_prefix :: "byte list \<Rightarrow> string" where
  "app_prefix rnd = ''/'' @ uuid_str (uuid4_int rnd) @ ''/''"

text \<open>\<open>next\<close>: read the session's table, then create the Dash app (which fails under the
  setup check), register it under its prefix and return its index page.\<close>

definition next_route ::
  "bool \<Rightarrow> 'f float_text \<Rightarrow> byte list \<Rightarrow> 'f flask_state \<Rightarrow> 'f flask_state \<times> page" where
  "next_route chk ft rnd fs =
     (case next_page ft (fl_server fs) of
        (st', DashIndex k) \<Rightarrow>
          if chk \<and> got_first_request fs then (fs, InternalError AssertionError)
          else (fs\<lparr>fl_server := st', prefixes := prefixes fs @ [app_prefix rnd]\<rparr>, DashIndex k)
      | (st', p) \<Rightarrow> (fs\<lparr>fl_server := st'\<rparr>, p))"

datatype 'b wire_event = Wire string request "'b hover_point list option" "byte list"

fun wire_step ::
  "bool \<Rightarrow> ('m, 'f::zero) chem \<Rightarrow> 'f float_text \<Rightarrow> 'f flask_state \<Rightarrow> 'b wire_event \<Rightarrow>
     'f flask_state \<times> 'b wire_response" where
  "wire_step chk tk ft fs (Wire p req hov rnd) =
     (let fs1 = fs\<lparr>got_first_request := True\<rparr> in
      case match_path (prefixes fs) p of
        None \<Rightarrow> (fs1, WStatus 404)
      | Some e \<Rightarrow>
          if req_method req \<notin> set (rule_methods e) then (fs1, WStatus 405)
          else
            (case e of
               EIndex \<Rightarrow>
                 (case server_step tk ft (fl_server fs1) (IndexRequest req) of
                    (st', r) \<Rightarrow> (fs1\<lparr>fl_server := st'\<rparr>, wire_of r))
             | ENext \<Rightarrow> (case next_route chk ft rnd fs1 of (fs2, pg) \<Rightarrow> (fs2, WPage pg))
             | EDashIndex k \<Rightarrow> (fs1, WPage (DashIndex k))
             | EDashUpdate k \<Rightarrow> (fs1, wire_of (snd (server_step tk ft (fl_server fs1) (HoverEvent k hov))))))"

text \<open>Reachable states; the hover data of a request changes nothing, so it is fixed.\<close>

inductive reachable_wire :: "bool \<Rightarrow> ('m, 'f::zero) chem \<Rightarrow> 'f float_text \<Rightarrow> 'f flask_state \<Rightarrow> bool"
  for chk tk ft where
  init: "reachable_wire chk tk ft flask_init"
| step: "reachable_wire chk tk ft fs \<Longrightarrow>
           reachable_wire chk tk ft (fst (wire_step chk tk ft fs (Wire p req (None :: unit hover_point list option) rnd)))"

subsection \<open>The invariant\<close>

text \<open>One prefix per app, each 38 characters long (a slash, a UUID, a slash), and no app
  at all under the setup check.\<close>

definition wire_inv :: "bool \<Rightarrow> 'f flask_state \<Rightarrow> bool" where
  "wire_inv chk fs \<longleftrightarrow>
     length (prefixes fs) = length (apps (fl_server fs)) \<and> list_all (\<lambda>x. length x = 38) (prefixes fs) \<and>
     (chk \<longrightarrow> apps (fl_server fs) = [])"

lemma length_app_prefix [simp]: "length (app_prefix rnd) = 38"
  by (simp add: app_prefix_def uuid_str_nth_hex)

lemma next_page_cases:
  "(fst (next_page ft st) = st \<and> (\<forall>k. snd (next_page ft st) \<noteq> DashIndex k)) \<or>
   (snd (next_page ft st) = DashIndex (length (apps st)) \<and> session (fst (next_page ft st)) = session st \<and>
    length (apps (fst (next_page ft st))) = Suc (length (apps st)))"
  by (auto simp: next_page_def split: option.splits sum.splits)

lemma next_route_cases:
  "(fst (next_route chk ft rnd fs) = fs\<lparr>fl_server := fst (next_page ft (fl_server fs))\<rparr> \<and>
    fst (next_page ft (fl_server fs)) = fl_server fs) \<or>
   fst (next_route chk ft rnd fs) = fs \<or>
   (\<not> (chk \<and> got_first_request fs) \<and>
    fst (next_route chk ft rnd fs) =
      fs\<lparr>fl_server := fst (next_page ft (fl_server fs)), prefixes := prefixes fs @ [app_prefix rnd]\<rparr> \<and>
    snd (next_page ft (fl_server fs)) = DashIndex (length (apps (fl_server fs))) \<and>
    length (apps (fst (next_page ft (fl_server fs)))) = Suc (length (apps (fl_server fs))))"
  using next_page_cases [of ft "fl_server fs"]
  by (auto simp: next_route_def split: prod.splits page.splits)

lemma wire_step_cases:
  "fst (wire_step chk tk ft fs (Wire p req hov rnd)) = fs\<lparr>got_first_request := True\<rparr> \<or>
   fst (wire_step chk tk ft fs (Wire p req hov rnd)) =
     fs\<lparr>got_first_request := True,
        fl_server := (fl_server fs)\<lparr>session := fst (index tk ft req (session (fl_server fs)))\<rparr>\<rparr> \<or>
   fst (wire_step chk tk ft fs (Wire p req hov rnd)) = fst (next_route chk ft rnd (fs\<lparr>got_first_request := True\<rparr>))"
  by (auto simp: Let_def case_prod_beta split: option.splits endpoint.splits if_splits)

lemma wire_inv_step:
  assumes "wire_inv chk fs"
  shows "wire_inv chk (fst (wire_step chk tk ft fs (Wire p req hov rnd)))"
proof -
  let ?fs1 = "fs\<lparr>got_first_request := True\<rparr>"
  have "wire_inv chk (fst (next_route chk ft rnd ?fs1))"
    using next_route_cases [of chk ft rnd ?fs1] assms by (auto simp: wire_inv_def)
  then show ?thesis
    using wire_step_cases [of chk tk ft fs p req hov rnd] assms by (auto simp: wire_inv_def)
qed

lemma reachable_wire_inv: "reachable_wire chk tk ft fs \<Longrightarrow> wire_inv chk fs"
proof (induction rule: reachable_wire.induct)
  case init
  show ?case by (simp add: wire_inv_def flask_init_def server_init_def)
next
  case (step fs p req rnd)
  from step.IH show ?case by (rule wire_inv_step)
qed

lemma reachable_wire_server: "reachable_wire chk tk ft fs \<Longrightarrow> reachable tk ft (fl_server fs)"
proof (induction rule: reachable_wire.induct)
  case init
  then show ?case by (simp add: flask_init_def reachable.init)
next
  case (step fs p req rnd)
  let ?fs1 = "fs\<lparr>got_first_request := True\<rparr>"
  have "reachable tk ft (fl_server (fst (next_route chk ft rnd ?fs1)))"
    using next_route_cases [of chk ft rnd ?fs1] step.IH reachable.next_step [OF step.IH]
    by auto
  then show ?case
    using wire_step_cases [of chk tk ft fs p req "None :: unit hover_point list option" rnd]
      step.IH reachable.index_step [OF step.IH, of req]
    by auto
qed

subsection \<open>Matching an app's routes\<close>

lemma url_map_no_match: "length p \<notin> {1, 5} \<Longrightarrow> find (\<lambda>(e, r). r = p) url_map = None"
  by (auto simp: url_map_def)

lemma find_upt_first: "k < n \<Longrightarrow> P k \<Longrightarrow> (\<forall>j<k. \<not> P j) \<Longrightarrow> find P [0..<n] = Some k"
  by (auto simp: find_Some_iff intro!: exI [of _ k])

text \<open>An app whose prefix no earlier app has is answered at its prefix and at its callback
  path.\<close>

lemma match_app_routes:
  assumes "list_all (\<lambda>x. length x = 38) pfx" and "k < length pfx" and "\<forall>j<k. pfx ! j \<noteq> pfx ! k"
  shows "match_path pfx (pfx ! k) = Some (EDashIndex k)"
    and "match_path pfx (pfx ! k @ DASH_UPDATE) = Some (EDashUpdate k)"
proof -
  have len1: "length (pfx ! k) = 38"
    using assms(1,2) by (simp add: list_all_length)
  then have len2: "length (pfx ! k @ DASH_UPDATE) = 60"
    by (simp add: DASH_UPDATE_def)
  note len = len1 len2
  have "pfx ! j \<noteq> pfx ! k @ DASH_UPDATE" if "j < length pfx" for j
  proof -
    have "length (pfx ! j) = 38"
      using assms(1) that by (simp add: list_all_length)
    then show ?thesis
      using len(2) by auto
  qed
  then have "find (\<lambda>j. pfx ! j = pfx ! k @ DASH_UPDATE) [0..<length pfx] = None"
    by (simp add: find_None_iff)
  then show "match_path pfx (pfx ! k) = Some (EDashIndex k)"
    and "match_path pfx (pfx ! k @ DASH_UPDATE) = Some (EDashUpdate k)"
    using len url_map_no_match find_upt_first [OF assms(2), of "\<lambda>j. pfx ! j = pfx ! k"]
      find_upt_first [OF assms(2), of "\<lambda>j. pfx ! j @ DASH_UPDATE = pfx ! k @ DASH_UPDATE"] assms(3)
    by (simp_all add: match_path_def)
qed

lemma distinct_first: "distinct xs \<Longrightarrow> k < length xs \<Longrightarrow> \<forall>j<k. xs ! j \<noteq> xs ! k"
  by (simp add: nth_eq_iff_index_eq)

text \<open>An accepted upload whose lines all parse stores the text of the computed table.\<close>

lemma index_accepted_text:
  assumes "\<not> body_too_large req" and "validated_upload req = Some u"
    and "list_all (row_ok tk) (read_csv (content u))"
  obtains df where "ingest tk (read_csv (content u)) = Inr df"
    and "index tk ft req s = (s\<lparr>sess_data := Some (to_json_text (dtoa ft) df)\<rparr>, Redirect ''/next'')"
proof -
  obtain df where ing: "ingest tk (read_csv (content u)) = Inr df"
    using ingest_spec_total [OF assms(3), of 0] by (auto simp: ingest_unfold)
  then show ?thesis
    using that assms(1,2) by (simp add: index_def)
qed

lemma validated_upload_POST: "validated_upload req = Some u \<Longrightarrow> req_method req = POST"
  by (simp add: validated_upload_def validate_on_submit_def split: if_splits)

subsection \<open>An example run over the wire\<close>

definition demo_get :: request where
  "demo_get = \<lparr>req_method = GET, req_file = None, csrf_valid = False, content_length = 0\<rparr>"

definition demo_rnd :: "byte list" where
  "demo_rnd = replicate 16 0"

definition demo_wire_upload :: "bool \<Rightarrow> int flask_state" where
  "demo_wire_upload chk =
     fst (wire_step chk example_chem int_text flask_init
            (Wire ''/'' demo_upload (None :: unit hover_point list option) demo_rnd))"

definition demo_wire :: "bool \<Rightarrow> int flask_state" where
  "demo_wire chk =
     fst (wire_step chk example_chem int_text (demo_wire_upload chk)
            (Wire ''/next'' demo_get (None :: unit hover_point list option) demo_rnd))"

lemma demo_wire_upload_eval:
  "demo_wire_upload chk =
     \<lparr>fl_server = (server_init :: int server)\<lparr>session :=
        fst (index example_chem int_text demo_upload (session (server_init :: int server)))\<rparr>,
      prefixes = [], got_first_request = True\<rparr>"
  using validated_upload_POST [OF demo_upload_eval(2)]
  by (simp add: demo_wire_upload_def flask_init_def match_path_def url_map_def flask_endpoint_def
                rule_methods_def server_init_def case_prod_beta)

lemma demo_next_page:
  "next_page int_text ((server_init :: int server)\<lparr>session :=
      fst (index example_chem int_text demo_upload (session (server_init :: int server)))\<rparr>) =
     (demo_state, DashIndex 0)"
proof -
  have "map (round_row id) demo_frame = demo_frame"
    by (simp add: demo_frame_def round_row_def)
  then show ?thesis
    using demo_upload_eval
      read_json_text_eq [OF text_ok_frame_floats_ok [OF int_text_ok], of demo_frame]
    by (simp add: demo_state_def index_def next_page_def server_init_def)
qed

lemma demo_wire_eval:
  "fl_server (demo_wire False) = demo_state"
  "prefixes (demo_wire False) = [app_prefix demo_rnd]"
  using demo_next_page
  by (simp_all add: demo_wire_def demo_wire_upload_eval match_path_def url_map_def flask_endpoint_def
                    rule_methods_def demo_get_def next_route_def server_init_def case_prod_beta)

lemma demo_wire_reachable: "reachable_wire chk example_chem int_text (demo_wire chk)"
  unfolding demo_wire_def demo_wire_upload_def
  by (intro reachable_wire.step reachable_wire.init)

subsection \<open>Properties of the server over the wire\<close>

text \<open>C38: in every reachable state, a POST to the callback path of a registered app whose
  prefix no other app has, carrying a hover over its point \<open>i\<close>, is answered with the
  tooltip showing the molecule of row \<open>i\<close> of that app's table.\<close>

theorem wire_hover_renders_row:
  assumes "reachable_wire chk tk ft fs" and "text_ok ft" and "distinct (prefixes fs)"
    and "k < length (apps (fl_server fs))" and "i < length (app_df (apps (fl_server fs) ! k))"
    and "pointNumber pt = int i" and "req_method req = POST"
  shows "\<exists>s m. SMILES (app_df (apps (fl_server fs) ! k) ! i) = Str s \<and> MolFromSmiles tk s = Some m \<and>
           wire_step chk tk ft fs (Wire (prefixes fs ! k @ DASH_UPDATE) req (Some (pt # pts)) rnd) =
             (fs\<lparr>got_first_request := True\<rparr>,
              WCallback (Inr (True, Upd (bbox pt), Upd [Div [Img (img_src (MolToImage tk m))]])))"
proof -
  have inv: "wire_inv chk fs"
    using assms(1) by (rule reachable_wire_inv)
  then have k: "k < length (prefixes fs)"
    using assms(4) by (simp add: wire_inv_def)
  have m: "match_path (prefixes fs) (prefixes fs ! k @ DASH_UPDATE) = Some (EDashUpdate k)"
    using inv k distinct_first [OF assms(3) k] by (intro match_app_routes(2)) (simp_all add: wire_inv_def)
  obtain s m where row: "SMILES (app_df (apps (fl_server fs) ! k) ! i) = Str s" and mol: "MolFromSmiles tk s = Some m"
    using reachable_app_row [OF reachable_wire_server [OF assms(1)] assms(2,4,5)] by blast
  have "display_hover tk (app_df (apps (fl_server fs) ! k)) (Some (pt # pts)) =
          Inr (True, Upd (bbox pt), Upd [Div [Img (img_src (MolToImage tk m))]])"
    using assms(5,6) row mol by (rule display_hover_at)
  then show ?thesis
    using row mol m assms(4,7) by (simp add: rule_methods_def hover_callback_def)
qed

lemma wire_hover_renders_row_witness:
  "\<exists>s m. SMILES (app_df (apps (fl_server (demo_wire False)) ! 0) ! 1) = Str s \<and>
     MolFromSmiles example_chem s = Some m \<and>
     wire_step False example_chem int_text (demo_wire False)
       (Wire (prefixes (demo_wire False) ! 0 @ DASH_UPDATE) demo_upload (Some [\<lparr>bbox = (), pointNumber = 1\<rparr>]) demo_rnd) =
       ((demo_wire False)\<lparr>got_first_request := True\<rparr>,
        WCallback (Inr (True, Upd (), Upd [Div [Img (img_src (MolToImage example_chem m))]])))"
proof -
  have d: "distinct (prefixes (demo_wire False))"
    by (simp add: demo_wire_eval)
  have k: "0 < length (apps (fl_server (demo_wire False)))"
    by (simp add: demo_wire_eval demo_state_eval)
  have i: "1 < length (app_df (apps (fl_server (demo_wire False)) ! 0))"
    by (simp add: demo_wire_eval demo_state_eval demo_frame_def)
  show ?thesis
    using wire_hover_renders_row [OF demo_wire_reachable int_text_ok d k i _ validated_upload_POST [OF demo_upload_eval(2)],
                                  of "\<lparr>bbox = (), pointNumber = 1\<rparr>" "[]" demo_rnd]
    by simp
qed

text \<open>C39: under Flask's setup check, \<open>/next\<close> on a session holding a table that reads
  back answers 500 (\<open>AssertionError\<close> from \<open>Dash(server=server)\<close>) and changes nothing,
  and no Dash app is ever registered: the plot page is never reachable.\<close>

theorem next_under_setup_check:
  assumes "reachable_wire True tk ft fs" and "sess_data (session (fl_server fs)) = Some txt"
    and "read_json_text (strtod ft) txt = Inr df" and "req_method req = GET \<or> req_method req = POST"
  shows "wire_step True tk ft fs (Wire ''/next'' req hov rnd) =
           (fs\<lparr>got_first_request := True\<rparr>, WPage (InternalError AssertionError)) \<and>
         apps (fl_server fs) = [] \<and> prefixes fs = []"
proof -
  have "wire_inv True fs"
    using assms(1) by (rule reachable_wire_inv)
  then have none: "apps (fl_server fs) = [] \<and> prefixes fs = []"
    by (auto simp: wire_inv_def)
  have "match_path (prefixes fs) ''/next'' = Some ENext"
    by (simp add: match_path_def url_map_def flask_endpoint_def)
  then show ?thesis
    using none assms(2,3,4) by (auto simp: rule_methods_def next_route_def next_page_def)
qed

lemma next_under_setup_check_witness:
  "wire_step True example_chem int_text (demo_wire_upload True) (Wire ''/next'' demo_get (None :: unit hover_point list option) demo_rnd) =
     ((demo_wire_upload True)\<lparr>got_first_request := True\<rparr>, WPage (InternalError AssertionError)) \<and>
   apps (fl_server (demo_wire_upload True)) = [] \<and> prefixes (demo_wire_upload True) = []"
proof -
  have r: "reachable_wire True example_chem int_text (demo_wire_upload True)"
    unfolding demo_wire_upload_def by (intro reachable_wire.step reachable_wire.init)
  have s: "sess_data (session (fl_server (demo_wire_upload True))) = Some (to_json_text int_fmt demo_frame)"
    using demo_upload_eval by (simp add: demo_wire_upload_eval index_def server_init_def)
  have t: "read_json_text (strtod int_text) (to_json_text int_fmt demo_frame) = Inr (map (round_row id) demo_frame)"
    using read_json_text_eq [OF text_ok_frame_floats_ok [OF int_text_ok], of demo_frame] by simp
  have g: "req_method demo_get = GET \<or> req_method demo_get = POST"
    by (simp add: demo_get_def)
  show ?thesis
    by (rule next_under_setup_check [OF r s t g])
qed

text \<open>C40: without the setup check, from every reachable state an accepted upload whose
  lines all parse, followed by a GET of \<open>/next\<close> whose UUID is new, registers one more
  app, answered at its new prefix.\<close>

theorem upload_next_registers:
  assumes "reachable_wire False tk ft fs" and "text_ok ft"
    and "\<not> body_too_large req" and "validated_upload req = Some u"
    and "list_all (row_ok tk) (read_csv (content u))"
    and "req_method req' = GET" and "app_prefix rnd \<notin> set (prefixes fs)"
  shows "let fs2 = fst (wire_step False tk ft (fst (wire_step False tk ft fs (Wire ''/'' req hov rnd0)))
                        (Wire ''/next'' req' hov' rnd))
         in length (apps (fl_server fs2)) = Suc (length (apps (fl_server fs))) \<and>
            match_path (prefixes fs2) (app_prefix rnd) = Some (EDashIndex (length (apps (fl_server fs))))"
proof -
  obtain df where ing: "ingest tk (read_csv (content u)) = Inr df"
    and idx: "index tk ft req (session (fl_server fs)) =
                ((session (fl_server fs))\<lparr>sess_data := Some (to_json_text (dtoa ft) df)\<rparr>, Redirect ''/next'')"
    using index_accepted_text [OF assms(3,4,5)] by blast
  have inv: "wire_inv False fs"
    using assms(1) by (rule reachable_wire_inv)
  let ?fs1 = "fs\<lparr>got_first_request := True,
                 fl_server := (fl_server fs)\<lparr>session := (session (fl_server fs))\<lparr>sess_data := Some (to_json_text (dtoa ft) df)\<rparr>\<rparr>\<rparr>"
  have s1: "fst (wire_step False tk ft fs (Wire ''/'' req hov rnd0)) = ?fs1"
    using idx validated_upload_POST [OF assms(4)]
    by (simp add: match_path_def url_map_def flask_endpoint_def rule_methods_def case_prod_beta)
  have rd: "read_json_text (strtod ft) (to_json_text (dtoa ft) df) = Inr (map (round_row (read_back ft)) df)"
    by (rule read_json_text_eq [OF text_ok_frame_floats_ok [OF assms(2)]])
  let ?pfx = "prefixes fs @ [app_prefix rnd]"
  have s2: "fst (wire_step False tk ft ?fs1 (Wire ''/next'' req' hov' rnd)) =
              ?fs1\<lparr>fl_server := fst (next_page ft (fl_server ?fs1)), prefixes := ?pfx\<rparr>"
    using rd assms(6) by (simp add: match_path_def url_map_def flask_endpoint_def rule_methods_def next_route_def next_page_def)
  have len: "length (prefixes fs) = length (apps (fl_server fs))"
    using inv by (simp add: wire_inv_def)
  have all: "list_all (\<lambda>x. length x = 38) ?pfx"
    using inv by (simp add: wire_inv_def)
  have fresh: "\<forall>j<length (prefixes fs). ?pfx ! j \<noteq> ?pfx ! length (prefixes fs)"
    using assms(7) by (auto simp: nth_append) (metis nth_mem)
  have "match_path ?pfx (?pfx ! length (prefixes fs)) = Some (EDashIndex (length (prefixes fs)))"
    using all fresh by (intro match_app_routes(1)) simp_all
  then have m: "match_path ?pfx (app_prefix rnd) = Some (EDashIndex (length (apps (fl_server fs))))"
    by (simp add: len [symmetric])
  show ?thesis
    unfolding Let_def s1 s2 using m rd by (simp add: next_page_def)
qed

lemma upload_next_registers_witness:
  "let fs2 = fst (wire_step False example_chem int_text
                   (fst (wire_step False example_chem int_text flask_init
                          (Wire ''/'' demo_upload (None :: unit hover_point list option) demo_rnd)))
                   (Wire ''/next'' demo_get (None :: unit hover_point list option) demo_rnd))
   in length (apps (fl_server fs2)) = Suc (length (apps (fl_server (flask_init :: int flask_state)))) \<and>
      match_path (prefixes fs2) (app_prefix demo_rnd) = Some (EDashIndex (length (apps (fl_server (flask_init :: int flask_state)))))"
proof -
  have ok: "list_all (row_ok example_chem) (read_csv (content \<lparr>filename = ''mols.TXT'', content = demo_content\<rparr>))"
    using demo_upload_eval by (simp add: demo_content_def demo_eval_defs row_ok_def descriptors_def)
  have g: "req_method demo_get = GET"
    by (simp add: demo_get_def)
  have f: "app_prefix demo_rnd \<notin> set (prefixes (flask_init :: int flask_state))"
    by (simp add: flask_init_def)
  show ?thesis
    using upload_next_registers [OF reachable_wire.init int_text_ok demo_upload_eval(1,2) ok g f,
                                 of "None :: unit hover_point list option" demo_rnd "None :: unit hover_point list option"]
    by simp
qed

end
