(* ===== verification/CookieCodec.thy ===== *)
theory CookieCodec
  imports Uuid Base64 "HOL-Library.List_Lexorder" "HOL-Library.Char_ord"
begin

text \<open>
  The text of Flask's session cookie, which holds what \<open>index\<close> stores in
  \<open>session["data"]\<close> (app.py line 49) between the upload and \<open>/next\<close>. Flask's
  \<open>SecureCookieSessionInterface\<close> serialises the session dict with its tagged JSON
  serializer (for a dict of strings: Python's \<open>json.dumps\<close> with sorted keys, no spaces
  and ASCII escapes, \<open>py_dumps_dict\<close>) and signs it with itsdangerous'
  \<open>URLSafeTimedSerializer\<close>: the JSON bytes, zlib-compressed when that is shorter
  (then marked by a leading dot), in URL-safe base64 without padding
  (\<open>dump_payload\<close>), a dot, the base64 of the time stamp, a dot, and the base64 of the
  HMAC-SHA1 signature of everything before it (\<open>timestamp_sign\<close>). Reading it back
  (\<open>cookie_loads\<close>) checks the signature and the age (31 days), then decodes the payload.

  zlib and the keyed HMAC are parameters (\<open>crypto\<close>) with the one property used: zlib
  decompresses what it compressed. The JSON reader is the decoder of \<open>JsonText\<close>, which
  reads the documents Python writes here the way Python's \<open>json.loads\<close> does.
\<close>

subsection \<open>Python's \<open>json.dumps\<close> of a dict of strings\<close>

text \<open>\<open>py_encode_basestring_ascii\<close>: quote and backslash escaped, the five short escapes,
  every other character outside space to tilde as \<open>\u00XX\<close>; the slash is left alone.\<close>

definition py_escape_char :: "char \<Rightarrow> string" where
  "py_escape_char c =
     (if c = QUOTE then [BSLASH, QUOTE]
      else if c = BSLASH then [BSLASH, BSLASH]
      else if c = LF then [BSLASH, CHR ''n'']
      else if c = CR then [BSLASH, CHR ''r'']
      else if c = CHR 0x09 then [BSLASH, CHR ''t'']
      else if c = CHR 0x08 then [BSLASH, CHR ''b'']
      else if c = CHR 0x0C then [BSLASH, CHR ''f'']
      else if of_char c < (0x20::nat) \<or> (0x7F::nat) \<le> of_char c then
        [BSLASH, CHR ''u'', CHR ''0'', CHR ''0'',
         hex_digits ! (of_char c div 16), hex_digits ! (of_char c mod 16)]
      else [c])"

definition py_json_str :: "string \<Rightarrow> string" where
  "py_json_str s = QUOTE # concat (map py_escape_char s) @ [QUOTE]"

definition py_member :: "string \<times> string \<Rightarrow> string" where
  "py_member kv = py_json_str (fst kv) @ CHR '':'' # py_json_str (snd kv)"

text \<open>\<open>json.dumps(d, separators=(",", ":"), sort_keys=True)\<close>.\<close>

definition py_dumps_dict :: "(string \<times> string) list \<Rightarrow> string" where
  "py_dumps_dict kvs = CHR ''{'' # commas (map py_member (sort_key fst kvs)) @ ''}''"

subsection \<open>itsdangerous\<close>

definition bytes_of :: "string \<Rightarrow> byte list" where
  "bytes_of s = map (\<lambda>c. of_nat (of_char c)) s"

definition chars_of :: "byte list \<Rightarrow> string" where
  "chars_of bs = map (\<lambda>b. char_of (unat b)) bs"

text \<open>\<open>base64_encode\<close>: \<open>urlsafe_b64encode\<close> (\<open>+\<close> and \<open>/\<close> become \<open>-\<close> and \<open>_\<close>) with the
  padding stripped; \<open>base64_decode\<close> pads back to a multiple of four. Python's decoder
  skips characters outside the alphabet where this one fails; the two agree on every
  text the encoder writes.\<close>

definition url_char :: "char \<Rightarrow> char" where
  "url_char c = (if c = CHR ''+'' then CHR ''-'' else if c = CHR ''/'' then CHR ''_'' else c)"

definition url_unchar :: "char \<Rightarrow> char" where
  "url_unchar c = (if c = CHR ''-'' then CHR ''+'' else if c = CHR ''_'' then CHR ''/'' else c)"

definition rstrip_pad :: "string \<Rightarrow> string" where
  "rstrip_pad s = rev (dropWhile (\<lambda>c. c = CHR ''='') (rev s))"

definition b64url :: "byte list \<Rightarrow> string" where
  "b64url bs = rstrip_pad (map url_char (b64encode bs))"

definition b64url_decode :: "string \<Rightarrow> byte list option" where
  "b64url_decode s = b64decode (map url_unchar s @ replicate ((4 - length s mod 4) mod 4) (CHR ''=''))"

text \<open>\<open>int_to_bytes\<close>: the shortest big-endian bytes, one byte for zero.\<close>

function nat_bytes :: "nat \<Rightarrow> byte list" where
  "nat_bytes n = (if n < 256 then [of_nat n] else nat_bytes (n div 256) @ [of_nat (n mod 256)])"
  by pat_completeness auto
termination by (relation "measure id") auto

declare nat_bytes.simps [simp del]

record crypto =
  zlib_compress :: "byte list \<Rightarrow> byte list"
  zlib_decompress :: "byte list \<Rightarrow> byte list option"
  hmac_sha1 :: "byte list \<Rightarrow> byte list"

definition crypto_ok :: "crypto \<Rightarrow> bool" where
  "crypto_ok cr \<longleftrightarrow> (\<forall>bs. zlib_decompress cr (zlib_compress cr bs) = Some bs)"

definition SEP :: char where
  "SEP = CHR ''.''"

text \<open>\<open>URLSafeSerializerMixin.dump_payload\<close>.\<close>

definition dump_payload :: "crypto \<Rightarrow> (string \<times> string) list \<Rightarrow> string" where
  "dump_payload cr kvs =
     (let j = bytes_of (py_dumps_dict kvs); c = zlib_compress cr j
      in if length c < length j - 1 then SEP # b64url c else b64url j)"

text \<open>\<open>TimestampSigner.sign\<close>.\<close>

definition timestamp_sign :: "crypto \<Rightarrow> nat \<Rightarrow> string \<Rightarrow> string" where
  "timestamp_sign cr ts value =
     (let v = value @ SEP # b64url (nat_bytes ts) in v @ SEP # b64url (hmac_sha1 cr (bytes_of v)))"

definition cookie_dumps :: "crypto \<Rightarrow> nat \<Rightarrow> (string \<times> string) list \<Rightarrow> string" where
  "cookie_dumps cr ts kvs = timestamp_sign cr ts (dump_payload cr kvs)"

text \<open>\<open>bytes.rsplit(sep, 1)\<close>.\<close>

definition rsplit1 :: "char \<Rightarrow> string \<Rightarrow> (string \<times> string) option" where
  "rsplit1 c s =
     (if c \<in> set s then Some (rev (tl (dropWhile (\<lambda>x. x \<noteq> c) (rev s))), rev (takeWhile (\<lambda>x. x \<noteq> c) (rev s)))
      else None)"

datatype cookie_error = BadSignature | SignatureExpired | BadPayload

text \<open>Flask's \<open>permanent_session_lifetime\<close>, 31 days, is the \<open>max_age\<close> of every load.\<close>

definition MAX_AGE :: nat where
  "MAX_AGE = 31 * 24 * 60 * 60"

text \<open>\<open>TimestampSigner.unsign\<close> with \<open>max_age\<close>: the signature (a signature that does not
  decode does not verify), then the time stamp, then the age; every failure is a
  \<open>BadSignature\<close> (\<open>SignatureExpired\<close> for the age).\<close>

definition timestamp_unsign :: "crypto \<Rightarrow> nat \<Rightarrow> string \<Rightarrow> cookie_error + string" where
  "timestamp_unsign cr now sv =
     (case rsplit1 SEP sv of
        None \<Rightarrow> Inl BadSignature
      | Some (value, sig) \<Rightarrow>
          if b64url_decode sig \<noteq> Some (hmac_sha1 cr (bytes_of value)) then Inl BadSignature
          else
            (case rsplit1 SEP value of
               None \<Rightarrow> Inl BadSignature
             | Some (payload, tsb) \<Rightarrow>
                 (case b64url_decode tsb of
                    None \<Rightarrow> Inl BadSignature
                  | Some bs \<Rightarrow>
                      if MAX_AGE < now - int_from_bytes bs \<or> now < int_from_bytes bs
                      then Inl SignatureExpired else Inr payload)))"

text \<open>\<open>URLSafeSerializerMixin.load_payload\<close> and the JSON reader.\<close>

definition load_payload :: "crypto \<Rightarrow> string \<Rightarrow> cookie_error + unit json" where
  "load_payload cr payload =
     (let (zipped, p) = (case payload of c # r \<Rightarrow> if c = SEP then (True, r) else (False, payload) | [] \<Rightarrow> (False, []))
      in case b64url_decode p of
           None \<Rightarrow> Inl BadPayload
         | Some bs \<Rightarrow>
             (case (if zipped then zlib_decompress cr bs else Some bs) of
                None \<Rightarrow> Inl BadPayload
              | Some j \<Rightarrow> (case loads (\<lambda>_. Some ()) (chars_of j) of Inl _ \<Rightarrow> Inl BadPayload | Inr v \<Rightarrow> Inr v)))"

definition cookie_loads :: "crypto \<Rightarrow> nat \<Rightarrow> string \<Rightarrow> cookie_error + unit json" where
  "cookie_loads cr now s = (case timestamp_unsign cr now s of Inl e \<Rightarrow> Inl e | Inr p \<Rightarrow> load_payload cr p)"

subsection \<open>Reading back what \<open>json.dumps\<close> writes\<close>

lemma decode_string_py_escape:
  "decode_string (py_escape_char c @ rest) = str_cons c (decode_string rest)"
proof -
  consider (q) "c = QUOTE" | (b) "c = BSLASH" | (bs) "c = CHR 0x08"
    | (ff) "c = CHR 0x0C" | (lf) "c = LF" | (cr) "c = CR" | (tab) "c = CHR 0x09"
    | (u) "c \<notin> {QUOTE, BSLASH, CHR 0x08, CHR 0x0C, LF, CR, CHR 0x09}"
          "of_char c < (0x20::nat) \<or> (0x7F::nat) \<le> of_char c"
    | (plain) "c \<notin> {QUOTE, BSLASH, CHR 0x08, CHR 0x0C, LF, CR, CHR 0x09}"
          "\<not> (of_char c < (0x20::nat) \<or> (0x7F::nat) \<le> of_char c)"
    by blast
  then show ?thesis
  proof cases
    case u
    let ?h = "(of_char c :: nat) div 16" and ?l = "(of_char c :: nat) mod 16"
    have h: "?h < 16" and l: "?l < 16"
      using nat_of_char_less_256 [of c] by (simp_all add: div_less_iff_less_mult)
    have "hex_acc 0 [CHR ''0'', CHR ''0'', hex_digits ! ?h, hex_digits ! ?l] = Some (16 * ?h + ?l)"
      using hex_val_hex_digit [OF h] hex_val_hex_digit [OF l] by (simp add: hex_val_zero)
    moreover have "16 * ?h + ?l = of_char c" by simp
    ultimately show ?thesis
      using u by (simp add: py_escape_char_def BSLASH_def QUOTE_def)
  next
    case plain
    then have "c \<noteq> CHR 0x00" by auto
    with plain show ?thesis by (simp add: py_escape_char_def)
  qed (simp_all add: py_escape_char_def unescape_def QUOTE_def BSLASH_def SLASH_def LF_def CR_def)
qed

lemma decode_py_string:
  "decode_string (concat (map py_escape_char s) @ QUOTE # rest) = Inr (s, rest)"
  by (induction s) (simp_all add: decode_string_py_escape)

lemma skip_ws_QUOTE [simp]: "skip_ws (QUOTE # s) = QUOTE # s"
  by (simp add: skip_ws_def json_ws_def QUOTE_def LF_def CR_def)

lemma decode_any_py_str:
  "decode_any (Suc n) rd d (py_json_str v @ rest) = Some (Inr (JStr v, rest))"
  by (simp add: py_json_str_def decode_py_string)

lemma decode_py_members:
  assumes "kvs \<noteq> []" and "distinct (map fst acc @ map fst kvs)"
    and "2 * length (commas (map py_member kvs)) < m"
  shows "decode_object (Suc m) rd d acc (commas (map py_member kvs) @ CHR ''}'' # rest) =
           Some (Inr (JObj (acc @ map (\<lambda>(k, v). (k, JStr v)) kvs), rest))"
  using assms
proof (induction kvs arbitrary: acc m)
  case Nil
  then show ?case by simp
next
  case (Cons kv kvs)
  obtain k v where kv: "kv = (k, v)" by fastforce
  let ?tail = "(if kvs = [] then [] else CHR '','' # commas (map py_member kvs)) @ CHR ''}'' # rest"
  have enc: "commas (map py_member (kv # kvs)) @ CHR ''}'' # rest =
               QUOTE # concat (map py_escape_char k) @ QUOTE # CHR '':'' # py_json_str v @ ?tail"
    by (simp add: kv commas_Cons_append py_member_def py_json_str_def)
  obtain m1 where m1: "m = Suc m1"
    using Cons.prems(3) by (cases m) auto
  have val: "decode_any m rd d (py_json_str v @ ?tail) = Some (Inr (JStr v, ?tail))"
    unfolding m1 by (rule decode_any_py_str)
  have fresh: "k \<notin> set (map fst acc)"
    using Cons.prems(2) kv by auto
  show ?case
  proof (cases "kvs = []")
    case True
    with val fresh show ?thesis
      unfolding enc by (simp add: kv decode_py_string expect_char_def pbind_def dict_set_fresh)
  next
    case False
    have "length (commas (map py_member (kv # kvs))) =
            length (py_member kv) + Suc (length (commas (map py_member kvs)))"
      using False by (simp add: length_commas_Cons_ne)
    then obtain m' where m: "m = Suc m'" and m': "2 * length (commas (map py_member kvs)) < m'"
      using Cons.prems(3) by (cases m) (auto simp: kv py_member_def py_json_str_def)
    have rest: "decode_object m rd d (acc @ [(k, JStr v)]) (commas (map py_member kvs) @ CHR ''}'' # rest) =
                  Some (Inr (JObj ((acc @ [(k, JStr v)]) @ map (\<lambda>(k, v). (k, JStr v)) kvs), rest))"
      unfolding m by (rule Cons.IH) (use False Cons.prems kv m' in auto)
    from val fresh False rest show ?thesis
      unfolding enc by (simp add: kv decode_py_string expect_char_def pbind_def dict_set_fresh)
  qed
qed

lemma loads_py_dumps_dict:
  assumes "distinct (map fst kvs)"
  shows "loads rd (py_dumps_dict kvs) = Inr (JObj (map (\<lambda>(k, v). (k, JStr v)) (sort_key fst kvs)))"
proof (cases "kvs = []")
  case True
  then show ?thesis
    by (simp add: loads_def py_dumps_dict_def skip_ws_def json_ws_def MAX_DEPTH_def numeral_eq_Suc
                  QUOTE_def LF_def CR_def decimal_digits_def)
next
  case False
  let ?s = "sort_key fst kvs"
  have d: "distinct (map fst ([] :: (string \<times> 'f json) list) @ map fst ?s)"
    using assms card_distinct [of "map fst ?s"] distinct_card [of "map fst kvs"]
    by (simp add: length_sort set_sort)
  have ne: "?s \<noteq> []"
    using False by (metis length_0_conv length_sort)
  let ?c = "commas (map py_member ?s)"
  have fuel: "2 * length (py_dumps_dict kvs) = Suc (Suc (Suc (2 * length ?c + 1)))"
    by (simp add: py_dumps_dict_def)
  have top: "decode_any (Suc (2 * length (py_dumps_dict kvs))) rd 0 (py_dumps_dict kvs) =
               decode_object (Suc (Suc (Suc (2 * length ?c + 1)))) rd 1 [] (?c @ CHR ''}'' # [])"
    unfolding fuel
    by (simp add: py_dumps_dict_def skip_ws_def json_ws_def MAX_DEPTH_def LF_def CR_def del: decode_object.simps)
  have "decode_object (Suc (Suc (Suc (2 * length ?c + 1)))) rd 1 [] (?c @ CHR ''}'' # []) =
          Some (Inr (JObj ([] @ map (\<lambda>(k, v). (k, JStr v)) ?s), []))"
    by (rule decode_py_members [OF ne d]) simp
  then show ?thesis
    by (simp add: loads_def top skip_ws_def del: decode_object.simps decode_any.simps)
qed

subsection \<open>Base64 without padding\<close>

lemma b64encode_length: "length (b64encode bs) = 4 * ((length bs + 2) div 3)"
proof (induction bs rule: b64encode.induct)
  case (4 a b c rest)
  have "(5 + length rest) div 3 = Suc ((length rest + 2) div 3)"
    by presburger
  with "4.IH" show ?case by simp
qed simp_all

lemma b64encode_body_pad:
  "\<exists>body k. b64encode bs = body @ replicate k (CHR ''='') \<and> set body \<subseteq> set b64_alphabet \<and> k \<le> 2"
proof (induction bs rule: b64encode.induct)
  case 1
  show ?case by (intro exI [of _ "[]"] exI [of _ 0]) simp
next
  case (2 a)
  show ?case
    by (intro exI [of _ "[b64_sym (drop_bit 2 a), b64_sym (push_bit 4 a)]"] exI [of _ 2])
       (simp add: b64_sym_in_alphabet numeral_eq_Suc)
next
  case (3 a b)
  show ?case
    by (intro exI [of _ "[b64_sym (drop_bit 2 a), b64_sym (push_bit 4 a OR drop_bit 4 b), b64_sym (push_bit 2 b)]"]
              exI [of _ 1])
       (simp add: b64_sym_in_alphabet)
next
  case (4 a b c rest)
  then obtain body k where "b64encode rest = body @ replicate k (CHR ''='')"
    and "set body \<subseteq> set b64_alphabet" and "k \<le> 2" by blast
  then show ?case
    by (intro exI [of _ "b64_sym (drop_bit 2 a) # b64_sym (push_bit 4 a OR drop_bit 4 b) #
                         b64_sym (push_bit 2 b OR drop_bit 6 c) # b64_sym c # body"] exI [of _ k])
       (simp add: b64_sym_in_alphabet)
qed

lemma url_char_alphabet: "c \<in> set b64_alphabet \<Longrightarrow> url_unchar (url_char c) = c \<and> url_char c \<noteq> CHR ''='' \<and> url_char c \<noteq> SEP"
  by (auto simp: b64_alphabet_def url_char_def url_unchar_def SEP_def)

lemma b64url_body:
  assumes "b64encode bs = body @ replicate k (CHR ''='')" and "set body \<subseteq> set b64_alphabet"
  shows "b64url bs = map url_char body"
proof -
  have nz: "\<forall>c \<in> set (map url_char body). c \<noteq> CHR ''=''"
    using assms(2) url_char_alphabet by auto
  have "dropWhile (\<lambda>c. c = CHR ''='') (rev (map url_char body)) = rev (map url_char body)"
  proof (cases "map url_char body = []")
    case False
    then have "hd (rev (map url_char body)) \<in> set (map url_char body)"
      using last_in_set [of body] by (auto simp: hd_rev last_map)
    with nz have "hd (rev (map url_char body)) \<noteq> CHR ''=''"
      by blast
    then show ?thesis
      by (simp add: dropWhile_eq_self_iff)
  qed simp
  then show ?thesis
    using assms(1) dropWhile_append2 [of "replicate k (CHR ''='')" "\<lambda>c. c = CHR ''=''"]
    by (simp add: b64url_def rstrip_pad_def url_char_def)
qed

lemma pad_count:
  assumes "k \<le> 2" and "(n + k) mod 4 = 0"
  shows "(4 - n mod 4) mod 4 = (k::nat)"
proof -
  have r: "n mod 4 < 4"
    by simp
  have "4 dvd (n mod 4 + k)"
    using assms(2) by (simp add: mod_add_left_eq dvd_eq_mod_eq_0)
  then obtain q where q: "n mod 4 + k = 4 * q"
    by (auto simp: dvd_def)
  with r assms(1) have "q = 0 \<or> q = 1"
    by linarith
  then show ?thesis
    using q r assms(1) by auto
qed

lemma b64url_decode_b64url: "b64url_decode (b64url bs) = Some bs"
proof -
  obtain body k where e: "b64encode bs = body @ replicate k (CHR ''='')"
    and s: "set body \<subseteq> set b64_alphabet" and k: "k \<le> 2"
    using b64encode_body_pad by blast
  have u: "b64url bs = map url_char body"
    by (rule b64url_body [OF e s])
  have un: "map url_unchar (map url_char body) = body"
    unfolding map_map
  proof (rule map_idI)
    fix c
    assume "c \<in> set body"
    with s show "(url_unchar \<circ> url_char) c = c"
      using url_char_alphabet by auto
  qed
  have "length (b64encode bs) mod 4 = 0"
    using b64encode_length [of bs] by simp
  then have "(length body + k) mod 4 = 0"
    using e by simp
  with k have pad: "(4 - length body mod 4) mod 4 = k"
    by (rule pad_count)
  have "b64url_decode (b64url bs) = b64decode (body @ replicate k (CHR ''=''))"
    unfolding b64url_decode_def u length_map un pad ..
  also have "\<dots> = Some bs"
    using e b64decode_b64encode_eq [of bs] by simp
  finally show ?thesis .
qed

lemma SEP_notin_b64url: "SEP \<notin> set (b64url bs)"
proof -
  obtain body k where e: "b64encode bs = body @ replicate k (CHR ''='')" and s: "set body \<subseteq> set b64_alphabet"
    using b64encode_body_pad by blast
  have "\<forall>c \<in> set body. url_char c \<noteq> SEP"
    using s url_char_alphabet by blast
  then show ?thesis
    using b64url_body [OF e s] by auto
qed

lemma b64url_Nil_iff: "b64url bs = [] \<longleftrightarrow> bs = []"
proof
  assume "b64url bs = []"
  then show "bs = []"
    using b64url_decode_b64url [of bs] by (simp add: b64url_decode_def)
qed (simp add: b64url_def rstrip_pad_def)

subsection \<open>The signed, time-stamped text\<close>

lemma int_from_bytes_snoc: "int_from_bytes (bs @ [b]) = 256 * int_from_bytes bs + unat b"
  by (simp add: int_from_bytes_def)

lemma int_from_bytes_nat_bytes: "int_from_bytes (nat_bytes n) = n"
proof (induction n rule: nat_bytes.induct)
  case (1 n)
  show ?case
  proof (cases "n < 256")
    case True
    then show ?thesis by (simp add: nat_bytes.simps int_from_bytes_def unat_of_nat)
  next
    case False
    then show ?thesis
      using "1.IH" by (simp add: nat_bytes.simps [of n] int_from_bytes_snoc unat_of_nat)
  qed
qed

lemma rsplit1_append: "c \<notin> set t \<Longrightarrow> rsplit1 c (s @ c # t) = Some (s, t)"
proof -
  assume "c \<notin> set t"
  then have all: "\<forall>x \<in> set (rev t). x \<noteq> c"
    by auto
  then have "dropWhile (\<lambda>x. x \<noteq> c) (rev t @ c # rev s) = c # rev s"
    using dropWhile_append2 [of "rev t" "\<lambda>x. x \<noteq> c" "c # rev s"] by simp
  moreover have "takeWhile (\<lambda>x. x \<noteq> c) (rev t @ c # rev s) = rev t"
    using all takeWhile_append2 [of "rev t" "\<lambda>x. x \<noteq> c" "c # rev s"] by simp
  ultimately show ?thesis
    by (simp add: rsplit1_def)
qed

lemma chars_of_bytes_of [simp]: "chars_of (bytes_of s) = s"
  by (simp add: chars_of_def bytes_of_def unat_of_nat comp_def)

lemma load_payload_zipped:
  "load_payload cr (SEP # p) =
     (case b64url_decode p of
        None \<Rightarrow> Inl BadPayload
      | Some bs \<Rightarrow>
          (case zlib_decompress cr bs of
             None \<Rightarrow> Inl BadPayload
           | Some j \<Rightarrow> (case loads (\<lambda>_. Some ()) (chars_of j) of Inl _ \<Rightarrow> Inl BadPayload | Inr v \<Rightarrow> Inr v)))"
  unfolding load_payload_def by (simp split: option.split)

lemma load_payload_plain:
  assumes "p \<noteq> []" and "hd p \<noteq> SEP"
  shows "load_payload cr p =
     (case b64url_decode p of
        None \<Rightarrow> Inl BadPayload
      | Some j \<Rightarrow> (case loads (\<lambda>_. Some ()) (chars_of j) of Inl _ \<Rightarrow> Inl BadPayload | Inr v \<Rightarrow> Inr v))"
  using assms unfolding load_payload_def by (cases p) (simp_all split: option.split)

lemma load_dump_payload:
  assumes "crypto_ok cr" and "distinct (map fst kvs)"
  shows "load_payload cr (dump_payload cr kvs) = Inr (JObj (map (\<lambda>(k, v). (k, JStr v)) (sort_key fst kvs)))"
proof -
  let ?j = "bytes_of (py_dumps_dict kvs)"
  have j: "loads (\<lambda>_. Some ()) (chars_of ?j) = Inr (JObj (map (\<lambda>(k, v). (k, JStr v)) (sort_key fst kvs)))"
    using loads_py_dumps_dict [OF assms(2)] by simp
  have z: "zlib_decompress cr (zlib_compress cr ?j) = Some ?j"
    using assms(1) by (simp add: crypto_ok_def)
  have ne: "b64url ?j \<noteq> []"
    by (simp add: b64url_Nil_iff bytes_of_def py_dumps_dict_def)
  then have "hd (b64url ?j) \<noteq> SEP"
    using SEP_notin_b64url [of ?j] hd_in_set by metis
  then have plain: "load_payload cr (b64url ?j) = Inr (JObj (map (\<lambda>(k, v). (k, JStr v)) (sort_key fst kvs)))"
    using ne j by (simp add: load_payload_plain b64url_decode_b64url)
  show ?thesis
    using plain z j by (simp add: dump_payload_def Let_def load_payload_zipped b64url_decode_b64url)
qed

lemma timestamp_unsign_sign:
  "timestamp_unsign cr now (timestamp_sign cr ts p) =
     (if MAX_AGE < now - ts \<or> now < ts then Inl SignatureExpired else Inr p)"
proof -
  let ?t = "b64url (nat_bytes ts)"
  let ?h = "b64url (hmac_sha1 cr (bytes_of (p @ SEP # ?t)))"
  have r1: "rsplit1 SEP (p @ SEP # ?t @ SEP # ?h) = Some (p @ SEP # ?t, ?h)"
    using rsplit1_append [of SEP ?h "p @ SEP # ?t"] SEP_notin_b64url by simp
  have r2: "rsplit1 SEP (p @ SEP # ?t) = Some (p, ?t)"
    using rsplit1_append [of SEP ?t p] SEP_notin_b64url by simp
  have c: "timestamp_sign cr ts p = p @ SEP # ?t @ SEP # ?h"
    by (simp add: timestamp_sign_def Let_def)
  show ?thesis
    unfolding c timestamp_unsign_def r1
    using r2 by (simp only: b64url_decode_b64url int_from_bytes_nat_bytes option.case prod.case if_False if_True simp_thms)
qed

lemma cookie_dumps_ne: "cookie_dumps cr ts kvs \<noteq> []"
  by (simp add: cookie_dumps_def timestamp_sign_def Let_def)

lemma cookie_loads_dumps:
  assumes "crypto_ok cr" and "distinct (map fst kvs)" and "ts \<le> now" and "now \<le> ts + MAX_AGE"
  shows "cookie_loads cr now (cookie_dumps cr ts kvs) = Inr (JObj (map (\<lambda>(k, v). (k, JStr v)) (sort_key fst kvs)))"
proof -
  have "\<not> (MAX_AGE < now - ts \<or> now < ts)"
    using assms(3,4) by linarith
  then show ?thesis
    using load_dump_payload [OF assms(1,2)]
    by (simp add: cookie_loads_def cookie_dumps_def timestamp_unsign_sign)
qed

lemma cookie_loads_expired:
  assumes "ts + MAX_AGE < now"
  shows "cookie_loads cr now (cookie_dumps cr ts kvs) = Inl SignatureExpired"
proof -
  have "MAX_AGE < now - ts"
    using assms by linarith
  then show ?thesis
    by (simp add: cookie_loads_def cookie_dumps_def timestamp_unsign_sign)
qed

subsection \<open>Lengths\<close>

lemma length_b64url_ge: "6 \<le> length bs \<Longrightarrow> length bs \<le> length (b64url bs)"
proof -
  assume n: "6 \<le> length bs"
  obtain body k where e: "b64encode bs = body @ replicate k (CHR ''='')"
    and s: "set body \<subseteq> set b64_alphabet" and k: "k \<le> 2"
    using b64encode_body_pad by blast
  have "length body + k = 4 * ((length bs + 2) div 3)"
    using b64encode_length [of bs] e by simp
  moreover have "length bs \<le> 3 * ((length bs + 2) div 3)"
    by simp
  ultimately show ?thesis
    using b64url_body [OF e s] n k by simp
qed

lemma py_escape_char_ne: "py_escape_char c \<noteq> []"
  by (simp add: py_escape_char_def)

lemma length_py_json_str: "length s < length (py_json_str s)"
proof -
  have "length s \<le> length (concat (map py_escape_char s))"
  proof (induction s)
    case (Cons c s)
    then show ?case
      using py_escape_char_ne [of c] by (cases "py_escape_char c") simp_all
  qed simp
  then show ?thesis
    by (simp add: py_json_str_def)
qed

lemma length_cookie_dumps_ge:
  "length (dump_payload cr kvs) < length (cookie_dumps cr ts kvs)"
  by (simp add: cookie_dumps_def timestamp_sign_def Let_def)

lemma dump_payload_uncompressed:
  "\<not> length (zlib_compress cr (bytes_of (py_dumps_dict kvs))) < length (py_dumps_dict kvs) - 1 \<Longrightarrow>
     dump_payload cr kvs = b64url (bytes_of (py_dumps_dict kvs))"
  by (simp add: dump_payload_def Let_def bytes_of_def)

lemma length_single_dict: "length v < length (py_dumps_dict [(k, v)])"
  using length_py_json_str [of v] by (simp add: py_dumps_dict_def py_member_def)

lemma length_b64url_le: "length (b64url bs) \<le> 4 * ((length bs + 2) div 3)"
proof -
  obtain body k where e: "b64encode bs = body @ replicate k (CHR ''='')" and s: "set body \<subseteq> set b64_alphabet"
    using b64encode_body_pad by blast
  show ?thesis
    using b64url_body [OF e s] b64encode_length [of bs] e by simp
qed

lemma length_py_json_str_le: "length (py_json_str s) \<le> 6 * length s + 2"
proof -
  have "length (concat (map py_escape_char s)) \<le> 6 * length s"
    by (induction s) (simp_all add: py_escape_char_def)
  then show ?thesis
    by (simp add: py_json_str_def)
qed

lemma length_cookie_dumps:
  "length (cookie_dumps cr ts kvs) =
     length (dump_payload cr kvs) + length (b64url (nat_bytes ts)) +
     length (b64url (hmac_sha1 cr (bytes_of (dump_payload cr kvs @ SEP # b64url (nat_bytes ts))))) + 2"
  by (simp add: cookie_dumps_def timestamp_sign_def Let_def)

subsection \<open>The cookie text\<close>

lemma url_char_image: "url_char ` set b64_alphabet \<subseteq> set (''ABCDEFGHIJKLMNOPQRSTUVWXYZabcdefghijklmnopqrstuvwxyz0123456789-_'')"
  by (simp add: b64_alphabet_def url_char_def)

lemma set_b64url: "set (b64url bs) \<subseteq> url_char ` set b64_alphabet"
proof -
  obtain body k where e: "b64encode bs = body @ replicate k (CHR ''='')" and s: "set body \<subseteq> set b64_alphabet"
    using b64encode_body_pad by blast
  show ?thesis
    using b64url_body [OF e s] s by auto
qed

text \<open>C31: the cookie needs no quoting: every character of the text \<open>cookie_dumps\<close>
  writes is a letter, a digit, \<open>-\<close>, \<open>_\<close> or the dot that separates its three parts; no
  \<open>+\<close>, \<open>/\<close>, padding \<open>=\<close> or quote, whatever the session holds.\<close>

theorem cookie_text_url_safe:
  "set (cookie_dumps cr ts kvs) \<subseteq> set (''ABCDEFGHIJKLMNOPQRSTUVWXYZabcdefghijklmnopqrstuvwxyz0123456789-_.'')"
proof -
  let ?A = "set (''ABCDEFGHIJKLMNOPQRSTUVWXYZabcdefghijklmnopqrstuvwxyz0123456789-_.'')"
  have b: "set (b64url bs) \<subseteq> ?A" for bs
    using set_b64url [of bs] url_char_image by auto
  have sep: "SEP \<in> ?A"
    by (simp add: SEP_def)
  have "set (dump_payload cr kvs) \<subseteq> ?A"
    using b sep by (simp add: dump_payload_def Let_def)
  then show ?thesis
    using b sep by (simp add: cookie_dumps_def timestamp_sign_def Let_def)
qed

end
