(* ===== verification/SessionCookie.thy ===== *)
theory SessionCookie
  imports Routes CookieCodec
begin

text \<open>
  The session lives in the browser. Flask opens it at the start of every request from
  the cookie \<open>session\<close> (\<open>SecureCookieSessionInterface.open_session\<close>) and, once the
  view has run, writes it back (\<open>save_session\<close>) when the view has modified it: a new
  signed cookie when the session holds something, a deletion when it is empty. The
  browser keeps a cookie only when its name and value fit in 4096 bytes; a larger
  \<open>Set-Cookie\<close> is dropped and the old cookie stays. \<open>cookie_step\<close> is one request of
  one browser against the application of \<open>Routes\<close>, with the session carried by the
  cookie; \<open>cookie_run\<close> runs a sequence of time-stamped requests.
\<close>

subsection \<open>Opening and saving the session\<close>

definition empty_session :: "'f session" where
  "empty_session = \<lparr>sess_data = None, flashes = []\<rparr>"

text \<open>\<open>dict(session)\<close>: the only key the views keep across requests is \<open>data\<close>; the
  flashed messages are consumed by the page that shows them within the request.\<close>

definition sess_dict :: "'f session \<Rightarrow> (string \<times> string) list" where
  "sess_dict s = (case sess_data s of None \<Rightarrow> [] | Some t \<Rightarrow> [(''data'', t)])"

text \<open>\<open>SecureCookieSession(data)\<close>.\<close>

fun session_of_json :: "unit json \<Rightarrow> 'f session" where
  "session_of_json (JObj kvs) =
     \<lparr>sess_data = (case map_of kvs ''data'' of Some (JStr t) \<Rightarrow> Some t | _ \<Rightarrow> None), flashes = []\<rparr>"
| "session_of_json _ = empty_session"

text \<open>\<open>open_session\<close>: no cookie or an empty one gives a new session, as does a cookie
  that fails its signature or is too old (\<open>BadSignature\<close>, \<open>SignatureExpired\<close>); a
  signed cookie whose payload does not decode raises \<open>BadPayload\<close>, which Flask does not
  catch.\<close>

definition open_session :: "crypto \<Rightarrow> nat \<Rightarrow> string option \<Rightarrow> cookie_error + 'f session" where
  "open_session cr now jar =
     (case jar of
        None \<Rightarrow> Inr empty_session
      | Some v \<Rightarrow>
          if v = [] then Inr empty_session
          else
            (case cookie_loads cr now v of
               Inl BadPayload \<Rightarrow> Inl BadPayload
             | Inl _ \<Rightarrow> Inr empty_session
             | Inr j \<Rightarrow> Inr (session_of_json j)))"

datatype cookie_action = Keep | Delete | SetCookie string

text \<open>\<open>save_session\<close> for a session that is not permanent: an empty session deletes the
  cookie when it was modified; otherwise the cookie is set exactly when the session was
  modified (\<open>should_set_cookie\<close>), signed at the current time.\<close>

definition save_session :: "crypto \<Rightarrow> nat \<Rightarrow> bool \<Rightarrow> 'f session \<Rightarrow> cookie_action" where
  "save_session cr now modified s =
     (if sess_dict s = [] then (if modified then Delete else Keep)
      else if modified then SetCookie (cookie_dumps cr now (sess_dict s)) else Keep)"

text \<open>A request modifies the session when it reaches \<open>index\<close> with an upload the form
  accepts: \<open>session["data"] = ...\<close> (line 49), or \<open>flash\<close> (line 47) and the page that
  pops the message. Every other request only reads it (line 55).\<close>

definition session_modified :: "string list \<Rightarrow> string \<Rightarrow> request \<Rightarrow> bool" where
  "session_modified pfx p req \<longleftrightarrow>
     match_path pfx p = Some EIndex \<and> req_method req \<in> set (rule_methods EIndex) \<and>
     \<not> body_too_large req \<and> validated_upload req \<noteq> None"

subsection \<open>The browser\<close>

definition COOKIE_NAME :: string where
  "COOKIE_NAME = ''session''"

definition COOKIE_LIMIT :: nat where
  "COOKIE_LIMIT = 4096"

definition cookie_fits :: "string \<Rightarrow> bool" where
  "cookie_fits v \<longleftrightarrow> length COOKIE_NAME + length v \<le> COOKIE_LIMIT"

definition set_cookie_fits :: "cookie_action \<Rightarrow> bool" where
  "set_cookie_fits a = (case a of SetCookie v \<Rightarrow> cookie_fits v | _ \<Rightarrow> True)"

definition browser_store :: "cookie_action \<Rightarrow> string option \<Rightarrow> string option" where
  "browser_store a j = (case a of Keep \<Rightarrow> j | Delete \<Rightarrow> None | SetCookie v \<Rightarrow> if cookie_fits v then Some v else j)"

record 'f browser =
  flask :: "'f flask_state"
  jar :: "string option"

definition browser_init :: "'f browser" where
  "browser_init = \<lparr>flask = flask_init, jar = None\<rparr>"

definition with_session :: "'f session \<Rightarrow> 'f flask_state \<Rightarrow> 'f flask_state" where
  "with_session s fs = fs\<lparr>fl_server := (fl_server fs)\<lparr>session := s\<rparr>\<rparr>"

text \<open>One request at time \<open>now\<close>: open the session from the cookie (an exception there
  is a 500 before the request is dispatched), run the request, save the session; the
  response carries the cookie action.\<close>

fun cookie_step ::
  "bool \<Rightarrow> ('m, 'f::zero) chem \<Rightarrow> 'f float_text \<Rightarrow> crypto \<Rightarrow> 'f browser \<Rightarrow> nat \<times> 'b wire_event \<Rightarrow>
     'f browser \<times> 'b wire_response \<times> cookie_action" where
  "cookie_step chk tk ft cr b (now, Wire p req hov rnd) =
     (case open_session cr now (jar b) of
        Inl _ \<Rightarrow> (b, WStatus 500, Keep)
      | Inr s \<Rightarrow>
          (case wire_step chk tk ft (with_session s (flask b)) (Wire p req hov rnd) of
             (fs', r) \<Rightarrow>
               (let a = save_session cr now (session_modified (prefixes (flask b)) p req) (session (fl_server fs'))
                in (\<lparr>flask = fs', jar = browser_store a (jar b)\<rparr>, r, a))))"

fun wire_run ::
  "bool \<Rightarrow> ('m, 'f::zero) chem \<Rightarrow> 'f float_text \<Rightarrow> 'f flask_state \<Rightarrow> 'b wire_event list \<Rightarrow>
     'f flask_state \<times> 'b wire_response list" where
  "wire_run chk tk ft fs [] = (fs, [])"
| "wire_run chk tk ft fs (e # es) =
     (case wire_step chk tk ft fs e of
        (fs', r) \<Rightarrow> (case wire_run chk tk ft fs' es of (fs'', rs) \<Rightarrow> (fs'', r # rs)))"

fun cookie_run ::
  "bool \<Rightarrow> ('m, 'f::zero) chem \<Rightarrow> 'f float_text \<Rightarrow> crypto \<Rightarrow> 'f browser \<Rightarrow> (nat \<times> 'b wire_event) list \<Rightarrow>
     'f browser \<times> ('b wire_response \<times> cookie_action) list" where
  "cookie_run chk tk ft cr b [] = (b, [])"
| "cookie_run chk tk ft cr b (e # es) =
     (case cookie_step chk tk ft cr b e of
        (b', r, a) \<Rightarrow> (case cookie_run chk tk ft cr b' es of (b'', rs) \<Rightarrow> (b'', (r, a) # rs)))"

subsection \<open>What a request does to the session\<close>

lemma next_route_session:
  "session (fl_server (fst (next_route chk ft rnd fs))) = session (fl_server fs)"
  using next_route_cases [of chk ft rnd fs] next_page_cases [of ft "fl_server fs"] by auto

lemma wire_step_session:
  "session (fl_server (fst (wire_step chk tk ft fs (Wire p req hov rnd)))) =
     (if match_path (prefixes fs) p = Some EIndex \<and> req_method req \<in> set (rule_methods EIndex)
      then fst (index tk ft req (session (fl_server fs))) else session (fl_server fs))"
  using next_route_session [of chk ft rnd "fs\<lparr>got_first_request := True\<rparr>"]
  by (auto simp: Let_def case_prod_beta server_step_hover split: option.splits endpoint.splits)

lemma index_flashes:
  "flashes s = [] \<Longrightarrow> flashes (fst (index tk ft req s)) = []"
  by (simp add: index_def render_main_def split: option.split sum.split)

lemma index_unmodified:
  "flashes s = [] \<Longrightarrow> body_too_large req \<or> validated_upload req = None \<Longrightarrow> fst (index tk ft req s) = s"
  by (auto simp: index_def render_main_def)

lemma wire_step_flashes:
  "flashes (session (fl_server fs)) = [] \<Longrightarrow>
     flashes (session (fl_server (fst (wire_step chk tk ft fs (Wire p req hov rnd))))) = []"
  unfolding wire_step_session by (simp add: index_flashes)

lemma wire_step_unmodified:
  "flashes (session (fl_server fs)) = [] \<Longrightarrow> \<not> session_modified (prefixes fs) p req \<Longrightarrow>
     session (fl_server (fst (wire_step chk tk ft fs (Wire p req hov rnd)))) = session (fl_server fs)"
  unfolding wire_step_session by (auto simp: session_modified_def index_unmodified)

subsection \<open>Opening what was saved\<close>

lemma sess_dict_Some: "sess_data s = Some d \<Longrightarrow> sess_dict s = [(''data'', d)]"
  by (simp add: sess_dict_def)

lemma sess_dict_Nil_iff: "sess_dict s = [] \<longleftrightarrow> sess_data s = None"
  by (simp add: sess_dict_def split: option.split)

lemma session_eqI: "sess_data s = d \<Longrightarrow> flashes s = [] \<Longrightarrow> s = \<lparr>sess_data = d, flashes = []\<rparr>"
  by (cases s) simp

lemma open_session_dumps:
  assumes "crypto_ok cr" and "flashes s = []" and "sess_dict s \<noteq> []"
    and "ts \<le> now" and "now \<le> ts + MAX_AGE"
  shows "open_session cr now (Some (cookie_dumps cr ts (sess_dict s))) = Inr s"
proof -
  obtain d where d: "sess_data s = Some d"
    using assms(3) by (auto simp: sess_dict_Nil_iff)
  have loads: "cookie_loads cr now (cookie_dumps cr ts [(''data'', d)]) = Inr (JObj [(''data'', JStr d)])"
    using cookie_loads_dumps [OF assms(1) _ assms(4,5), of "[(''data'', d)]"] by simp
  have sd: "sess_dict s = [(''data'', d)]"
    using d by (rule sess_dict_Some)
  have "open_session cr now (Some (cookie_dumps cr ts (sess_dict s))) =
          Inr (session_of_json (JObj [(''data'', JStr d)]))"
    unfolding sd using loads by (simp add: open_session_def cookie_dumps_ne)
  also have "\<dots> = Inr s"
    using session_eqI [OF d assms(2)] by simp
  finally show ?thesis .
qed

lemma open_session_None: "open_session cr now None = Inr empty_session"
  by (simp add: open_session_def)

lemma empty_session_eq: "sess_data s = None \<Longrightarrow> flashes s = [] \<Longrightarrow> s = empty_session"
  unfolding empty_session_def by (rule session_eqI)

subsection \<open>The cookie-backed browser refines the server-side session\<close>

text \<open>The browser's cookie holds the session of the server-side model, signed at a time
  between \<open>lo\<close> and \<open>t\<close>; the application state is the same.\<close>

definition cookie_rel :: "crypto \<Rightarrow> nat \<Rightarrow> nat \<Rightarrow> 'f browser \<Rightarrow> 'f flask_state \<Rightarrow> bool" where
  "cookie_rel cr lo t b fs \<longleftrightarrow>
     flask b = fs \<and> lo \<le> t \<and> flashes (session (fl_server fs)) = [] \<and>
     (case jar b of
        None \<Rightarrow> sess_data (session (fl_server fs)) = None
      | Some v \<Rightarrow>
          (\<exists>ts. lo \<le> ts \<and> ts \<le> t \<and> sess_dict (session (fl_server fs)) \<noteq> [] \<and>
                v = cookie_dumps cr ts (sess_dict (session (fl_server fs)))))"

lemma cookie_rel_open:
  assumes "cookie_rel cr lo t b fs" and "crypto_ok cr" and "t \<le> now" and "now \<le> lo + MAX_AGE"
  shows "open_session cr now (jar b) = Inr (session (fl_server fs))"
proof (cases "jar b")
  case None
  with assms(1) show ?thesis
    using empty_session_eq [of "session (fl_server fs)"] by (simp add: cookie_rel_def open_session_None)
next
  case (Some v)
  with assms(1) obtain ts where "lo \<le> ts" "ts \<le> t" "sess_dict (session (fl_server fs)) \<noteq> []"
    and v: "v = cookie_dumps cr ts (sess_dict (session (fl_server fs)))"
    and "flashes (session (fl_server fs)) = []"
    by (auto simp: cookie_rel_def)
  with Some assms(2-4) show ?thesis
    using open_session_dumps [of cr "session (fl_server fs)" ts now] by simp
qed

lemma with_session_self [simp]: "with_session (session (fl_server fs)) fs = fs"
  by (simp add: with_session_def)

lemma cookie_step_rel:
  assumes rel: "cookie_rel cr lo t b fs" and ok: "crypto_ok cr"
    and tn: "t \<le> now" and age: "now \<le> lo + MAX_AGE"
    and step: "cookie_step chk tk ft cr b (now, Wire p req hov rnd) = (b', r, a)"
    and fits: "set_cookie_fits a"
  shows "wire_step chk tk ft fs (Wire p req hov rnd) = (flask b', r) \<and> cookie_rel cr lo now b' (flask b')"
proof -
  let ?s = "session (fl_server fs)"
  obtain fs' r' where w: "wire_step chk tk ft fs (Wire p req hov rnd) = (fs', r')"
    by fastforce
  let ?m = "session_modified (prefixes fs) p req" and ?s' = "session (fl_server fs')"
  have fb: "flask b = fs" and lt: "lo \<le> t" and fl: "flashes ?s = []"
    using rel by (simp_all add: cookie_rel_def)
  have "open_session cr now (jar b) = Inr ?s"
    using cookie_rel_open [OF rel ok tn age] .
  with step w fb have a: "a = save_session cr now ?m ?s'"
    and b': "b' = \<lparr>flask = fs', jar = browser_store a (jar b)\<rparr>" and r: "r = r'"
    by (auto simp: Let_def)
  have fl': "flashes ?s' = []"
    using wire_step_flashes [OF fl, of chk tk ft p req hov rnd] w by simp
  have "cookie_rel cr lo now b' fs'"
  proof (cases ?m)
    case True
    show ?thesis
    proof (cases "sess_dict ?s' = []")
      case True
      with \<open>?m\<close> a b' fl' lt tn show ?thesis
        by (simp add: cookie_rel_def save_session_def browser_store_def sess_dict_Nil_iff)
    next
      case False
      with \<open>?m\<close> a fits have "jar b' = Some (cookie_dumps cr now (sess_dict ?s'))"
        by (simp add: b' save_session_def browser_store_def set_cookie_fits_def)
      moreover have "lo \<le> now"
        using lt tn by (rule order_trans)
      ultimately show ?thesis
        using False b' fl' lt tn by (auto simp: cookie_rel_def intro!: exI [of _ now])
    qed
  next
    case False
    have same: "?s' = ?s"
      using wire_step_unmodified [OF fl False, of chk tk ft hov rnd] w by simp
    have "a = Keep"
      using False a by (simp add: save_session_def)
    with rel b' same lt tn show ?thesis
      by (auto simp: cookie_rel_def browser_store_def split: option.splits)
  qed
  with w b' r show ?thesis
    by simp
qed

lemma cookie_run_rel:
  assumes "cookie_rel cr lo t b fs" and "crypto_ok cr" and "sorted (t # map fst evs)"
    and "\<forall>x \<in> set evs. fst x \<le> lo + MAX_AGE"
    and "list_all (\<lambda>x. set_cookie_fits (snd x)) (snd (cookie_run chk tk ft cr b evs))"
  shows "map fst (snd (cookie_run chk tk ft cr b evs)) = snd (wire_run chk tk ft fs (map snd evs)) \<and>
         flask (fst (cookie_run chk tk ft cr b evs)) = fst (wire_run chk tk ft fs (map snd evs))"
  using assms
proof (induction evs arbitrary: t b fs)
  case Nil
  then show ?case
    by (simp add: cookie_rel_def)
next
  case (Cons e evs)
  obtain now p req hov rnd where e: "e = (now, Wire p req hov rnd)"
    by (metis surj_pair wire_event.exhaust)
  obtain b' r a where s: "cookie_step chk tk ft cr b (now, Wire p req hov rnd) = (b', r, a)"
    by (metis prod_cases3)
  have fits: "set_cookie_fits a" and fits': "list_all (\<lambda>x. set_cookie_fits (snd x)) (snd (cookie_run chk tk ft cr b' evs))"
    using Cons.prems(5) by (simp_all add: e s case_prod_beta del: cookie_step.simps)
  have tn: "t \<le> now" and srt: "sorted (now # map fst evs)"
    using Cons.prems(3) by (simp_all add: e)
  have age: "now \<le> lo + MAX_AGE" and age': "\<forall>x \<in> set evs. fst x \<le> lo + MAX_AGE"
    using Cons.prems(4) by (simp_all add: e)
  have w: "wire_step chk tk ft fs (Wire p req hov rnd) = (flask b', r)"
    and rel: "cookie_rel cr lo now b' (flask b')"
    using cookie_step_rel [OF Cons.prems(1,2) tn age s fits] by simp_all
  have "map fst (snd (cookie_run chk tk ft cr b' evs)) = snd (wire_run chk tk ft (flask b') (map snd evs)) \<and>
        flask (fst (cookie_run chk tk ft cr b' evs)) = fst (wire_run chk tk ft (flask b') (map snd evs))"
    using Cons.IH [OF rel Cons.prems(2) srt age' fits'] .
  then show ?case
    by (simp add: e s w case_prod_beta del: cookie_step.simps wire_step.simps)
qed

lemma match_path_next: "match_path pfx ''/next'' = Some ENext"
  by (simp add: match_path_def url_map_def flask_endpoint_def)

lemma method_allowed_next: "req_method req \<in> set (rule_methods ENext)"
  by (cases "req_method req") (simp_all add: rule_methods_def)

lemma next_without_session:
  assumes "open_session cr now (jar b) = Inr empty_session"
  shows "fst (snd (cookie_step chk tk ft cr b (now, Wire ''/next'' req hov rnd))) = WPage (InternalError KeyError)"
proof -
  let ?fs = "with_session empty_session (flask b)\<lparr>got_first_request := True\<rparr>"
  have "next_route chk ft rnd ?fs = (?fs, InternalError KeyError)"
    by (simp add: next_route_def next_page_def with_session_def empty_session_def)
  then show ?thesis
    using assms match_path_next [of "prefixes (flask b)"] method_allowed_next [of req]
    by (simp add: Let_def with_session_def)
qed

lemma match_path_index: "match_path pfx ''/'' = Some EIndex"
  by (simp add: match_path_def url_map_def flask_endpoint_def)

lemma accepted_upload_sets_cookie:
  assumes "open_session cr now (jar b) = Inr s" and "\<not> body_too_large req"
    and "validated_upload req = Some u" and "ingest tk (read_csv (content u)) = Inr df"
  shows "snd (snd (cookie_step chk tk ft cr b (now, Wire ''/'' req hov rnd))) =
           SetCookie (cookie_dumps cr now [(''data'', to_json_text (dtoa ft) df)])"
  using assms match_path_index [of "prefixes (flask b)"] validated_upload_POST [OF assms(3)]
  by (simp add: Let_def with_session_def index_def save_session_def sess_dict_def session_modified_def
                rule_methods_def case_prod_beta)

lemma next_keeps_cookie:
  "snd (snd (cookie_step chk tk ft cr b (now, Wire ''/next'' req hov rnd))) = Keep"
  by (simp add: Let_def save_session_def session_modified_def match_path_next case_prod_beta
           split: sum.split)

subsection \<open>Concrete runs\<close>

text \<open>A stand-in for zlib and the keyed HMAC: compression that never shortens (so the
  payload is written uncompressed) and a constant 20-byte signature.\<close>

definition demo_crypto :: crypto where
  "demo_crypto = \<lparr>zlib_compress = id, zlib_decompress = Some, hmac_sha1 = (\<lambda>_. replicate 20 7)\<rparr>"

text \<open>A rejected upload on a fresh browser, then \<open>/next\<close>.\<close>

definition demo_cookie_events :: "(nat \<times> unit wire_event) list" where
  "demo_cookie_events =
     [(1000, Wire ''/'' demo_bad_upload None demo_rnd), (1001, Wire ''/next'' demo_get None demo_rnd)]"




text \<open>An empty \<open>.txt\<close> file: the form accepts it and the table is empty.\<close>

definition empty_upload :: request where
  "empty_upload =
     \<lparr>req_method = POST, req_file = Some \<lparr>filename = ''empty.txt'', content = []\<rparr>,
      csrf_valid = True, content_length = 0\<rparr>"


lemma demo_crypto_ok: "crypto_ok demo_crypto"
  by (simp add: crypto_ok_def demo_crypto_def)

text \<open>C10: what \<open>save_session\<close> writes, the next request opens again: the saved cookie,
  read back at most 31 days later, gives the session that was saved.\<close>

theorem save_open_session:
  assumes "crypto_ok cr" and "save_session cr ts m s = SetCookie v" and "flashes s = []"
    and "ts \<le> now" and "now \<le> ts + MAX_AGE"
  shows "open_session cr now (Some v) = Inr s"
proof -
  have "sess_dict s \<noteq> []" and v: "v = cookie_dumps cr ts (sess_dict s)"
    using assms(2) by (auto simp: save_session_def split: if_splits)
  then show ?thesis
    using open_session_dumps [OF assms(1) assms(3) _ assms(4,5)] by simp
qed

lemma save_open_session_witness:
  "open_session demo_crypto (1000 + MAX_AGE)
     (Some (cookie_dumps demo_crypto 1000 [(''data'', ''{}'')])) =
   Inr \<lparr>sess_data = Some ''{}'', flashes = []\<rparr>"
proof -
  have "save_session demo_crypto 1000 True \<lparr>sess_data = Some ''{}'', flashes = []\<rparr> =
          SetCookie (cookie_dumps demo_crypto 1000 [(''data'', ''{}'')])"
    by (simp add: save_session_def sess_dict_def)
  from save_open_session [OF demo_crypto_ok this] show ?thesis
    by simp
qed

text \<open>C26: the table expires with the cookie's signature: a cookie signed more than 31
  days earlier opens as an empty session, so \<open>/next\<close> fails with \<open>KeyError\<close> although the
  browser still sends the cookie that holds the table.\<close>

theorem expired_cookie_loses_upload:
  assumes "jar b = Some (cookie_dumps cr ts kvs)" and "ts + MAX_AGE < now"
  shows "fst (snd (cookie_step chk tk ft cr b (now, Wire ''/next'' req hov rnd))) = WPage (InternalError KeyError)"
proof -
  have "open_session cr now (jar b) = Inr empty_session"
    using assms cookie_loads_expired [OF assms(2), of cr kvs] by (simp add: open_session_def cookie_dumps_ne)
  then show ?thesis
    by (rule next_without_session)
qed

lemma expired_cookie_loses_upload_witness:
  "fst (snd (cookie_step False example_chem int_text demo_crypto
      \<lparr>flask = flask_init, jar = Some (cookie_dumps demo_crypto 1000 [(''data'', ''{}'')])\<rparr>
      (1001 + MAX_AGE, Wire ''/next'' demo_get (None :: unit hover_point list option) demo_rnd))) =
   WPage (InternalError KeyError)"
  by (rule expired_cookie_loses_upload [where ts = "1000::nat" and kvs = "[(''data'', ''{}'')]"]) simp_all

text \<open>C19: as long as every cookie the server sets fits in the browser and the requests
  come within 31 days of the first, the browser sees exactly the responses of the model in
  which the session stays on the server (\<open>wire_run\<close>), and the application ends in the
  same state: the cookie carries the session faithfully.\<close>

theorem cookie_run_refines:
  assumes "crypto_ok cr" and "sorted (map fst evs)" and "\<forall>x \<in> set evs. lo \<le> fst x \<and> fst x \<le> lo + MAX_AGE"
    and "list_all (\<lambda>x. set_cookie_fits (snd x)) (snd (cookie_run chk tk ft cr browser_init evs))"
  shows "map fst (snd (cookie_run chk tk ft cr browser_init evs)) = snd (wire_run chk tk ft flask_init (map snd evs)) \<and>
         flask (fst (cookie_run chk tk ft cr browser_init evs)) = fst (wire_run chk tk ft flask_init (map snd evs))"
proof -
  have "cookie_rel cr lo lo browser_init flask_init"
    by (simp add: cookie_rel_def browser_init_def flask_init_def server_init_def)
  moreover have "sorted (lo # map fst evs)"
    using assms(2,3) by simp
  moreover have "\<forall>x \<in> set evs. fst x \<le> lo + MAX_AGE"
    using assms(3) by blast
  ultimately show ?thesis
    using cookie_run_rel assms(1,4) by blast
qed

lemma cookie_run_refines_witness:
  "map fst (snd (cookie_run False example_chem int_text demo_crypto browser_init demo_cookie_events)) =
     snd (wire_run False example_chem int_text flask_init (map snd demo_cookie_events)) \<and>
   flask (fst (cookie_run False example_chem int_text demo_crypto browser_init demo_cookie_events)) =
     fst (wire_run False example_chem int_text flask_init (map snd demo_cookie_events))"
proof (rule cookie_run_refines [where lo = 1000])
  show "crypto_ok demo_crypto"
    by (rule demo_crypto_ok)
  show "sorted (map fst demo_cookie_events)"
    by (simp add: demo_cookie_events_def)
  show "\<forall>x \<in> set demo_cookie_events. 1000 \<le> fst x \<and> fst x \<le> 1000 + MAX_AGE"
    by (simp add: demo_cookie_events_def MAX_AGE_def)
  show "list_all (\<lambda>x. set_cookie_fits (snd x))
          (snd (cookie_run False example_chem int_text demo_crypto browser_init demo_cookie_events))"
    using demo_bad_upload_eval
    by (simp add: demo_cookie_events_def browser_init_def flask_init_def server_init_def open_session_def
                  empty_session_def with_session_def match_path_def url_map_def flask_endpoint_def
                  rule_methods_def index_def render_main_def flash_def save_session_def sess_dict_def
                  set_cookie_fits_def browser_store_def next_route_def next_page_def demo_get_def
                  demo_bad_upload_def Let_def case_prod_beta session_modified_def)
qed








text \<open>C33: the cookie carries the table from the upload to the plot. On a fresh browser,
  an accepted upload whose cookie fits, followed within 31 days by a request to
  \<open>/next\<close>, shows the plot page of a new app built from the table read back from the
  cookie's text, and \<open>/next\<close> leaves the cookie as it is.\<close>

theorem upload_next_through_cookie:
  assumes "crypto_ok cr" and "text_ok ft" and "\<not> body_too_large req" and "validated_upload req = Some u"
    and "ingest tk (read_csv (content u)) = Inr df"
    and "cookie_fits (cookie_dumps cr ts [(''data'', to_json_text (dtoa ft) df)])"
    and "ts \<le> now" and "now \<le> ts + MAX_AGE"
  shows "cookie_step False tk ft cr (fst (cookie_step False tk ft cr browser_init (ts, Wire ''/'' req hov rnd0)))
           (now, Wire ''/next'' req' hov' rnd) =
         (fst (cookie_step False tk ft cr (fst (cookie_step False tk ft cr browser_init (ts, Wire ''/'' req hov rnd0)))
                 (now, Wire ''/next'' req' hov' rnd)),
          WPage (DashIndex 0), Keep) \<and>
         apps (fl_server (flask (fst (cookie_step False tk ft cr
                (fst (cookie_step False tk ft cr browser_init (ts, Wire ''/'' req hov rnd0))) (now, Wire ''/next'' req' hov' rnd))))) =
           [\<lparr>app_df = map (round_row (read_back ft)) df, app_figure = make_figure (map (round_row (read_back ft)) df)\<rparr>]"
proof -
  let ?txt = "to_json_text (dtoa ft) df"
  let ?df' = "map (round_row (read_back ft)) df"
  obtain b1 r1 a1 where st1: "cookie_step False tk ft cr browser_init (ts, Wire ''/'' req hov rnd0) = (b1, r1, a1)"
    by (metis prod_cases3)
  have "a1 = SetCookie (cookie_dumps cr ts [(''data'', ?txt)])"
    using accepted_upload_sets_cookie [OF _ assms(3,4,5), where cr = cr and now = ts and b = browser_init and chk = False and ft = ft and hov = hov and rnd = rnd0] st1
    by (simp add: browser_init_def open_session_None del: cookie_step.simps)
  with assms(6) have fits1: "set_cookie_fits a1"
    by (simp add: set_cookie_fits_def)
  have rel0: "cookie_rel cr ts ts (browser_init :: 'a browser) flask_init"
    by (simp add: cookie_rel_def browser_init_def flask_init_def server_init_def)
  have age1: "ts \<le> ts + MAX_AGE"
    by simp
  from cookie_step_rel [OF rel0 assms(1) order_refl age1 st1 fits1]
  have w1: "wire_step False tk ft flask_init (Wire ''/'' req hov rnd0) = (flask b1, r1)"
    and rel1: "cookie_rel cr ts ts b1 (flask b1)"
    by simp_all
  obtain b2 r2 a2 where st2: "cookie_step False tk ft cr b1 (now, Wire ''/next'' req' hov' rnd) = (b2, r2, a2)"
    by (metis prod_cases3)
  have a2: "a2 = Keep"
    using next_keeps_cookie [of False tk ft cr b1 now req' hov' rnd] st2 by (simp del: cookie_step.simps)
  then have fits2: "set_cookie_fits a2"
    by (simp add: set_cookie_fits_def)
  from cookie_step_rel [OF rel1 assms(1) assms(7) assms(8) st2 fits2]
  have w2: "wire_step False tk ft (flask b1) (Wire ''/next'' req' hov' rnd) = (flask b2, r2)"
    by simp
  have idx: "index tk ft req (session (fl_server (flask_init :: 'a flask_state))) =
               (\<lparr>sess_data = Some ?txt, flashes = []\<rparr>, Redirect ''/next'')"
    using assms(3,4,5) by (simp add: index_def flask_init_def server_init_def)
  have fb1: "flask b1 = (flask_init :: 'a flask_state)\<lparr>got_first_request := True,
               fl_server := (server_init :: 'a server)\<lparr>session := \<lparr>sess_data = Some ?txt, flashes = []\<rparr>\<rparr>\<rparr>"
    using w1 idx validated_upload_POST [OF assms(4)] match_path_index [of "prefixes (flask_init :: 'a flask_state)"]
    by (auto simp: rule_methods_def case_prod_beta flask_init_def server_init_def)
  have rd: "read_json_text (strtod ft) ?txt = Inr ?df'"
    by (rule read_json_text_eq [OF text_ok_frame_floats_ok [OF assms(2)]])
  have f2: "flask b2 = fst (wire_step False tk ft (flask b1) (Wire ''/next'' req' hov' rnd))"
    and r2: "r2 = snd (wire_step False tk ft (flask b1) (Wire ''/next'' req' hov' rnd))"
    using w2 by (simp_all del: wire_step.simps)
  have "r2 = WPage (DashIndex 0) \<and> apps (fl_server (flask b2)) = [\<lparr>app_df = ?df', app_figure = make_figure ?df'\<rparr>]"
    unfolding f2 r2 using rd match_path_next [of "prefixes (flask b1)"] method_allowed_next [of req']
    by (simp add: fb1 next_route_def next_page_def flask_init_def server_init_def)
  with st1 st2 a2 show ?thesis
    by (simp del: cookie_step.simps)
qed

lemma length_json_string_le: "length (json_string s) \<le> 6 * length s + 2"
proof -
  have "length (concat (map escape_char s)) \<le> 6 * length s"
    by (induction s) (simp_all add: escape_char_def)
  then show ?thesis
    by (simp add: json_string_def)
qed

lemma empty_upload_eval:
  "\<not> body_too_large empty_upload"
  "validated_upload empty_upload = Some \<lparr>filename = ''empty.txt'', content = []\<rparr>"
  "ingest tk (read_csv (content \<lparr>filename = ''empty.txt'', content = []\<rparr>)) = Inr []"
  by (simp_all add: empty_upload_def demo_eval_defs)

lemma empty_cookie_fits:
  "cookie_fits (cookie_dumps demo_crypto 1000 [(''data'', to_json_text (dtoa int_text) [])])"
proof -
  let ?t = "to_json_text int_fmt ([] :: int frame)"
  let ?j = "py_dumps_dict [(''data'', ?t)]"
  have t: "length ?t \<le> 200"
    using length_json_string_le [of "''SMILES''"] length_json_string_le [of "''clogP''"]
      length_json_string_le [of "''sascore''"]
    by (simp add: to_json_text_def to_json_def column_json_def)
  have j: "length ?j \<le> 1240"
    using length_py_json_str_le [of ?t] length_py_json_str_le [of "''data''"] t
    by (simp add: py_dumps_dict_def py_member_def)
  have p: "dump_payload demo_crypto [(''data'', ?t)] = b64url (bytes_of ?j)"
    by (rule dump_payload_uncompressed) (simp add: demo_crypto_def bytes_of_def)
  have "length (b64url (bytes_of ?j)) \<le> 4 * ((length ?j + 2) div 3)"
    using length_b64url_le [of "bytes_of ?j"] by (simp add: bytes_of_def)
  with j have d: "length (dump_payload demo_crypto [(''data'', ?t)]) \<le> 1656"
    unfolding p by linarith
  have "length (b64url (nat_bytes 1000)) \<le> 4 * ((length (nat_bytes 1000) + 2) div 3)"
    by (rule length_b64url_le)
  moreover have "nat_bytes 1000 = [3, 232]"
    by (simp add: nat_bytes.simps [of 1000] nat_bytes.simps [of 3])
  ultimately have "length (b64url (nat_bytes 1000)) \<le> 4"
    by simp
  moreover have "length (b64url (replicate 20 (7 :: byte))) \<le> 28"
    using length_b64url_le [of "replicate 20 (7 :: byte)"] by simp
  ultimately show ?thesis
    using d by (simp add: cookie_fits_def COOKIE_NAME_def COOKIE_LIMIT_def length_cookie_dumps demo_crypto_def)
qed

lemma upload_next_through_cookie_witness:
  "cookie_step False example_chem int_text demo_crypto
      (fst (cookie_step False example_chem int_text demo_crypto browser_init
              (1000, Wire ''/'' empty_upload (None :: unit hover_point list option) demo_rnd)))
      (1005, Wire ''/next'' demo_get (None :: unit hover_point list option) demo_rnd) =
   (fst (cookie_step False example_chem int_text demo_crypto
          (fst (cookie_step False example_chem int_text demo_crypto browser_init
                  (1000, Wire ''/'' empty_upload (None :: unit hover_point list option) demo_rnd)))
          (1005, Wire ''/next'' demo_get (None :: unit hover_point list option) demo_rnd)),
    WPage (DashIndex 0), Keep) \<and>
   apps (fl_server (flask (fst (cookie_step False example_chem int_text demo_crypto
      (fst (cookie_step False example_chem int_text demo_crypto browser_init
              (1000, Wire ''/'' empty_upload (None :: unit hover_point list option) demo_rnd)))
      (1005, Wire ''/next'' demo_get (None :: unit hover_point list option) demo_rnd))))) =
     [\<lparr>app_df = [], app_figure = make_figure []\<rparr>]"
  using upload_next_through_cookie [where now = 1005 and hov = "None :: unit hover_point list option" and rnd0 = demo_rnd
            and req' = demo_get and hov' = "None :: unit hover_point list option" and rnd = demo_rnd,
          OF demo_crypto_ok int_text_ok empty_upload_eval(1,2,3) empty_cookie_fits]
  by (simp add: MAX_AGE_def)

end
