(* ===== verification/Spec2Isabelle.thy ===== *)
theory Spec2Isabelle
  imports SessionCookie
begin

text \<open>
  \<^bold>\<open>A verification model of dash_in_flask.\<close>

  The program (src/app.py, src/extras/forms.py) is a Flask server with two routes. The
  upload page \<open>/\<close> (\<open>index\<close>) takes a text file through \<open>UploadForm\<close>, reads one SMILES
  string per line with \<open>pd.read_csv\<close>, and for each line parses the molecule with RDKit
  and computes two descriptors (\<open>MolLogP\<close>, \<open>sascorer.calculateScore\<close>); the first line
  that raises aborts the upload with a flashed message naming the line, otherwise the
  table is stored in the session as JSON and the browser is redirected to \<open>/next\<close>.
  \<open>/next\<close> reads the table back, registers a new Dash app whose page shows a scatter
  plot of the two descriptors, and whose hover callback renders the hovered row's
  molecule as a base64 PNG data URL in a tooltip.

  \<^bold>\<open>Theories and what they model.\<close>
  \<^item> \<open>Prelude\<close>: Python exceptions (\<open>py_exc\<close>), results \<open>py_exc + 'a\<close> sequenced by
    \<open>sbind\<close>, list indexing \<open>py_getitem\<close> (negative indices, \<open>IndexError\<close>),
    \<open>str\<close>/\<open>int\<close> on naturals (\<open>nat_str\<close>, \<open>str_nat\<close>), \<open>str.lower\<close>,
    \<open>str.endswith\<close>.
  \<^item> \<open>Toolkit\<close>: RDKit and sascorer are not in the repository; they are an interface,
    the record \<open>chem\<close> of functions over an abstract molecule type and an abstract float
    type. Modelled is what the program passes them and how the call fails on \<open>None\<close> or
    on a NaN cell (\<open>mol_from_cell\<close>, \<open>mol_logp_py\<close>, \<open>sa_score_py\<close>,
    \<open>mol_to_png_py\<close>). Every theorem holds for every toolkit; \<open>example_chem\<close> is a
    small concrete one for the witnesses.
  \<^item> \<open>Csv\<close>: \<open>pd.read_csv(file, names=["SMILES"])\<close> on a one-column file:
    \<open>split_lines\<close> (line ends \<open>\n\<close>, \<open>\r\n\<close>, \<open>\r\<close>), blank lines skipped,
    missing-value markers read as NaN (\<open>read_csv\<close>, \<open>data_lines\<close> with file line
    numbers).
  \<^item> \<open>Ingest\<close>: the loop of \<open>index\<close> (app.py 36 to 48): the zero-initialised frame
    (\<open>frame_init\<close>), the in-place writes (\<open>set_clogP\<close>, \<open>set_sascore\<close>), the
    \<open>try\<close> body (\<open>try_row\<close>), the loop with its early return (\<open>ingest_loop\<close>,
    \<open>ingest\<close>); \<open>ingest_spec\<close> is the per-row contract it refines.
  \<^item> \<open>Forms\<close>: \<open>UploadForm\<close>'s validators (\<open>file_required\<close>, \<open>file_allowed\<close>),
    CSRF, \<open>validate_on_submit\<close>, and the 5 KB \<open>MAX_CONTENT_LENGTH\<close> (app.py 30).
  \<^item> \<open>SessionJson\<close>: \<open>df.to_json()\<close> (orient "columns") and \<open>pd.read_json\<close> as a JSON
    value (\<open>to_json\<close>, \<open>read_json\<close>).
  \<^item> \<open>JsonText\<close>: pandas' vendored ujson on the text: the writer (\<open>escape_char\<close>,
    \<open>json_string\<close>, \<open>dumps\<close>: quote, backslash and slash escaped, control characters
    and non-ASCII as \<open>\u00XX\<close>, no spaces) and the recursive decoder (\<open>decode_any\<close>,
    \<open>decode_object\<close>, \<open>decode_array\<close>, \<open>decode_string\<close>, \<open>loads\<close>: whitespace,
    escapes, duplicate keys as a dict keeps them, the depth limit \<open>MAX_DEPTH\<close>, trailing
    data). Doubles are written and read by parameters \<open>fmt\<close> and \<open>rd\<close>.
  \<^item> \<open>SessionText\<close>: the session text \<open>to_json_text\<close> = \<open>dumps \<circ> to_json\<close> and its
    reader \<open>read_json_text\<close>; the double formatting as an interface record
    \<open>float_text\<close> (\<open>dtoa\<close>, \<open>strtod\<close>) with the condition \<open>text_ok\<close> that every
    double is written as a JSON number that reads back; \<open>int_text\<close> is an instance.
  \<^item> \<open>Base64\<close>: \<open>base64.b64encode\<close> on \<open>8 word\<close> bytes with binascii's shifts and masks,
    a strict decoder, and the browser's decoding of a \<open>data:\<close> URL body.
  \<^item> \<open>Plot\<close>: the figure (\<open>make_figure\<close>, app.py 59 to 63), \<open>smiles_to_base64_img\<close>
    (18 to 24), the callback \<open>display_hover\<close> (81 to 97).
  \<^item> \<open>Server\<close>: the session (stored JSON text, flashed messages), the handlers \<open>index\<close> and
    \<open>next_page\<close>, the list of registered Dash apps (one per \<open>/next\<close> request, each
    closing over its table; the \<open>uuid4\<close> path is the position in the list), the event
    step \<open>server_step\<close>, and \<open>reachable\<close> states by an inductive definition.
  \<^item> \<open>DashPage\<close>: the page of a Dash app (app.py 65 to 80): the layout tree
    (\<open>app_layout\<close>), the callback's declared outputs and input (\<open>display_hover_decl\<close>)
    and Dash's check of them against the layout (\<open>callback_ok\<close>); the page in the
    browser as a state machine (\<open>page_state\<close>, \<open>page_step\<close>, \<open>dash_page_run\<close>):
    \<open>dcc.Graph\<close> sets \<open>hoverData\<close> on a hover and, with \<open>clear_on_unhover\<close>, clears it
    on an unhover; each change fires the callback, whose outputs other than
    \<open>no_update\<close> are written to the tooltip, and the initial call hides it.
  \<^item> \<open>Uuid\<close>: \<open>uuid.uuid4()\<close> and \<open>str(UUID)\<close> on \<open>128 word\<close> (masks of the version and
    variant bits, \<open>'%032x'\<close> cut by hyphens).
  \<^item> \<open>Routes\<close>: \<open>create_app\<close>'s configuration, werkzeug's URL matching over the two Flask
    rules and each app's page and callback paths under its prefix
    \<open>"/" + str(uuid4()) + "/"\<close> (404, 405), Flask's \<open>_got_first_request\<close>, the request
    step \<open>wire_step\<close> composing \<open>server_step\<close> with the matching, and
    \<open>reachable_wire\<close> states. Recent Flask releases refuse setup methods once a request
    has started; \<open>Dash(server=server)\<close> in \<open>/next\<close> calls them, so the model has that
    check as a parameter \<open>chk\<close> and proves both behaviours.
  \<^item> \<open>CookieCodec\<close>: what Flask's \<open>SecureCookieSessionInterface\<close> does with the session
    dict: Python's \<open>json.dumps\<close> with sorted keys (\<open>py_dumps_dict\<close>), itsdangerous'
    payload (zlib when shorter, URL-safe base64 without padding: \<open>dump_payload\<close>,
    \<open>b64url\<close>), its time stamp and HMAC signature (\<open>timestamp_sign\<close>,
    \<open>cookie_dumps\<close>), and the reverse with the signature and 31-day age checks
    (\<open>timestamp_unsign\<close>, \<open>load_payload\<close>, \<open>cookie_loads\<close>). zlib and the keyed
    HMAC-SHA1 are parameters (\<open>crypto\<close>) with the one property used, that zlib
    decompresses what it compressed (\<open>crypto_ok\<close>).
  \<^item> \<open>SessionCookie\<close>: the session carried by the browser. \<open>open_session\<close> and
    \<open>save_session\<close> around every request (a modified session is written back at the
    current time, an emptied one deleted), the browser that keeps a cookie only when it
    fits in 4096 bytes (\<open>browser_store\<close>), the request of one browser \<open>cookie_step\<close>
    over \<open>wire_step\<close>, and the runs \<open>cookie_run\<close> and \<open>wire_run\<close>; the session of
    \<open>Server\<close> is the one this cookie holds.

  \<^bold>\<open>What is proved.\<close>
  \<^item> The loop refines its contract (C1): each row's descriptors in order, or the
    1-based number of the first row that raises; from it the success and failure
    characterisations (C2 to C4).
  \<^item> Safety of the plot page (C5): in every reachable state, hovering over any plotted
    point of any app renders the molecule of the same row, without an exception; it
    rests on the invariant \<open>server_inv\<close> kept by every event (C6): every table held in
    the session or an app was computed row by row by the toolkit from its SMILES.
  \<^item> The upload handler's branches (C7, C8, C15), the end-to-end path from an upload
    to the tooltip of its \<open>i\<close>-th line (C9), the callback on each branch (C11, C12), the
    figure (C13), the form (C14), base64 (C16, C17), the line splitting (C18, C25).
  \<^item> Registered apps are never changed or removed; \<open>/next\<close> appends at most one (C24).
  \<^item> The JSON text: the decoder reads back what the encoder writes (C27); its fuel is
    always enough (C28); the encoder's strings are ASCII between space and DEL (C30);
    nesting beyond 1024 raises (C32); the session's text reads back as the stored table
    with each double as its text reads back (C29).
  \<^item> The page of an app: the tooltip is hidden after loading and after every unhover
    (C34); along any run of hover events a shown tooltip is that of the first hovered
    point's row (C35).
  \<^item> The prefixes: the text of \<open>uuid4()\<close> has 36 characters with its version and
    variant digits (C36) and determines the UUID (C37).
  \<^item> Over the wire: a hover posted to an app's callback path renders its row in every
    reachable state (C38); under the setup check \<open>/next\<close> answers 500 and no app ever
    exists (C39); without it, an upload and \<open>/next\<close> from any reachable state register
    one more app, answered at its prefix (C40).
  \<^item> The session cookie: a saved session opens again within 31 days (C10); its text is
    letters, digits, \<open>-\<close>, \<open>_\<close> and dots only (C31); as long as every cookie fits and the
    requests come within 31 days, the browser sees exactly the responses of the model
    that keeps the session on the server (C19, a simulation through \<open>cookie_rel\<close>); an
    accepted upload whose cookie fits reaches the plot page through it (C33).
  \<^item> Findings, each as a theorem: the flashed line number counts data rows, not file
    lines, so it is wrong after a blank line (C20); an empty \<open>.txt\<close> file passes the form
    and stores an empty table (C21); \<open>/next\<close> without a stored table raises
    \<open>KeyError\<close> (C22), and a rejected upload leaves an earlier table in place (C7); the
    on current Flask \<open>/next\<close> always fails with \<open>AssertionError\<close> (C39); an upload
    whose cookie exceeds the browser's 4096 bytes is lost and \<open>/next\<close> raises
    \<open>KeyError\<close>, although the 5 KB upload cap lets such files through (C23); and the
    table is lost the same way once the cookie is older than 31 days (C26).

  \<^bold>\<open>Bounds and fuel.\<close> No loop of the program can run forever: the line splitter
  is a \<open>function\<close> with a length measure, every other loop of the program is structural
  recursion. The JSON decoder is recursive descent over the text; it is modelled with
  fuel, and \<open>loads\<close> gives it \<open>2 * length s + 1\<close>: every call on a nonempty text either
  consumes a character or returns, and the nested object and array loops each take one
  unit, so the fuel is always enough (C28). The numeric bounds are \<open>MAX_CONTENT_LENGTH\<close>
  = 5120 and ujson's \<open>MAX_DEPTH\<close> = 1024; doubles are abstract. UUIDs are 128-bit words:
  the 16 bytes read big-endian stay below \<open>2^128\<close>, so the word masks compute what Python's
  unbounded integers do; a prefix is 38 characters and a callback path 60, so neither
  can be taken for \<open>/\<close>, \<open>/next\<close> or each other. The cookie: times are natural seconds,
  \<open>MAX_AGE\<close> is Flask's \<open>permanent_session_lifetime\<close> of 31 days, the browser limit
  \<open>COOKIE_LIMIT\<close> = 4096 bytes for name and value; the witnesses bound the cookie length
  through the lengths of the JSON and of base64 (4 characters per 3 bytes).

  \<^bold>\<open>Plan for the next steps.\<close> Several browsers with their own cookies against one
  server; pandas' quoting and delimiter handling in \<open>read_csv\<close>; the data URL processor
  in full.

  \<^bold>\<open>Not modelled.\<close> RDKit's parser and descriptors and sascorer's fragment table (an
  interface); the HTML of the upload page, the figure's trace settings (\<open>update_traces\<close>) and
  the rendering of styles; the digits of
  doubles (\<open>float_text\<close> is a parameter); ujson's number grammar beyond the token
  characters; the CSV delimiter and quoting and pandas' numeric type
  inference; the bytes of zlib and of HMAC-SHA1 (parameters), the \<open>csrf_token\<close> key
  Flask-WTF adds to the session, Python's \<open>json.loads\<close> (the cookie's payload is read
  with the ujson decoder of \<open>JsonText\<close>, which reads what \<open>json.dumps\<close> writes here the
  same way), permanent sessions; binding \<open>server.run\<close> to its
  port and \<open>app_context()\<close>; HEAD and OPTIONS requests and trailing-slash redirects; a
  single browser session is modelled.
\<close>

subsection \<open>From an upload to the tooltip\<close>

text \<open>C9: after an accepted upload whose lines are all valid, a request to \<open>/next\<close>
  registers a new app; hovering over its point \<open>i\<close> shows the picture of the molecule
  written on the \<open>i\<close>-th data line of the uploaded file.\<close>

theorem upload_then_hover:
  assumes "\<not> body_too_large req" and "validated_upload req = Some u"
    and "list_all (row_ok tk) (read_csv (content u))"
    and "i < length (data_lines (content u))" and "pointNumber pt = int i" and "text_ok ft"
  shows "\<exists>m. MolFromSmiles tk (snd (data_lines (content u) ! i)) = Some m \<and>
           hover_callback tk (length (apps st)) (Some (pt # pts))
             (fst (next_page ft (st\<lparr>session := fst (index tk ft req (session st))\<rparr>))) =
           CallbackResponse (Inr (True, Upd (bbox pt), Upd [Div [Img (img_src (MolToImage tk m))]]))"
proof -
  let ?cs = "read_csv (content u)"
  let ?line = "snd (data_lines (content u) ! i)"
  obtain df where ing: "ingest tk ?cs = Inr df"
    using ingest_spec_total [OF assms(3), of 0] by (auto simp: ingest_unfold)
  then have cf: "computed_frame tk df" and sm: "map SMILES df = ?cs"
    using ingest_computed_frame by blast+
  let ?df' = "map (round_row (read_back ft)) df"
  have st2: "apps (fst (next_page ft (st\<lparr>session := fst (index tk ft req (session st))\<rparr>))) =
               apps st @ [\<lparr>app_df = ?df', app_figure = make_figure ?df'\<rparr>]"
    using assms(1,2) ing read_json_text_eq [OF text_ok_frame_floats_ok [OF assms(6)], of df]
    by (simp add: index_def next_page_def)
  have len: "i < length df"
    using assms(4) sm length_read_csv [of "content u"] by (metis length_map)
  have "SMILES (df ! i) = ?cs ! i"
    using sm len by (metis nth_map)
  then have cell: "SMILES (df ! i) = to_cell ?line"
    using assms(4) by (simp add: read_csv_nth)
  from cf len have "descriptors tk (SMILES (df ! i)) = Inr (clogP (df ! i), sascore (df ! i))"
    by (simp add: computed_frame_def list_all_length)
  then obtain s m where s: "SMILES (df ! i) = Str s" and m: "MolFromSmiles tk s = Some m"
    by (auto simp: descriptors_Inr)
  from cell s have "s = ?line"
    by (simp add: to_cell_def split: if_splits)
  have len': "i < length ?df'"
    using len by simp
  have s': "SMILES (?df' ! i) = Str s"
    using len s by (simp add: round_row_def)
  from len' assms(5) s' m
  have "display_hover tk ?df' (Some (pt # pts)) =
          Inr (True, Upd (bbox pt), Upd [Div [Img (img_src (MolToImage tk m))]])"
    by (rule display_hover_at)
  with st2 m \<open>s = ?line\<close> show ?thesis
    by (simp add: hover_callback_def nth_append)
qed

lemma upload_then_hover_witness:
  "\<exists>m. MolFromSmiles example_chem (snd (data_lines demo_content ! 1)) = Some m \<and>
     hover_callback example_chem 0 (Some [\<lparr>bbox = (), pointNumber = 1\<rparr>])
       (fst (next_page int_text ((server_init :: int server)\<lparr>session :=
          fst (index example_chem int_text demo_upload (session (server_init :: int server)))\<rparr>))) =
     CallbackResponse (Inr (True, Upd (), Upd [Div [Img (img_src (MolToImage example_chem m))]]))"
proof -
  have ok: "list_all (row_ok example_chem) (read_csv (content \<lparr>filename = ''mols.TXT'', content = demo_content\<rparr>))"
    using demo_upload_eval by (simp add: demo_content_def demo_eval_defs row_ok_def descriptors_def)
  have i: "1 < length (data_lines (content \<lparr>filename = ''mols.TXT'', content = demo_content\<rparr>))"
    by (simp add: demo_content_def demo_eval_defs)
  show ?thesis
    using upload_then_hover [OF demo_upload_eval(1,2) ok i _ int_text_ok,
                             where pt = "\<lparr>bbox = (), pointNumber = 1\<rparr>"
                               and st = "server_init :: int server" and pts = "[]"]
    by (simp add: server_init_def)
qed

subsection \<open>Findings\<close>

definition blank_line_upload :: request where
  "blank_line_upload =
     \<lparr>req_method = POST, req_file = Some \<lparr>filename = ''mols.txt'', content = ''CCO'' @ LF # LF # ''XX''\<rparr>,
      csrf_valid = True, content_length = 100\<rparr>"

text \<open>C20: the message names the row number of the frame, not the line of the file: for
  the file \<open>CCO\<close>, an empty line, \<open>XX\<close>, the invalid identifier \<open>XX\<close> is on line 3, but
  the upload page says "line 2" (pandas skipped the blank line).\<close>

theorem reported_line_differs:
  "snd (index example_chem int_text blank_line_upload \<lparr>sess_data = None, flashes = []\<rparr>) =
     MainPage [''Error. Please check line 2 of your file.''] \<and>
   data_lines (''CCO'' @ LF # LF # ''XX'') = [(1, ''CCO''), (3, ''XX'')]"
proof -
  have rows: "data_lines (''CCO'' @ LF # LF # ''XX'') = [(1, ''CCO''), (3, ''XX'')]"
    by (simp add: data_lines_def LF_def CR_def blank_line_def enumerate_eq_zip)
  have "ingest example_chem (read_csv (''CCO'' @ LF # LF # ''XX'')) = Inl (Suc (Suc 0))"
    by (simp add: demo_eval_defs)
  then have "snd (index example_chem int_text blank_line_upload \<lparr>sess_data = None, flashes = []\<rparr>) =
               MainPage [error_message (Suc (Suc 0))]"
    by (simp add: index_def blank_line_upload_def demo_eval_defs render_main_def flash_def)
  with rows show ?thesis
    by (simp add: error_message_def nat_str.simps digit_char_def decimal_digits_def)
qed

text \<open>C21: the form does not reject an empty file: an empty \<open>.txt\<close> upload passes
  validation, yields an empty table, is stored and redirects to the plot page.\<close>

theorem empty_upload_accepted:
  "index tk ft \<lparr>req_method = POST, req_file = Some \<lparr>filename = ''empty.txt'', content = []\<rparr>,
                 csrf_valid = True, content_length = 0\<rparr> s =
     (s\<lparr>sess_data := Some (to_json_text (dtoa ft) [])\<rparr>, Redirect ''/next'')"
  by (simp add: index_def demo_eval_defs)

end
